(* ===== verification/Prelude.thy ===== *)
theory Prelude
  imports Main "HOL-Library.Word"
begin

text \<open>
  Shared vocabulary of the development: machine integers at the widths the Go code declares
  (\<open>byte\<close>, \<open>uint16\<close>, \<open>uint32\<close> as words of 8, 16 and 32 bits), errors as values, the big-endian
  integers of \<open>encoding/binary\<close>, and the lemmas on lists and words that every component uses.
  \<^item> collection \<open>be_simps\<close>: conversions between integers and their bytes;
  \<^item> collection \<open>op_defs\<close>: definitions that a component proof unfolds.
\<close>

unbundle bit_operations_syntax

type_synonym byte = "8 word"
type_synonym bytes = "byte list"
type_synonym u8 = "8 word"
type_synonym u16 = "16 word"
type_synonym u32 = "32 word"

named_theorems be_simps "big-endian integers and their bytes"
named_theorems op_defs "definitions unfolded by component proofs"

section \<open>Errors\<close>

text \<open>
  A Go function that returns \<open>(value, error)\<close> returns a value of \<open>error + 'a\<close> here. A returned
  error is \<open>Err\<close> with the text of the message, formatted arguments left out. \<open>Panic\<close> is a run-time
  panic (an index or a slice bound out of range, a nil dereference), which stops the program, and
  \<open>Blocked\<close> is a send on a channel whose buffer is full, which stops the goroutine.
  A function that changes the state and returns only an error is
  \<open>state \<Rightarrow> error option \<times> state\<close>; \<open>None\<close> is Go's \<open>nil\<close>.
\<close>

datatype error = Err string | Panic | Blocked

text \<open>No code runs behind a panic, and none of the goroutine behind a blocked send: an operation that
  goes on after an error goes on only when it was returned.\<close>

fun stops :: "error option \<Rightarrow> bool" where
  "stops None = False"
| "stops (Some (Err m)) = False"
| "stops (Some Panic) = True"
| "stops (Some Blocked) = True"

lemma stops_iff: "stops r \<longleftrightarrow> r = Some Panic \<or> r = Some Blocked"
  by (cases r rule: stops.cases) simp_all

section \<open>Big-endian integers\<close>

definition hi8 :: "u16 \<Rightarrow> byte" where
  "hi8 v = ucast (drop_bit 8 v)"

definition lo8 :: "u16 \<Rightarrow> byte" where
  "lo8 v = ucast v"

definition join16 :: "byte \<Rightarrow> byte \<Rightarrow> u16" where
  "join16 a b = push_bit 8 (ucast a) OR ucast b"

definition hi16 :: "u32 \<Rightarrow> u16" where
  "hi16 v = ucast (drop_bit 16 v)"

definition lo16 :: "u32 \<Rightarrow> u16" where
  "lo16 v = ucast v"

definition join32 :: "u16 \<Rightarrow> u16 \<Rightarrow> u32" where
  "join32 a b = push_bit 16 (ucast a) OR ucast b"

lemma join16_hi8_lo8 [simp, be_simps]: "join16 (hi8 v) (lo8 v) = v"
  by (rule bit_word_eqI) (auto simp: join16_def hi8_def lo8_def bit_simps)

lemma hi8_join16 [simp, be_simps]: "hi8 (join16 a b) = a"
  by (rule bit_word_eqI) (auto simp: join16_def hi8_def bit_simps dest: bit_imp_le_length)

lemma lo8_join16 [simp, be_simps]: "lo8 (join16 a b) = b"
  by (rule bit_word_eqI) (auto simp: join16_def lo8_def bit_simps)

lemma join32_hi16_lo16 [simp, be_simps]: "join32 (hi16 v) (lo16 v) = v"
  by (rule bit_word_eqI) (auto simp: join32_def hi16_def lo16_def bit_simps)

lemma hi16_join32 [simp, be_simps]: "hi16 (join32 a b) = a"
  by (rule bit_word_eqI) (auto simp: join32_def hi16_def bit_simps dest: bit_imp_le_length)

lemma lo16_join32 [simp, be_simps]: "lo16 (join32 a b) = b"
  by (rule bit_word_eqI) (auto simp: join32_def lo16_def bit_simps)

text \<open>The bytes \<open>binary.Write\<close> appends for a \<open>uint16\<close> and a \<open>uint32\<close>.\<close>

definition be16 :: "u16 \<Rightarrow> bytes" where
  "be16 v = [hi8 v, lo8 v]"

definition be32 :: "u32 \<Rightarrow> bytes" where
  "be32 v = be16 (hi16 v) @ be16 (lo16 v)"

text \<open>The integers \<open>binary.Read\<close> takes from the bytes at offset \<open>i\<close> (in range at every use).\<close>

definition get16 :: "bytes \<Rightarrow> nat \<Rightarrow> u16" where
  "get16 bs i = join16 (bs ! i) (bs ! (i + 1))"

definition get32 :: "bytes \<Rightarrow> nat \<Rightarrow> u32" where
  "get32 bs i = join32 (get16 bs i) (get16 bs (i + 2))"

lemma length_be16 [simp]: "length (be16 v) = 2"
  by (simp add: be16_def)

lemma length_be32 [simp]: "length (be32 v) = 4"
  by (simp add: be32_def)

lemma be16_get16 [be_simps]: "be16 (get16 bs i) = [bs ! i, bs ! (i + 1)]"
  by (simp add: be16_def get16_def)

lemma be32_get32 [be_simps]:
  "be32 (get32 bs i) = [bs ! i, bs ! (i + 1), bs ! (i + 2), bs ! (i + 3)]"
  by (simp add: be32_def get32_def be16_get16 numeral_eq_Suc)

lemmas be_bytes = be16_def be32_def get16_def get32_def

text \<open>A prefix of known length is the list of its elements.\<close>

lemma take_as_nths: "n \<le> length xs \<Longrightarrow> take n xs = map ((!) xs) [0..<n]"
  by (rule nth_equalityI) auto

text \<open>Reading an updated list within its bounds, whatever the index of the update.\<close>

lemma nth_list_update_if: "j < length xs \<Longrightarrow> xs[i := x] ! j = (if i = j then x else xs ! j)"
  by (cases "i = j") simp_all

section \<open>Words read as numbers\<close>

lemma unat_push_or:
  fixes a :: byte and b :: byte
  shows "unat (push_bit 8 (ucast a) OR ucast b :: u32) = 256 * unat a + unat b"
proof -
  have "push_bit 8 (ucast a) OR ucast b = (push_bit 8 (ucast a) + ucast b :: u32)"
    by (rule disjunctive_add [symmetric]) (auto simp: bit_simps dest: bit_imp_le_length)
  also have "\<dots> = 256 * ucast a + ucast b"
    by (simp add: push_bit_eq_mult mult.commute)
  also have "\<dots> = of_nat (256 * unat a + unat b)"
    by simp
  finally have "unat (push_bit 8 (ucast a) OR ucast b :: u32)
      = (256 * unat a + unat b) mod 2 ^ LENGTH(32)"
    by (simp only: unat_of_nat)
  moreover have "unat a < 256" "unat b < 256"
    using unsigned_less [of a] unsigned_less [of b] by simp_all
  ultimately show ?thesis by simp
qed

lemma unat_join16: "unat (join16 a b) = 256 * unat a + unat b"
proof -
  have "join16 a b = push_bit 8 (ucast a) + ucast b"
    unfolding join16_def
    by (rule disjunctive_add [symmetric]) (auto simp: bit_simps dest: bit_imp_le_length)
  also have "\<dots> = of_nat (256 * unat a + unat b)"
    by (simp add: push_bit_eq_mult mult.commute)
  finally have "unat (join16 a b) = (256 * unat a + unat b) mod 2 ^ LENGTH(16)"
    by (simp only: unat_of_nat)
  moreover have "unat a < 256" "unat b < 256"
    using unsigned_less [of a] unsigned_less [of b] by simp_all
  ultimately show ?thesis by simp
qed

lemma unat_byte_less [simp]: "unat (a :: byte) < 256"
  using unsigned_less [of a] by simp

lemma unat_u16_less [simp]: "unat (a :: u16) < 65536"
  using unsigned_less [of a] by simp

lemma unat_u32_less [simp]: "unat (a :: u32) < 4294967296"
  using unsigned_less [of a] by simp

lemma unat_NOT_u16: "unat (NOT (x :: u16)) = 65535 - unat x"
proof -
  have "NOT x = - 1 - x"
    by (simp add: not_eq_complement)
  then show ?thesis
    using unat_sub [of x "- 1"] by (simp add: unsigned_minus_1_eq_mask mask_eq_exp_minus_1)
qed

end
