(* ===== verification/Utils.thy ===== *)
theory Utils
  imports Prelude
begin

text \<open>
  The package \<open>utils\<close> (\<open>pkg/utils/utils.go\<close>): \<open>Max\<close>, the byte-order conversions and the Internet
  checksum. The checksum is shown to be the one's complement sum of RFC 1071, to verify what it
  protects, and to detect the change of a single 16-bit word.
\<close>

section \<open>Byte order\<close>

definition Max16 :: "u16 \<Rightarrow> u16 \<Rightarrow> u16" where
  "Max16 a b = (if a > b then a else b)"

definition Hton16 :: "u16 \<Rightarrow> bytes" where
  "Hton16 v = [ucast (drop_bit 8 v), ucast v]"

definition Ntoh16 :: "bytes \<Rightarrow> error + u16" where
  "Ntoh16 b =
     (if length b < 2 then Inl Panic
      else Inr (push_bit 8 (ucast (b ! 1)) OR ucast (b ! 0)))"

definition Hton32 :: "u32 \<Rightarrow> bytes" where
  "Hton32 v = [ucast (drop_bit 24 v), ucast (drop_bit 16 v), ucast (drop_bit 8 v), ucast v]"

definition Ntoh32 :: "u32 \<Rightarrow> u32" where
  "Ntoh32 v =
     push_bit 24 (v AND 0xff) OR push_bit 8 (v AND 0xff00)
       OR drop_bit 8 (v AND 0xff0000) OR drop_bit 24 v"

lemma Hton16_be16: "Hton16 v = be16 v"
  by (simp add: Hton16_def be16_def hi8_def lo8_def)

lemma length_Hton16 [simp]: "length (Hton16 v) = 2"
  by (simp add: Hton16_def)

section \<open>The Internet checksum\<close>

text \<open>The loop that adds the 16-bit words; \<open>CheckSum\<close> pads an odd length first, so the last
  equation is never reached from there.\<close>

fun cksum_loop :: "u32 \<Rightarrow> bytes \<Rightarrow> u32" where
  "cksum_loop ret (a # b # bs) = cksum_loop (ret + (push_bit 8 (ucast a) OR ucast b)) bs"
| "cksum_loop ret _ = ret"

text \<open>The loop that folds the carries. It stops because a fold makes the number smaller.\<close>

lemma unat_shift16: "unat (drop_bit 16 r :: u32) = unat r div 65536"
proof -
  have "unat (drop_bit 16 r) = drop_bit 16 (unat r)" by (rule unat_drop_bit_eq)
  then show ?thesis by (simp only: drop_bit_eq_div) simp
qed

lemma unat_fold_step:
  "unat ((r AND 0xffff) + drop_bit 16 r :: u32) = unat r mod 65536 + unat r div 65536"
proof -
  have mask: "(0xffff :: u32) = mask 16"
    by (simp add: mask_numeral)
  have lo: "unat (r AND 0xffff) = unat r mod 65536"
  proof -
    have "unat (r AND 0xffff) = take_bit 16 (unat r)"
      by (simp only: mask flip: take_bit_eq_mask) (simp add: unsigned_take_bit_eq)
    then show ?thesis by (simp only: take_bit_eq_mod) simp
  qed
  have hi: "unat (drop_bit 16 r) = unat r div 65536"
    by (rule unat_shift16)
  have "unat r mod 65536 + unat r div 65536 < 2 ^ LENGTH(32)"
  proof -
    have "unat r mod 65536 < 65536" by simp
    moreover have "unat r div 65536 < 65536"
      using unat_u32_less [of r] by (simp add: less_mult_imp_div_less)
    ultimately show ?thesis by simp
  qed
  with lo hi show ?thesis
    by (simp add: unat_word_ariths)
qed

lemma fold_goes_on_iff: "drop_bit 16 r > (0 :: u32) \<longleftrightarrow> 65536 \<le> unat r"
  by (simp only: word_less_nat_alt unat_shift16 unat_0 div_greater_zero_iff) simp

function cksum_fold :: "u32 \<Rightarrow> u32" where
  "cksum_fold r =
     (if drop_bit 16 r > 0 then cksum_fold ((r AND 0xffff) + drop_bit 16 r) else r)"
  by pat_completeness auto
termination
proof (relation "measure unat")
  fix r :: u32
  assume "drop_bit 16 r > 0"
  then have "65536 \<le> unat r" by (simp add: fold_goes_on_iff)
  then have "unat r mod 65536 + unat r div 65536 < unat r"
    using div_mult_mod_eq [of "unat r" 65536] div_greater_zero_iff [of "unat r" 65536]
    by linarith
  then show "((r AND 0xffff) + drop_bit 16 r, r) \<in> measure unat"
    by (simp only: in_measure unat_fold_step)
qed simp

declare cksum_fold.simps [simp del]

definition CheckSum :: "bytes \<Rightarrow> u32 \<Rightarrow> u16" where
  "CheckSum b base =
     (let b' = (if odd (length b) then b @ [0] else b)
      in NOT (ucast (cksum_fold (cksum_loop base b'))))"

section \<open>The checksum as arithmetic\<close>

text \<open>The sum of the big-endian 16-bit words of a byte string, an odd last byte being the high
  byte of a word whose low byte is 0.\<close>

fun sum16 :: "bytes \<Rightarrow> nat" where
  "sum16 (a # b # bs) = 256 * unat a + unat b + sum16 bs"
| "sum16 [a] = 256 * unat a"
| "sum16 [] = 0"

text \<open>One's complement folding of a sum: the representative in \<open>1..65535\<close> of a positive number
  modulo \<open>65535\<close>, and \<open>0\<close> for \<open>0\<close>.\<close>

definition fold1c :: "nat \<Rightarrow> nat" where
  "fold1c n = (if n = 0 then 0 else (n - 1) mod 65535 + 1)"

lemma fold1c_le: "fold1c n \<le> 65535"
proof -
  have "(n - 1) mod 65535 < 65535" by simp
  then show ?thesis by (simp only: fold1c_def split: if_split) linarith
qed

lemma fold1c_alt:
  "fold1c n = (if n = 0 then 0 else if n mod 65535 = 0 then 65535 else n mod 65535)"
  by (cases n) (simp_all add: fold1c_def mod_Suc)

lemma fold1c_eq_0_iff [simp]: "fold1c n = 0 \<longleftrightarrow> n = 0"
  by (simp add: fold1c_def)

lemma fold1c_mod: "fold1c n mod 65535 = n mod 65535"
  by (simp add: fold1c_alt)

lemma fold1c_cong:
  "m mod 65535 = n mod 65535 \<Longrightarrow> (m = 0 \<longleftrightarrow> n = 0) \<Longrightarrow> fold1c m = fold1c n"
  by (simp add: fold1c_alt)

lemma fold1c_add: "fold1c (fold1c a + b) = fold1c (a + b)"
proof (rule fold1c_cong)
  show "(fold1c a + b) mod 65535 = (a + b) mod 65535"
    by (rule mod_add_cong [OF fold1c_mod refl])
qed simp

lemma fold1c_eq_max_iff: "fold1c n = 65535 \<longleftrightarrow> 0 < n \<and> n mod 65535 = 0"
proof -
  have "n mod 65535 < 65535" by simp
  then show ?thesis by (simp only: fold1c_alt split: if_split) auto
qed

lemma fold1c_complement: "fold1c (n + (65535 - fold1c n)) = 65535"
proof -
  have "(n + (65535 - fold1c n)) mod 65535 = (fold1c n + (65535 - fold1c n)) mod 65535"
    by (rule mod_add_cong) (simp_all add: fold1c_mod)
  then have "(n + (65535 - fold1c n)) mod 65535 = 0"
    using fold1c_le [of n] by simp
  moreover have "0 < n + (65535 - fold1c n)"
    by (cases n) (simp_all add: fold1c_def)
  ultimately show ?thesis by (simp add: fold1c_eq_max_iff)
qed

lemma fold1c_small: "n < 65536 \<Longrightarrow> fold1c n = n"
  by (auto simp: fold1c_def)

lemma fold1c_step: "65536 \<le> n \<Longrightarrow> fold1c (n mod 65536 + n div 65536) = fold1c n"
proof -
  assume big: "65536 \<le> n"
  define q where "q = n div 65536"
  define m where "m = n mod 65536"
  have n: "n = 65536 * q + m" and q: "0 < q"
    using big by (simp_all add: q_def m_def div_greater_zero_iff)
  have "n - 1 = 65535 * q + (m + q - 1)" using n q by simp
  then have "(n - 1) mod 65535 = (m + q - 1) mod 65535" by simp
  then show ?thesis
    using q big by (simp add: fold1c_def q_def [symmetric] m_def [symmetric])
qed

lemma unat_cksum_fold: "unat (cksum_fold r) = fold1c (unat r)"
proof (induction r rule: cksum_fold.induct)
  case (1 r)
  show ?case
  proof (cases "drop_bit 16 r > 0")
    case True
    with 1 show ?thesis
      by (simp add: cksum_fold.simps [of r] unat_fold_step fold1c_step fold_goes_on_iff)
  next
    case False
    then show ?thesis
      by (simp add: cksum_fold.simps [of r] fold_goes_on_iff fold1c_small)
  qed
qed

lemma unat_cksum_loop:
  "even (length b) \<Longrightarrow> unat (cksum_loop ret b) = (unat ret + sum16 b) mod 4294967296"
proof (induction ret b rule: cksum_loop.induct)
  case (1 ret a b bs)
  then have "unat (cksum_loop ret (a # b # bs))
      = ((unat ret + (256 * unat a + unat b)) mod 4294967296 + sum16 bs) mod 4294967296"
    by (simp add: unat_word_ariths unat_push_or)
  then show ?case by (simp add: mod_simps algebra_simps)
qed (simp_all add: mod_less)

lemma sum16_append:
  "even (length xs) \<Longrightarrow> sum16 (xs @ ys) = sum16 xs + sum16 ys"
  by (induction xs rule: sum16.induct) simp_all

lemma sum16_pad: "odd (length xs) \<Longrightarrow> sum16 (xs @ [0]) = sum16 xs"
  by (induction xs rule: sum16.induct) simp_all

lemma sum16_le: "2 * sum16 bs \<le> 65535 * (length bs + 1)"
proof (induction bs rule: sum16.induct)
  case (1 a b bs)
  have "unat a \<le> 255" "unat b \<le> 255"
    using unat_byte_less [of a] unat_byte_less [of b] by linarith+
  with 1 show ?case by simp
next
  case (2 a)
  have "unat a \<le> 255" using unat_byte_less [of a] by linarith
  then show ?case by simp
qed simp

lemma sum16_be16 [simp]: "sum16 (be16 v) = unat v"
  using unat_join16 [of "hi8 v" "lo8 v"] by (simp add: be16_def)

text \<open>No carry out of 32 bits is lost on a packet of at most 65536 bytes (plus a 16-bit base).\<close>

lemma unat_CheckSum:
  assumes "length b \<le> 65536" "unat base \<le> 65535"
  shows "unat (CheckSum b base) = 65535 - fold1c (unat base + sum16 b)"
proof -
  define b' where "b' = (if odd (length b) then b @ [0] else b)"
  have ev: "even (length b')" and s: "sum16 b' = sum16 b"
    by (simp_all add: b'_def sum16_pad)
  have "unat base + sum16 b < 4294967296"
    using sum16_le [of b] assms by simp
  then have "unat (cksum_fold (cksum_loop base b')) = fold1c (unat base + sum16 b)"
    by (simp add: unat_cksum_fold unat_cksum_loop [OF ev] s)
  moreover from this have "unat (ucast (cksum_fold (cksum_loop base b')) :: u16)
      = fold1c (unat base + sum16 b)"
    using fold1c_le [of "unat base + sum16 b"]
    by (simp add: unsigned_ucast_eq take_bit_eq_mod)
  ultimately show ?thesis
    by (simp add: CheckSum_def b'_def [symmetric] unat_NOT_u16)
qed

lemma CheckSum_eq_0_iff:
  assumes "length b \<le> 65536" "unat base \<le> 65535"
  shows "CheckSum b base = 0 \<longleftrightarrow> fold1c (unat base + sum16 b) = 65535"
  using unat_CheckSum [OF assms] fold1c_le [of "unat base + sum16 b"]
  by (metis diff_is_0_eq' diff_self_eq_0 le_antisym unat_0 unat_eq_zero diff_is_0_eq)

text \<open>Summing a buffer in two parts, the way the transport protocols add their pseudo header.\<close>

lemma CheckSum_chain:
  assumes "even (length p)" "length p \<le> 65536" "length (p @ d) \<le> 65536"
  shows "CheckSum d (ucast (NOT (CheckSum p 0))) = CheckSum (p @ d) 0"
proof -
  have base: "unat (ucast (NOT (CheckSum p 0)) :: u32) = fold1c (sum16 p)"
    using unat_CheckSum [of p 0] assms fold1c_le [of "sum16 p"]
    by (simp add: unsigned_ucast_eq unat_NOT_u16 take_bit_nat_eq_self)
  have "unat (CheckSum d (ucast (NOT (CheckSum p 0)))) = unat (CheckSum (p @ d) 0)"
    using unat_CheckSum [of d "ucast (NOT (CheckSum p 0))"] unat_CheckSum [of "p @ d" 0]
      assms fold1c_le [of "sum16 p"]
    by (simp add: base sum16_append fold1c_add)
  then show ?thesis by (simp only: word_unat_eq_iff)
qed

lemma stored_checksum_verifies:
  assumes "even (length p)" "length (p @ [0, 0] @ s) \<le> 65536"
  shows "CheckSum (p @ Hton16 (CheckSum (p @ [0, 0] @ s) 0) @ s) 0 = 0"
proof -
  define n where "n = sum16 (p @ [0, 0] @ s)"
  define c where "c = CheckSum (p @ [0, 0] @ s) 0"
  have c: "unat c = 65535 - fold1c n"
    using unat_CheckSum [of "p @ [0, 0] @ s" 0] assms by (simp add: n_def c_def)
  have "sum16 (p @ Hton16 c @ s) = n + unat c"
    using assms by (simp add: sum16_append n_def Hton16_be16)
  then have "fold1c (sum16 (p @ Hton16 c @ s)) = 65535"
    by (simp add: c fold1c_complement)
  then show ?thesis
    using assms by (simp add: CheckSum_eq_0_iff c_def)
qed

section \<open>Properties\<close>

text \<open>C25. \<open>CheckSum\<close> is the RFC 1071 checksum its comment promises: on any packet of at most 65536
  bytes and any 16-bit base, with the pad byte of an odd length, it is the complement of the one's
  complement sum of the 16-bit words; no carry is lost.\<close>

theorem CheckSum_ones_complement:
  assumes "length b \<le> 65536" "unat base \<le> 65535"
  shows "unat (CheckSum b base) = 65535 - fold1c (unat base + sum16 b)"
  using assms by (rule unat_CheckSum)

theorem CheckSum_ones_complement_witness:
  "CheckSum [0x99, 0x01, 0x11, 0x98, 0x00] 0 = 0x5566"
proof -
  have "unat (CheckSum [0x99, 0x01, 0x11, 0x98, 0x00] 0) = unat (0x5566 :: u16)"
    using CheckSum_ones_complement [of "[0x99, 0x01, 0x11, 0x98, 0x00]" 0]
    by (simp add: fold1c_def)
  then show ?thesis by (simp only: word_unat_eq_iff)
qed

text \<open>A checksum that is computed over a packet whose checksum field is zero and stored in that
  field makes the checksum of the whole packet 0, which is what every receiver tests.\<close>

theorem CheckSum_store_verifies:
  assumes "even (length p)" "length (p @ [0, 0] @ s) \<le> 65536"
  shows "CheckSum (p @ Hton16 (CheckSum (p @ [0, 0] @ s) 0) @ s) 0 = 0"
  using assms by (rule stored_checksum_verifies)

theorem CheckSum_store_verifies_witness:
  "CheckSum ([0x99, 0x01, 0x11, 0x98] @ Hton16 (CheckSum ([0x99, 0x01, 0x11, 0x98] @ [0, 0] @ []) 0) @ []) 0 = 0"
  by (rule CheckSum_store_verifies) simp_all

text \<open>C26. The checksum detects every change of one aligned 16-bit word of a packet, the exchange of
  \<open>0x0000\<close> and \<open>0xffff\<close> excepted: when both versions verify, the words are equal or are those two.\<close>

theorem CheckSum_detects_word:
  assumes "even (length p)" "length (p @ be16 v @ s) \<le> 65536"
    and "CheckSum (p @ be16 v @ s) 0 = 0" "CheckSum (p @ be16 w @ s) 0 = 0"
  shows "v = w \<or> {v, w} = {0, 0xffff}"
proof -
  define k where "k = sum16 p + sum16 s"
  have sum: "sum16 (p @ be16 x @ s) = k + unat x" for x
    using assms(1) by (simp add: sum16_append k_def)
  have "(k + unat v) mod 65535 = 0" "(k + unat w) mod 65535 = 0"
    using assms by (simp_all add: CheckSum_eq_0_iff sum fold1c_eq_max_iff)
  then obtain a b where a: "k + unat v = 65535 * a" and b: "k + unat w = 65535 * b"
    by (auto elim!: dvdE simp flip: dvd_eq_mod_eq_0)
  have le: "unat v \<le> 65535" "unat w \<le> 65535"
    using unat_u16_less [of v] unat_u16_less [of w] by linarith+
  have nums: "unat (0xffff :: u16) = 65535" by simp
  consider "a = b" | "b + 1 \<le> a" | "a + 1 \<le> b" by linarith
  then have "unat v = unat w \<or> unat v = 65535 \<and> unat w = 0 \<or> unat v = 0 \<and> unat w = 65535"
    using a b le by cases linarith+
  then show ?thesis
    unfolding nums [symmetric] by (auto simp only: word_unat_eq_iff unat_0 insert_commute)
qed

theorem CheckSum_detects_word_witness:
  "CheckSum ([0x99, 0x01] @ be16 0x1198 @ [0x55, 0x66]) 0 = 0 \<and>
   CheckSum ([0x99, 0x01] @ be16 0x1199 @ [0x55, 0x66]) 0 \<noteq> 0"
proof -
  have ok: "CheckSum ([0x99, 0x01] @ be16 0x1198 @ [0x55, 0x66]) 0 = 0"
    by (simp add: CheckSum_eq_0_iff sum16_append fold1c_def)
  moreover have "CheckSum ([0x99, 0x01] @ be16 0x1199 @ [0x55, 0x66]) 0 \<noteq> 0"
    using CheckSum_detects_word [where w = "0x1199", OF _ _ ok]
    by (auto simp: doubleton_eq_iff)
  ultimately show ?thesis by blast
qed

end
