(* ===== verification/Net.thy ===== *)
theory Net
  imports Utils
begin

text \<open>
  The package \<open>net\<close> (\<open>pkg/net\<close>): devices, interfaces and protocols, the registries that hold them,
  and the hand-over of received data from a device to a protocol. The package's interface types
  \<open>Device\<close>, \<open>Interface\<close> and \<open>Proto\<close> are closed here over their implementers: the three devices of
  \<open>pkg/device\<close>, \<open>*ip.Iface\<close>, and the two protocols \<open>*ip.IProto\<close> and \<open>*arp.Proto\<close>.
  A pointer to a device or to an interface is its index in a store of the state, so that aliasing
  is kept: a device and a route that hold the same \<open>*ip.Iface\<close> hold the same index.
\<close>

section \<open>Data\<close>

text \<open>Device types and flags (\<open>devices.go\<close>).\<close>

definition DeviceTypeNull :: u16 where "DeviceTypeNull = 0x0000"
definition DeviceTypeLoopback :: u16 where "DeviceTypeLoopback = 0x0001"
definition DeviceTypeEther :: u16 where "DeviceTypeEther = 0x0002"

definition DeviceFlagUp :: u16 where "DeviceFlagUp = 0x0001"
definition DeviceFlagLoopback :: u16 where "DeviceFlagLoopback = 0x0010"
definition DeviceFlagBroadcast :: u16 where "DeviceFlagBroadcast = 0x0020"
definition DeviceFlagP2P :: u16 where "DeviceFlagP2P = 0x0040"
definition DeviceFlagNeedARP :: u16 where "DeviceFlagNeedARP = 0x0100"

lemmas device_consts =
  DeviceTypeNull_def DeviceTypeLoopback_def DeviceTypeEther_def DeviceFlagUp_def
  DeviceFlagLoopback_def DeviceFlagBroadcast_def DeviceFlagP2P_def DeviceFlagNeedARP_def

text \<open>Protocol types (\<open>protocol.go\<close>) and interface families (\<open>interface.go\<close>).\<close>

definition ProtoTypeIP :: u16 where "ProtoTypeIP = 0x0800"
definition ProtoTypeArp :: u16 where "ProtoTypeArp = 0x0806"
definition ProtoTypeIPv6 :: u16 where "ProtoTypeIPv6 = 0x86dd"

definition ProtoType_String :: "u16 \<Rightarrow> string" where
  "ProtoType_String pt =
     (if pt = ProtoTypeIP then ''IPv4''
      else if pt = ProtoTypeArp then ''ARP''
      else if pt = ProtoTypeIPv6 then ''IPv6''
      else ''UNKNOWN'')"

definition IfaceFamilyIP :: u8 where "IfaceFamilyIP = 1"
definition IfaceFamilyIPv6 :: u8 where "IfaceFamilyIPv6 = 2"

definition IfaceFamily_String :: "u8 \<Rightarrow> string" where
  "IfaceFamily_String f =
     (if f = IfaceFamilyIP then ''IPv4''
      else if f = IfaceFamilyIPv6 then ''IPv6''
      else ''UNKNOWN'')"

text \<open>An Ethernet address is an array of six bytes (\<open>device/ethernet_address.go\<close>).
  \<open>HardwareAddr\<close> has this one implementer, so a value of the interface is \<open>ether_addr option\<close>,
  \<open>None\<close> being \<open>nil\<close>.\<close>

datatype ether_addr = EtherAddr byte byte byte byte byte byte

text \<open>The tap device's file: whether it was closed, whether the operating system refuses a write at
  the moment, and the frames written so far.\<close>

record dev_file =
  f_closed :: bool
  f_fails :: bool
  f_out :: "bytes list"

text \<open>The structs \<open>Null\<close>, \<open>Loopback\<close> and \<open>Ether\<close> of \<open>pkg/device\<close>. The last field of an Ethernet
  device is the buffer its receive handler allocates once and reads every frame into.\<close>

record null_dev =
  null_name :: string
  null_flags :: u16

record loop_dev =
  loop_name :: string
  loop_flags :: u16

record ether_dev =
  e_name :: string
  e_flags :: u16
  e_interfaces :: "nat list"
  e_addr :: ether_addr
  e_file :: dev_file
  e_rxbuf :: bytes

datatype device = Null null_dev | Loopback loop_dev | Ether ether_dev

text \<open>\<open>*ip.Iface\<close> (\<open>pkg/ip/interface.go\<close>); its device is \<open>nil\<close> until \<open>SetDev\<close>.\<close>

record iface =
  if_dev :: "nat option"
  if_unicast :: u32
  if_netmask :: u32
  if_broadcast :: u32

definition iface_Dev :: "iface \<Rightarrow> nat option" where [simp]: "iface_Dev i = if_dev i"

definition iface_SetDev :: "nat \<Rightarrow> iface \<Rightarrow> iface" where
  [simp]: "iface_SetDev d i = i\<lparr>if_dev := Some d\<rparr>"

definition iface_Family :: "iface \<Rightarrow> u8" where
  "iface_Family i = IfaceFamilyIP"

datatype proto = IProto | ArpProto

fun proto_Type :: "proto \<Rightarrow> u16" where
  "proto_Type IProto = ProtoTypeIP"
| "proto_Type ArpProto = ProtoTypeArp"

text \<open>A byte slice that a device passes on: freshly allocated bytes, or \<open>n\<close> bytes at an offset of
  the receive buffer of device \<open>d\<close>, which the next frame overwrites.\<close>

datatype slice = Heap bytes | RxBuf nat nat nat

record proto_buffer =
  pb_data :: slice
  pb_dev :: nat

text \<open>The package's variables \<open>devices\<close>, \<open>interfaces\<close>, \<open>protos\<close> and \<open>protoBuffers\<close>, the store of the
  interfaces' structs, and the clock \<open>time.Now\<close> reads (nanoseconds since Go's zero time).\<close>

record net_state =
  devices :: "device list"
  interfaces :: "nat list"
  ifaces :: "iface list"
  protos :: "proto list"
  protoBuffers :: "proto_buffer list list"
  now :: int

definition ProtoBufferSize :: nat where "ProtoBufferSize = 100"

fun slice_bytes :: "'a net_state_scheme \<Rightarrow> slice \<Rightarrow> bytes" where
  "slice_bytes st (Heap bs) = bs"
| "slice_bytes st (RxBuf d off n) =
     (case devices st ! d of Ether e \<Rightarrow> take n (drop off (e_rxbuf e)) | _ \<Rightarrow> [])"

text \<open>\<open>s[k:]\<close> of a slice \<open>s\<close> with at least \<open>k\<close> bytes.\<close>

fun slice_from :: "nat \<Rightarrow> slice \<Rightarrow> slice" where
  "slice_from k (Heap bs) = Heap (drop k bs)"
| "slice_from k (RxBuf d off n) = RxBuf d (off + k) (n - k)"

lemma slice_bytes_from: "slice_bytes st (slice_from k s) = drop k (slice_bytes st s)"
  by (cases s) (auto split: device.splits simp: drop_take add.commute)

section \<open>Methods of the devices\<close>

definition EtherAddrLen :: nat where "EtherAddrLen = 6"
definition EtherHeaderSize :: nat where "EtherHeaderSize = 14"
definition EtherFrameSizeMin :: nat where "EtherFrameSizeMin = 60"
definition EtherFrameSizeMax :: nat where "EtherFrameSizeMax = 1514"
definition EtherPayloadSizeMin :: nat where
  "EtherPayloadSizeMin = EtherFrameSizeMin - EtherHeaderSize"
definition EtherPayloadSizeMax :: nat where
  "EtherPayloadSizeMax = EtherFrameSizeMax - EtherHeaderSize"

lemmas ether_consts =
  EtherAddrLen_def EtherHeaderSize_def EtherFrameSizeMax_def EtherPayloadSizeMax_def

text \<open>The operations of the operating system on the tap device's file that the devices use.\<close>

definition file_Close :: "dev_file \<Rightarrow> error option \<times> dev_file" where
  "file_Close f =
     (if f_closed f then (Some (Err ''file already closed''), f)
      else (None, f\<lparr>f_closed := True\<rparr>))"

definition file_Write :: "bytes \<Rightarrow> dev_file \<Rightarrow> error option \<times> dev_file" where
  "file_Write bs f =
     (if f_closed f then (Some (Err ''file already closed''), f)
      else if f_fails f then (Some (Err ''write error''), f)
      else (None, f\<lparr>f_out := f_out f @ [bs]\<rparr>))"

text \<open>\<open>*Null\<close>.\<close>

definition null_Name :: "null_dev \<Rightarrow> string" where [simp]: "null_Name n = null_name n"
definition null_Type :: "null_dev \<Rightarrow> u16" where [simp]: "null_Type n = DeviceTypeNull"
definition null_MTU :: "null_dev \<Rightarrow> u16" where [simp]: "null_MTU n = 0xffff"
definition null_Flags :: "null_dev \<Rightarrow> u16" where [simp]: "null_Flags n = null_flags n"
definition null_Addr :: "null_dev \<Rightarrow> ether_addr option" where [simp]: "null_Addr n = None"
definition null_AddIface :: "nat \<Rightarrow> null_dev \<Rightarrow> null_dev" where [simp]: "null_AddIface i n = n"
definition null_Interfaces :: "null_dev \<Rightarrow> nat list" where [simp]: "null_Interfaces n = []"
definition null_Close :: "null_dev \<Rightarrow> error option \<times> null_dev" where [simp]: "null_Close n = (None, n)"

text \<open>\<open>*Loopback\<close>.\<close>

definition loopback_Name :: "loop_dev \<Rightarrow> string" where [simp]: "loopback_Name l = loop_name l"
definition loopback_Type :: "loop_dev \<Rightarrow> u16" where [simp]: "loopback_Type l = DeviceTypeLoopback"
definition loopback_MTU :: "loop_dev \<Rightarrow> u16" where [simp]: "loopback_MTU l = 0xffff"
definition loopback_Flags :: "loop_dev \<Rightarrow> u16" where [simp]: "loopback_Flags l = loop_flags l"
definition loopback_Addr :: "loop_dev \<Rightarrow> ether_addr option" where [simp]: "loopback_Addr l = None"
definition loopback_AddIface :: "nat \<Rightarrow> loop_dev \<Rightarrow> loop_dev" where [simp]: "loopback_AddIface i l = l"
definition loopback_Interfaces :: "loop_dev \<Rightarrow> nat list" where [simp]: "loopback_Interfaces l = []"
definition loopback_Close :: "loop_dev \<Rightarrow> error option \<times> loop_dev" where [simp]: "loopback_Close l = (None, l)"

text \<open>\<open>*Ether\<close>.\<close>

definition etherdev_Name :: "ether_dev \<Rightarrow> string" where [simp]: "etherdev_Name e = e_name e"
definition etherdev_Type :: "ether_dev \<Rightarrow> u16" where [simp]: "etherdev_Type e = DeviceTypeEther"
definition etherdev_MTU :: "ether_dev \<Rightarrow> u16" where [simp]: "etherdev_MTU e = of_nat EtherPayloadSizeMax"
definition etherdev_Flags :: "ether_dev \<Rightarrow> u16" where [simp]: "etherdev_Flags e = e_flags e"
definition etherdev_Addr :: "ether_dev \<Rightarrow> ether_addr option" where [simp]: "etherdev_Addr e = Some (e_addr e)"
definition etherdev_AddIface :: "nat \<Rightarrow> ether_dev \<Rightarrow> ether_dev" where
  [simp]: "etherdev_AddIface i e = e\<lparr>e_interfaces := e_interfaces e @ [i]\<rparr>"
definition etherdev_Interfaces :: "ether_dev \<Rightarrow> nat list" where [simp]: "etherdev_Interfaces e = e_interfaces e"
definition etherdev_Close :: "ether_dev \<Rightarrow> error option \<times> ether_dev" where
  [simp]: "etherdev_Close e = (case file_Close (e_file e) of (err, f) \<Rightarrow> (err, e\<lparr>e_file := f\<rparr>))"

text \<open>A call through the interface \<open>Device\<close> goes to the method of the value's type.\<close>

fun dev_Name :: "device \<Rightarrow> string" where
  "dev_Name (Null n) = null_Name n"
| "dev_Name (Loopback l) = loopback_Name l"
| "dev_Name (Ether e) = etherdev_Name e"

fun dev_Type :: "device \<Rightarrow> u16" where
  "dev_Type (Null n) = null_Type n"
| "dev_Type (Loopback l) = loopback_Type l"
| "dev_Type (Ether e) = etherdev_Type e"

fun dev_MTU :: "device \<Rightarrow> u16" where
  "dev_MTU (Null n) = null_MTU n"
| "dev_MTU (Loopback l) = loopback_MTU l"
| "dev_MTU (Ether e) = etherdev_MTU e"

fun dev_Flags :: "device \<Rightarrow> u16" where
  "dev_Flags (Null n) = null_Flags n"
| "dev_Flags (Loopback l) = loopback_Flags l"
| "dev_Flags (Ether e) = etherdev_Flags e"

fun dev_Addr :: "device \<Rightarrow> ether_addr option" where
  "dev_Addr (Null n) = null_Addr n"
| "dev_Addr (Loopback l) = loopback_Addr l"
| "dev_Addr (Ether e) = etherdev_Addr e"

fun dev_AddIface :: "nat \<Rightarrow> device \<Rightarrow> device" where
  "dev_AddIface i (Null n) = Null (null_AddIface i n)"
| "dev_AddIface i (Loopback l) = Loopback (loopback_AddIface i l)"
| "dev_AddIface i (Ether e) = Ether (etherdev_AddIface i e)"

fun dev_Interfaces :: "device \<Rightarrow> nat list" where
  "dev_Interfaces (Null n) = null_Interfaces n"
| "dev_Interfaces (Loopback l) = loopback_Interfaces l"
| "dev_Interfaces (Ether e) = etherdev_Interfaces e"

fun dev_Close :: "device \<Rightarrow> error option \<times> device" where
  "dev_Close (Null n) = (case null_Close n of (err, n2) \<Rightarrow> (err, Null n2))"
| "dev_Close (Loopback l) = (case loopback_Close l of (err, l2) \<Rightarrow> (err, Loopback l2))"
| "dev_Close (Ether e) = (case etherdev_Close e of (err, e2) \<Rightarrow> (err, Ether e2))"

section \<open>Registries\<close>

definition isUp :: "device \<Rightarrow> bool" where
  "isUp d = (dev_Flags d AND DeviceFlagUp > 0)"

text \<open>Registering a device returns the new pointer with the state.\<close>

definition DeviceRegister :: "device \<Rightarrow> 'a net_state_scheme \<Rightarrow> nat \<times> 'a net_state_scheme" where
  "DeviceRegister dev st = (length (devices st), st\<lparr>devices := devices st @ [dev]\<rparr>)"

definition net_ProtoRegister :: "proto \<Rightarrow> 'a net_state_scheme \<Rightarrow> 'a net_state_scheme" where
  "net_ProtoRegister p st =
     st\<lparr>protos := protos st @ [p], protoBuffers := protoBuffers st @ [[]]\<rparr>"

definition net_IfaceRegister ::
    "nat \<Rightarrow> nat \<Rightarrow> 'a net_state_scheme \<Rightarrow> error option \<times> 'a net_state_scheme" where
  "net_IfaceRegister d i st =
     (if \<exists>j \<in> set (dev_Interfaces (devices st ! d)).
           iface_Family (ifaces st ! j) = iface_Family (ifaces st ! i)
      then (Some (Err ''the same family interface is already registered to the device''), st)
      else (None, st\<lparr>
        devices := (devices st)[d := dev_AddIface i (devices st ! d)],
        ifaces := (ifaces st)[i := iface_SetDev d (ifaces st ! i)],
        interfaces := interfaces st @ [i]\<rparr>))"

definition GetIface :: "'a net_state_scheme \<Rightarrow> nat \<Rightarrow> u8 \<Rightarrow> error + nat" where
  "GetIface st d family =
     (case find (\<lambda>j. iface_Family (ifaces st ! j) = family) (dev_Interfaces (devices st ! d)) of
        Some j \<Rightarrow> Inr j
      | None \<Rightarrow> Inl (Err ''interface not found in device''))"

text \<open>\<open>DeviceInputHanlder\<close>: the data goes to the channel of the first protocol of its type; other
  data is dropped. The send blocks when the channel holds \<open>ProtoBufferSize\<close> entries.\<close>

fun proto_index :: "u16 \<Rightarrow> proto list \<Rightarrow> nat option" where
  "proto_index typ [] = None"
| "proto_index typ (p # ps) =
     (if proto_Type p = typ then Some 0 else map_option Suc (proto_index typ ps))"

definition DeviceInputHandler ::
    "u16 \<Rightarrow> slice \<Rightarrow> nat \<Rightarrow> 'a net_state_scheme \<Rightarrow> error option \<times> 'a net_state_scheme" where
  "DeviceInputHandler typ data dev st =
     (case proto_index typ (protos st) of
        None \<Rightarrow> (None, st)
      | Some i \<Rightarrow>
          if length (protoBuffers st ! i) < ProtoBufferSize
          then (None, st\<lparr>protoBuffers :=
                  (protoBuffers st)[i := protoBuffers st ! i @ [\<lparr>pb_data = data, pb_dev = dev\<rparr>]]\<rparr>)
          else (Some Blocked, st))"

lemma proto_index_Some:
  "proto_index typ ps = Some i \<Longrightarrow> i < length ps \<and> proto_Type (ps ! i) = typ \<and>
     (\<forall>j < i. proto_Type (ps ! j) \<noteq> typ)"
proof (induction ps arbitrary: i)
  case (Cons p ps)
  show ?case
  proof (cases "proto_Type p = typ")
    case False
    with Cons.prems obtain k where k: "proto_index typ ps = Some k" "i = Suc k" by auto
    with Cons.IH [OF k(1)] False show ?thesis by (auto simp: nth_Cons less_Suc_eq_0_disj)
  qed (use Cons.prems in auto)
qed simp

lemma proto_index_None: "proto_index typ ps = None \<longleftrightarrow> (\<forall>p \<in> set ps. proto_Type p \<noteq> typ)"
  by (induction ps) auto

section \<open>What the layers above may rely on\<close>

text \<open>Input and output change the files, the receive buffers and the protocol buffers; what a device
  is, its interfaces, and every registry stay. \<open>net_kept st st'\<close> says so of a pair of states.\<close>

fun dev_kept :: "device \<Rightarrow> device \<Rightarrow> bool" where
  "dev_kept (Null a) (Null b) = (a = b)"
| "dev_kept (Loopback a) (Loopback b) = (a = b)"
| "dev_kept (Ether a) (Ether b) =
     (e_name a = e_name b \<and> e_flags a = e_flags b \<and> e_interfaces a = e_interfaces b \<and>
      e_addr a = e_addr b \<and> length (e_rxbuf a) = length (e_rxbuf b))"
| "dev_kept _ _ = False"

lemma dev_kept_refl [simp, intro]: "dev_kept d d"
  by (cases d) auto

lemma dev_kept_trans: "dev_kept a b \<Longrightarrow> dev_kept b c \<Longrightarrow> dev_kept a c"
  by (cases a; cases b; cases c) auto

lemma dev_kept_methods:
  assumes "dev_kept a b"
  shows "dev_Name b = dev_Name a" "dev_Type b = dev_Type a" "dev_MTU b = dev_MTU a"
    "dev_Flags b = dev_Flags a" "dev_Addr b = dev_Addr a" "dev_Interfaces b = dev_Interfaces a"
  using assms by (cases a; cases b; auto)+

definition net_kept :: "'a net_state_scheme \<Rightarrow> 'a net_state_scheme \<Rightarrow> bool" where
  "net_kept st st' \<longleftrightarrow>
     list_all2 dev_kept (devices st) (devices st') \<and> interfaces st' = interfaces st \<and>
     ifaces st' = ifaces st \<and> protos st' = protos st \<and>
     length (protoBuffers st') = length (protoBuffers st)"

lemma net_kept_refl [simp, intro]: "net_kept st st"
  by (simp add: net_kept_def list.rel_refl)

lemma net_kept_trans [trans]: "net_kept a b \<Longrightarrow> net_kept b c \<Longrightarrow> net_kept a c"
  by (auto simp: net_kept_def list_all2_conv_all_nth) (blast intro: dev_kept_trans)

lemma net_kept_devices:
  assumes "net_kept st st'"
  shows "length (devices st') = length (devices st)"
    and "d < length (devices st) \<Longrightarrow> dev_kept (devices st ! d) (devices st' ! d)"
  using assms by (auto simp: net_kept_def list_all2_lengthD list_all2_nthD)

lemma net_kept_set_device:
  assumes "dev_kept (devices st ! d) dv"
  shows "net_kept st (st\<lparr>devices := (devices st)[d := dv]\<rparr>)"
  using assms
  by (auto simp: net_kept_def list_all2_conv_all_nth nth_list_update_if)

lemma net_kept_set_buffers:
  "length bufs = length (protoBuffers st) \<Longrightarrow> net_kept st (st\<lparr>protoBuffers := bufs\<rparr>)"
  by (simp add: net_kept_def list.rel_refl)

lemma DeviceInputHandler_kept: "net_kept st (snd (DeviceInputHandler typ data dev st))"
  by (auto simp: DeviceInputHandler_def net_kept_set_buffers split: option.splits)

text \<open>Well-formed states: pointers are valid, every protocol has its channel, no channel holds more
  than its capacity, a device has at most one interface of a family, and the receive buffers have
  the size of a frame.\<close>

definition dev_ok :: "'a net_state_scheme \<Rightarrow> nat \<Rightarrow> bool" where
  "dev_ok st d \<longleftrightarrow>
     (\<forall>j \<in> set (dev_Interfaces (devices st ! d)).
        j < length (ifaces st) \<and> if_dev (ifaces st ! j) = Some d) \<and>
     distinct (map (\<lambda>j. iface_Family (ifaces st ! j)) (dev_Interfaces (devices st ! d))) \<and>
     (case devices st ! d of Ether e \<Rightarrow> length (e_rxbuf e) = EtherFrameSizeMax | _ \<Rightarrow> True)"

definition net_ok :: "'a net_state_scheme \<Rightarrow> bool" where
  "net_ok st \<longleftrightarrow>
     length (protoBuffers st) = length (protos st) \<and>
     (\<forall>buf \<in> set (protoBuffers st). length buf \<le> ProtoBufferSize) \<and>
     (\<forall>d < length (devices st). dev_ok st d) \<and>
     (\<forall>i \<in> set (ifaces st). \<forall>d. if_dev i = Some d \<longrightarrow> d < length (devices st))"

lemma DeviceInputHandler_net_ok:
  assumes "net_ok st"
  shows "net_ok (snd (DeviceInputHandler typ data dev st))"
proof (cases "proto_index typ (protos st)")
  case (Some i)
  then have "i < length (protoBuffers st)"
    using assms proto_index_Some [OF Some] by (simp add: net_ok_def)
  then show ?thesis
    using assms Some
    by (auto simp: DeviceInputHandler_def net_ok_def dev_ok_def dest!: set_update_subset_insert [THEN subsetD])
qed (use assms in \<open>simp add: DeviceInputHandler_def\<close>)

end
