(* ===== verification/Codec.thy ===== *)
theory Codec
  imports Prelude
begin

text \<open>
  The contract of the header codecs. Every protocol package has a pair \<open>header2data\<close> and
  \<open>data2header\<close>; its peers rely on one law: what is sent is read back, the header with the checksum
  the sender stored. The consequences are proved once here.
\<close>

locale header_codec =
  fixes header2data :: "'h \<Rightarrow> bytes \<Rightarrow> bytes"
    and data2header :: "bytes \<Rightarrow> error + 'h \<times> bytes"
    and wf :: "'h \<Rightarrow> bytes \<Rightarrow> bool"
    and stored :: "'h \<Rightarrow> bytes \<Rightarrow> 'h"
  assumes reads_back: "wf h p \<Longrightarrow> data2header (header2data h p) = Inr (stored h p, p)"
begin

lemma unambiguous:
  assumes "wf h p" "wf h' p'" "header2data h p = header2data h' p'"
  shows "stored h p = stored h' p' \<and> p = p'"
proof -
  have "Inr (stored h p, p) = (Inr (stored h' p', p') :: error + 'h \<times> bytes)"
    unfolding reads_back [OF assms(1), symmetric] reads_back [OF assms(2), symmetric]
    by (simp only: assms(3))
  then show ?thesis unfolding sum.inject prod.inject .
qed

lemma never_rejected: "wf h p \<Longrightarrow> data2header (header2data h p) \<noteq> Inl e"
  by (simp add: reads_back)

end

end
