(* ===== verification/Device.thy ===== *)
theory Device
  imports Net Codec
begin

text \<open>
  The package \<open>device\<close> (\<open>pkg/device\<close>) and the parts of \<open>pkg/net/devices.go\<close>, \<open>net.go\<close> that call it:
  Ethernet addresses and headers, the transmit handlers of the three devices, one turn of the
  Ethernet receive handler, \<open>DeviceOutput\<close>, and the closing of all devices.
\<close>

section \<open>Ethernet addresses and headers\<close>

definition EtherAddrAny :: ether_addr where "EtherAddrAny = EtherAddr 0 0 0 0 0 0"
definition EtherAddrBroadcast :: ether_addr where
  "EtherAddrBroadcast = EtherAddr 0xff 0xff 0xff 0xff 0xff 0xff"

fun ether_Addr :: "ether_addr \<Rightarrow> bytes" where
  "ether_Addr (EtherAddr a b c d e f) = [a, b, c, d, e, f]"

definition get_ether :: "bytes \<Rightarrow> nat \<Rightarrow> ether_addr" where
  "get_ether bs i =
     EtherAddr (bs ! i) (bs ! (i + 1)) (bs ! (i + 2)) (bs ! (i + 3)) (bs ! (i + 4)) (bs ! (i + 5))"

lemma length_ether_Addr [simp]: "length (ether_Addr a) = 6"
  by (cases a) simp

lemma ether_Addr_get_ether [be_simps]:
  "ether_Addr (get_ether bs i) =
     [bs ! i, bs ! (i + 1), bs ! (i + 2), bs ! (i + 3), bs ! (i + 4), bs ! (i + 5)]"
  by (simp add: get_ether_def)

record ether_header =
  eh_src :: ether_addr
  eh_dst :: ether_addr
  eh_type :: u16

definition ether_encode :: "ether_header \<Rightarrow> bytes" where
  "ether_encode h = ether_Addr (eh_src h) @ ether_Addr (eh_dst h) @ be16 (eh_type h)"

text \<open>\<open>data[:EtherHeaderSize]\<close> panics on shorter data.\<close>

definition ether_data2header :: "bytes \<Rightarrow> error + ether_header \<times> bytes" where
  "ether_data2header data =
     (if length data < EtherHeaderSize then Inl Panic
      else Inr (\<lparr>eh_src = get_ether data 0, eh_dst = get_ether data 6, eh_type = get16 data 12\<rparr>,
                drop EtherHeaderSize data))"

definition ether_header2data :: "ether_header \<Rightarrow> bytes \<Rightarrow> bytes" where
  "ether_header2data hdr payload = ether_encode hdr @ payload"

lemma length_ether_encode [simp]: "length (ether_encode h) = 14"
  by (simp add: ether_encode_def)

lemma ether_reads_back: "ether_data2header (ether_header2data h p) = Inr (h, p)"
  by (cases h; cases "eh_src h"; cases "eh_dst h")
     (simp add: ether_data2header_def ether_header2data_def ether_encode_def ether_consts
        get_ether_def be_bytes)

interpretation ether_codec: header_codec ether_header2data ether_data2header "\<lambda>h p. True" "\<lambda>h p. h"
  by unfold_locales (rule ether_reads_back)

section \<open>Initialisation\<close>

definition NullInit :: "string \<Rightarrow> 'a net_state_scheme \<Rightarrow> nat \<times> 'a net_state_scheme" where
  "NullInit name st = DeviceRegister (Null \<lparr>null_name = name, null_flags = DeviceFlagUp\<rparr>) st"

definition LoopbackInit :: "string \<Rightarrow> 'a net_state_scheme \<Rightarrow> nat \<times> 'a net_state_scheme" where
  "LoopbackInit name st =
     DeviceRegister
       (Loopback \<lparr>loop_name = name, loop_flags = DeviceFlagUp OR DeviceFlagLoopback\<rparr>) st"

text \<open>\<open>raw.OpenTap\<close> and \<open>raw.GetAddr\<close> ask the operating system; what they returned is an argument.\<close>

definition bytes_to_ether :: "bytes \<Rightarrow> ether_addr" where
  "bytes_to_ether bs = get_ether (take 6 bs @ replicate 6 0) 0"

definition EtherInit ::
    "error + string \<times> dev_file \<Rightarrow> error + bytes \<Rightarrow> 'a net_state_scheme \<Rightarrow>
     (error + nat) \<times> 'a net_state_scheme" where
  "EtherInit opened addr st =
     (case opened of
        Inl e \<Rightarrow> (Inl e, st)
      | Inr (name, file) \<Rightarrow>
          (case addr of
             Inl e \<Rightarrow> (Inl e, st)
           | Inr a \<Rightarrow>
               (case DeviceRegister (Ether \<lparr>
                    e_name = name,
                    e_flags = DeviceFlagBroadcast OR DeviceFlagNeedARP OR DeviceFlagUp,
                    e_interfaces = [],
                    e_addr = bytes_to_ether a,
                    e_file = file,
                    e_rxbuf = replicate EtherFrameSizeMax 0\<rparr>) st of
                  (d, st') \<Rightarrow> (Inr d, st'))))"

section \<open>Transmit\<close>

text \<open>\<open>TxHandler\<close> of the three devices. What goes out by the loopback device comes in again; the Ethernet
  device writes a frame to its file.\<close>

definition null_TxHandler :: "'a net_state_scheme \<Rightarrow> error option \<times> 'a net_state_scheme" where
  "null_TxHandler st = (None, st)"

definition loopback_TxHandler ::
    "bytes \<Rightarrow> u16 \<Rightarrow> nat \<Rightarrow> 'a net_state_scheme \<Rightarrow> error option \<times> 'a net_state_scheme" where
  "loopback_TxHandler data typ d st = DeviceInputHandler typ (Heap data) d st"

definition ether_TxHandler ::
    "bytes \<Rightarrow> u16 \<Rightarrow> ether_addr option \<Rightarrow> nat \<Rightarrow> ether_dev \<Rightarrow> 'a net_state_scheme \<Rightarrow>
     error option \<times> 'a net_state_scheme" where
  "ether_TxHandler data typ dst d e st =
     (case dst of
        None \<Rightarrow> (Some (Err ''ethernet device only supports ethernet address''), st)
      | Some etherDst \<Rightarrow>
          (let hdr = \<lparr>eh_src = e_addr e, eh_dst = etherDst, eh_type = typ\<rparr>;
               (err, f) = file_Write (ether_header2data hdr data) (e_file e)
           in (err, st\<lparr>devices := (devices st)[d := Ether (e\<lparr>e_file := f\<rparr>)]\<rparr>)))"

text \<open>The method by the kind of the device \<open>d\<close> points to.\<close>

definition dev_TxHandler ::
    "bytes \<Rightarrow> u16 \<Rightarrow> ether_addr option \<Rightarrow> nat \<Rightarrow> 'a net_state_scheme \<Rightarrow>
     error option \<times> 'a net_state_scheme" where
  "dev_TxHandler data typ dst d st =
     (case devices st ! d of
        Null n \<Rightarrow> null_TxHandler st
      | Loopback l \<Rightarrow> loopback_TxHandler data typ d st
      | Ether e \<Rightarrow> ether_TxHandler data typ dst d e st)"

lemmas dev_TxHandler_defs =
  dev_TxHandler_def null_TxHandler_def loopback_TxHandler_def ether_TxHandler_def

definition DeviceOutput ::
    "nat \<Rightarrow> bytes \<Rightarrow> u16 \<Rightarrow> ether_addr option \<Rightarrow> 'a net_state_scheme \<Rightarrow>
     error option \<times> 'a net_state_scheme" where
  "DeviceOutput d data typ dst st =
     (if \<not> isUp (devices st ! d) then (Some (Err ''already closed''), st)
      else if dev_MTU (devices st ! d) < of_nat (length data)
      then (Some (Err ''data size is too large''), st)
      else dev_TxHandler data typ dst d st)"

text \<open>\<open>net.Close\<close> closes the devices in order and stops at the first error.\<close>

fun net_Close_loop :: "nat list \<Rightarrow> 'a net_state_scheme \<Rightarrow> error option \<times> 'a net_state_scheme" where
  "net_Close_loop [] st = (None, st)"
| "net_Close_loop (d # ds) st =
     (if \<not> isUp (devices st ! d) then (Some (Err ''already closed''), st)
      else
        (let (err, dv) = dev_Close (devices st ! d);
             st' = st\<lparr>devices := (devices st)[d := dv]\<rparr>
         in (case err of Some e \<Rightarrow> (Some e, st') | None \<Rightarrow> net_Close_loop ds st')))"

definition net_Close :: "'a net_state_scheme \<Rightarrow> error option \<times> 'a net_state_scheme" where
  "net_Close st = net_Close_loop [0..<length (devices st)] st"

section \<open>Receive\<close>

text \<open>One turn of \<open>Ether.RxHandler\<close> after a \<open>Read\<close> of the device file that failed, or that read the
  beginning of a frame into the receive buffer. The slice passed on is a part of that buffer.\<close>

datatype read_event = ReadError | ReadFrame bytes

definition ether_Rx :: "read_event \<Rightarrow> nat \<Rightarrow> 'a net_state_scheme \<Rightarrow> error option \<times> 'a net_state_scheme" where
  "ether_Rx ev d st =
     (case devices st ! d of
        Ether e \<Rightarrow>
          (case ev of
             ReadError \<Rightarrow> (None, st)
           | ReadFrame frame \<Rightarrow>
               (let got = take (length (e_rxbuf e)) frame;
                    len = length got;
                    buf = got @ drop len (e_rxbuf e);
                    st' = st\<lparr>devices := (devices st)[d := Ether (e\<lparr>e_rxbuf := buf\<rparr>)]\<rparr>
                in if len < EtherHeaderSize then (None, st')
                   else (case ether_data2header buf of
                           Inl err \<Rightarrow> (Some err, st')
                         | Inr (hdr, payload) \<Rightarrow>
                             if eh_dst hdr \<noteq> e_addr e \<and> eh_dst hdr \<noteq> EtherAddrBroadcast
                             then (None, st')
                             else DeviceInputHandler (eh_type hdr)
                                    (RxBuf d EtherHeaderSize (len - EtherHeaderSize)) d st')))
      | _ \<Rightarrow> (None, st))"

text \<open>The receive handlers of the other two devices only sleep between their looks at \<open>done\<close>.\<close>

definition null_Rx :: "null_dev \<Rightarrow> 'a net_state_scheme \<Rightarrow> error option \<times> 'a net_state_scheme" where
  "null_Rx n st = (None, st)"

definition loopback_Rx :: "loop_dev \<Rightarrow> 'a net_state_scheme \<Rightarrow> error option \<times> 'a net_state_scheme" where
  "loopback_Rx l st = (None, st)"

definition dev_Rx :: "read_event \<Rightarrow> nat \<Rightarrow> 'a net_state_scheme \<Rightarrow> error option \<times> 'a net_state_scheme" where
  "dev_Rx ev d st =
     (case devices st ! d of
        Null n \<Rightarrow> null_Rx n st
      | Loopback l \<Rightarrow> loopback_Rx l st
      | Ether e \<Rightarrow> ether_Rx ev d st)"

lemma dev_Rx_ether: "dev_Rx ev d st = ether_Rx ev d st"
  by (simp add: dev_Rx_def null_Rx_def loopback_Rx_def ether_Rx_def split: device.split)

section \<open>What output and input keep\<close>

lemma file_Write_cases:
  obtains (ok) "file_Write bs f = (None, f\<lparr>f_out := f_out f @ [bs]\<rparr>)" "\<not> f_closed f" "\<not> f_fails f"
  | (failed) e where "file_Write bs f = (Some (Err e), f)"
  by (cases "f_closed f"; cases "f_fails f") (auto simp: file_Write_def)

lemma dev_TxHandler_kept: "net_kept st (snd (dev_TxHandler data typ dst d st))"
  by (auto simp: dev_TxHandler_defs Let_def DeviceInputHandler_kept
      intro!: net_kept_set_device split: device.splits option.splits prod.splits)

lemma DeviceOutput_kept: "net_kept st (snd (DeviceOutput d data typ dst st))"
  by (simp add: DeviceOutput_def dev_TxHandler_kept)

lemma net_ok_set_device:
  assumes "net_ok st" "dev_kept (devices st ! d) dv"
  shows "net_ok (st\<lparr>devices := (devices st)[d := dv]\<rparr>)"
proof -
  have "dev_ok (st\<lparr>devices := (devices st)[d := dv]\<rparr>) i" if "i < length (devices st)" for i
  proof (cases "i = d")
    case True
    with that assms show ?thesis
      by (cases "devices st ! d"; cases dv) (force simp: net_ok_def dev_ok_def)+
  qed (use that assms in \<open>simp add: net_ok_def dev_ok_def\<close>)
  with assms show ?thesis by (simp add: net_ok_def)
qed

lemma dev_TxHandler_net_ok:
  assumes "net_ok st"
  shows "net_ok (snd (dev_TxHandler data typ dst d st))"
  using assms
  by (auto simp: dev_TxHandler_defs Let_def DeviceInputHandler_net_ok
      intro!: net_ok_set_device split: device.splits option.splits prod.splits)

lemma DeviceOutput_net_ok: "net_ok st \<Longrightarrow> net_ok (snd (DeviceOutput d data typ dst st))"
  by (simp add: DeviceOutput_def dev_TxHandler_net_ok)

lemma ether_Rx_buffer:
  "length (take (length rx) frame @ drop (length (take (length rx) frame)) rx) = length rx"
  by simp

lemma ether_Rx_kept: "net_kept st (snd (ether_Rx ev d st))"
proof (cases "devices st ! d")
  case (Ether e)
  then show ?thesis
    by (auto simp: ether_Rx_def Let_def
        intro!: net_kept_set_device net_kept_trans [OF net_kept_set_device DeviceInputHandler_kept]
        split: read_event.splits sum.splits prod.splits)
qed (simp_all add: ether_Rx_def)

lemma ether_Rx_net_ok: "net_ok st \<Longrightarrow> net_ok (snd (ether_Rx ev d st))"
  by (cases "devices st ! d")
     (auto simp: ether_Rx_def Let_def intro!: DeviceInputHandler_net_ok net_ok_set_device
        split: read_event.splits sum.splits prod.splits)

lemma DeviceRegister_net_ok:
  assumes "net_ok st" "dev_Interfaces dv = []"
    and "\<And>e. dv = Ether e \<Longrightarrow> length (e_rxbuf e) = EtherFrameSizeMax"
  shows "net_ok (snd (DeviceRegister dv st))"
  using assms
  by (auto simp: DeviceRegister_def net_ok_def dev_ok_def nth_append less_Suc_eq
      split: device.splits)

lemma net_IfaceRegister_net_ok:
  assumes "net_ok st" "d < length (devices st)" "i < length (ifaces st)" "if_dev (ifaces st ! i) = None"
  shows "net_ok (snd (net_IfaceRegister d i st))"
proof (cases "\<exists>j \<in> set (dev_Interfaces (devices st ! d)).
           iface_Family (ifaces st ! j) = iface_Family (ifaces st ! i)")
  case False
  define st' where "st' = snd (net_IfaceRegister d i st)"
  have st': "devices st' = (devices st)[d := dev_AddIface i (devices st ! d)]"
      "ifaces st' = (ifaces st)[i := (ifaces st ! i)\<lparr>if_dev := Some d\<rparr>]"
      "protos st' = protos st" "protoBuffers st' = protoBuffers st"
    using False by (auto simp: st'_def net_IfaceRegister_def)
  have fam: "iface_Family x = iface_Family y" for x y
    by (simp add: iface_Family_def)
  have none: "dev_Interfaces (devices st ! d) = []"
    using False fam by (cases "dev_Interfaces (devices st ! d)") fastforce+
  have "dev_ok st' k" if k: "k < length (devices st)" for k
  proof (cases "k = d")
    case True
    with assms none k show ?thesis
      by (cases "devices st ! d") (auto simp: dev_ok_def st' net_ok_def)
  next
    case False
    have old: "j \<noteq> i \<and> j < length (ifaces st) \<and> if_dev (ifaces st ! j) = Some k"
      if "j \<in> set (dev_Interfaces (devices st ! k))" for j
      using that assms k by (auto simp: net_ok_def dev_ok_def)
    from False assms k show ?thesis
      by (auto simp: dev_ok_def st' net_ok_def iface_Family_def nth_list_update_if dest!: old)
  qed
  then show ?thesis
    using assms unfolding st'_def [symmetric]
    by (auto simp: net_ok_def st' dest!: set_update_subset_insert [THEN subsetD])
qed (use assms in \<open>simp add: net_IfaceRegister_def\<close>)

lemma net_ProtoRegister_net_ok: "net_ok st \<Longrightarrow> net_ok (net_ProtoRegister p st)"
  by (simp add: net_ok_def dev_ok_def net_ProtoRegister_def)

lemma dev_Close_kept: "dev_kept d (snd (dev_Close d))"
  by (cases d) (auto split: prod.splits)

lemma net_Close_loop_kept: "net_kept st (snd (net_Close_loop ds st))"
proof (induction ds arbitrary: st)
  case (Cons d ds)
  obtain err dv where c: "dev_Close (devices st ! d) = (err, dv)" by force
  then have k: "net_kept st (st\<lparr>devices := (devices st)[d := dv]\<rparr>)"
    using dev_Close_kept [of "devices st ! d"] by (simp add: net_kept_set_device)
  show ?case
    using k net_kept_trans [OF k Cons.IH] by (simp add: c Let_def split: option.split)
qed simp

lemma net_Close_loop_net_ok: "net_ok st \<Longrightarrow> net_ok (snd (net_Close_loop ds st))"
proof (induction ds arbitrary: st)
  case (Cons d ds)
  obtain err dv where c: "dev_Close (devices st ! d) = (err, dv)" by force
  then have "net_ok (st\<lparr>devices := (devices st)[d := dv]\<rparr>)"
    using dev_Close_kept [of "devices st ! d"] Cons.prems by (simp add: net_ok_set_device)
  with Cons show ?case by (simp add: c Let_def split: option.split)
qed simp

section \<open>Properties\<close>

lemma isUp_Ether: "isUp (Ether e) \<longleftrightarrow> e_flags e AND DeviceFlagUp > 0"
  by (simp add: isUp_def)

lemma ether_MTU: "dev_MTU (Ether e) = 1500"
  by (simp add: ether_consts)

lemma NullInit_net_ok: "net_ok st \<Longrightarrow> net_ok (snd (NullInit name st))"
  unfolding NullInit_def by (rule DeviceRegister_net_ok) simp_all

lemma LoopbackInit_net_ok: "net_ok st \<Longrightarrow> net_ok (snd (LoopbackInit name st))"
  unfolding LoopbackInit_def by (rule DeviceRegister_net_ok) simp_all

lemma EtherInit_net_ok: "net_ok st \<Longrightarrow> net_ok (snd (EtherInit opened addr st))"
  by (auto simp: EtherInit_def DeviceRegister_def split: sum.split prod.split
      intro!: DeviceRegister_net_ok [unfolded DeviceRegister_def snd_conv])

lemmas net_ok_intros =
  NullInit_net_ok LoopbackInit_net_ok EtherInit_net_ok net_ProtoRegister_net_ok net_IfaceRegister_net_ok
  DeviceOutput_net_ok ether_Rx_net_ok DeviceInputHandler_net_ok

text \<open>C24. Every operation on the registries keeps the state well formed: devices and interfaces point
  to each other, a device has at most one interface of a family, each protocol has its channel and
  no channel exceeds its capacity.\<close>

theorem net_ok_operations:
  assumes "net_ok st"
  shows "net_ok (snd (NullInit name st)) \<and> net_ok (snd (LoopbackInit name st)) \<and>
    net_ok (snd (EtherInit opened addr st)) \<and> net_ok (net_ProtoRegister p st) \<and>
    net_ok (snd (DeviceOutput d data typ dst st)) \<and> net_ok (snd (ether_Rx ev d st)) \<and>
    net_ok (snd (DeviceInputHandler typ sl d st)) \<and> net_ok (snd (net_Close st)) \<and>
    (d < length (devices st) \<and> i < length (ifaces st) \<and> if_dev (ifaces st ! i) = None \<longrightarrow>
       net_ok (snd (net_IfaceRegister d i st)))"
  using assms net_Close_loop_net_ok [OF assms]
  by (simp add: net_Close_def net_ok_intros)

definition net_empty :: net_state where
  "net_empty = \<lparr>devices = [], interfaces = [], ifaces = [], protos = [], protoBuffers = [], now = 0\<rparr>"

theorem net_ok_operations_witness: "net_ok net_empty \<and> net_ok (snd (LoopbackInit ''loop0'' net_empty))"
proof -
  have "net_ok net_empty" by (simp add: net_ok_def net_empty_def)
  then show ?thesis using net_ok_operations [of net_empty "''loop0''"] by blast
qed

text \<open>What \<open>DeviceOutput\<close> sends on an open Ethernet device is one frame of at most 1514 bytes that
  carries the data unchanged behind a header with the type asked for, and nothing else of the
  network state changes. (The first six bytes are the sender's own address.)\<close>

theorem DeviceOutput_frame:
  assumes "devices st ! d = Ether e" "d < length (devices st)" "length data < 65536"
    and "DeviceOutput d data typ (Some dst) st = (None, st')"
  shows "\<exists>frame. st' = st\<lparr>devices := (devices st)[d := Ether (e\<lparr>e_file := (e_file e)
             \<lparr>f_out := f_out (e_file e) @ [frame]\<rparr>\<rparr>)]\<rparr> \<and>
           length frame \<le> EtherFrameSizeMax \<and>
           take 6 frame = ether_Addr (e_addr e) \<and>
           ether_data2header frame = Inr (\<lparr>eh_src = e_addr e, eh_dst = dst, eh_type = typ\<rparr>, data)"
proof -
  define frame where
    "frame = ether_header2data \<lparr>eh_src = e_addr e, eh_dst = dst, eh_type = typ\<rparr> data"
  have mtu: "\<not> dev_MTU (Ether e) < (of_nat (length data) :: u16)"
    using assms by (auto simp: DeviceOutput_def split: if_splits)
  then have "length data \<le> 1500"
    using assms(3) by (simp add: ether_consts word_less_nat_alt unat_of_nat not_less)
  then have "length frame \<le> EtherFrameSizeMax"
    by (simp add: frame_def ether_header2data_def ether_consts)
  moreover have "st' = st\<lparr>devices := (devices st)[d := Ether (e\<lparr>e_file := (e_file e)
             \<lparr>f_out := f_out (e_file e) @ [frame]\<rparr>\<rparr>)]\<rparr>"
    using assms by (auto simp: DeviceOutput_def dev_TxHandler_defs frame_def file_Write_def Let_def
        split: if_splits)
  moreover have "take 6 frame = ether_Addr (e_addr e)"
    by (simp add: frame_def ether_header2data_def ether_encode_def)
  ultimately show ?thesis
    using ether_reads_back frame_def by blast
qed

definition demo_file :: dev_file where
  "demo_file = \<lparr>f_closed = False, f_fails = False, f_out = []\<rparr>"

definition demo_ether :: ether_dev where
  "demo_ether = \<lparr>e_name = ''tap0'', e_flags = 0x121, e_interfaces = [], e_addr = EtherAddr 2 0 0 0 0 1,
     e_file = demo_file, e_rxbuf = replicate EtherFrameSizeMax 0\<rparr>"

definition demo_net :: net_state where
  "demo_net = net_empty\<lparr>devices := [Ether demo_ether], protos := [IProto, ArpProto],
     protoBuffers := [[], []]\<rparr>"

theorem DeviceOutput_frame_witness:
  "\<exists>st'. DeviceOutput 0 [1, 2, 3] 0x0800 (Some EtherAddrBroadcast) demo_net = (None, st') \<and>
     (\<exists>frame. devices st' ! 0 = Ether (demo_ether\<lparr>e_file := demo_file\<lparr>f_out := [frame]\<rparr>\<rparr>) \<and>
       ether_data2header frame =
         Inr (\<lparr>eh_src = EtherAddr 2 0 0 0 0 1, eh_dst = EtherAddrBroadcast, eh_type = 0x0800\<rparr>, [1, 2, 3]))"
proof -
  have dev: "devices demo_net ! 0 = Ether demo_ether" "(0::nat) < length (devices demo_net)"
    by (simp_all add: demo_net_def)
  obtain st' where out: "DeviceOutput 0 [1, 2, 3] 0x0800 (Some EtherAddrBroadcast) demo_net = (None, st')"
    by (simp add: DeviceOutput_def dev_TxHandler_defs demo_net_def demo_ether_def demo_file_def
        isUp_def DeviceFlagUp_def ether_consts file_Write_def)
  from DeviceOutput_frame [OF dev _ out] obtain frame where
    "st' = demo_net\<lparr>devices := (devices demo_net)[0 := Ether (demo_ether\<lparr>e_file := (e_file demo_ether)
       \<lparr>f_out := f_out (e_file demo_ether) @ [frame]\<rparr>\<rparr>)]\<rparr>"
    "ether_data2header frame =
       Inr (\<lparr>eh_src = e_addr demo_ether, eh_dst = EtherAddrBroadcast, eh_type = 0x0800\<rparr>, [1, 2, 3])"
    by auto
  with out show ?thesis
    by (auto simp: demo_net_def demo_ether_def demo_file_def)
qed

text \<open>C13. The Ethernet receive handler passes a frame on exactly when its destination is the device's
  address or the broadcast address and a protocol of its type is registered: the protocol's channel
  then gains one entry that reads as the bytes behind the header. Any other frame only lands in the
  receive buffer.\<close>

theorem ether_Rx_delivers:
  assumes "net_ok st" "d < length (devices st)" "devices st ! d = Ether e"
    and "EtherHeaderSize \<le> length frame" "length frame \<le> EtherFrameSizeMax"
    and "ether_Rx (ReadFrame frame) d st = (err, st')"
  shows "if (get_ether frame 6 = e_addr e \<or> get_ether frame 6 = EtherAddrBroadcast) \<and>
            proto_index (get16 frame 12) (protos st) \<noteq> None
         then (let i = the (proto_index (get16 frame 12) (protos st))
               in if length (protoBuffers st ! i) < ProtoBufferSize
                  then err = None \<and>
                    (\<exists>pb. protoBuffers st' = (protoBuffers st)[i := protoBuffers st ! i @ [pb]] \<and>
                          slice_bytes st' (pb_data pb) = drop EtherHeaderSize frame \<and> pb_dev pb = d)
                  else err = Some Blocked)
         else err = None \<and> protoBuffers st' = protoBuffers st"
proof -
  have rx: "length (e_rxbuf e) = EtherFrameSizeMax"
    using assms by (force simp: net_ok_def dev_ok_def)
  define buf where "buf = frame @ drop (length frame) (e_rxbuf e)"
  define st1 where "st1 = st\<lparr>devices := (devices st)[d := Ether (e\<lparr>e_rxbuf := buf\<rparr>)]\<rparr>"
  have hdr: "ether_data2header buf =
      Inr (\<lparr>eh_src = get_ether frame 0, eh_dst = get_ether frame 6, eh_type = get16 frame 12\<rparr>,
           drop EtherHeaderSize buf)"
  proof -
    have "frame \<noteq> []" using assms(4) by (auto simp: ether_consts)
    then show ?thesis
      using assms(4) by (simp add: ether_data2header_def buf_def get_ether_def get16_def nth_append
          ether_consts)
  qed
  have data: "slice_bytes (st1\<lparr>protoBuffers := bufs\<rparr>)
      (RxBuf d EtherHeaderSize (length frame - EtherHeaderSize)) = drop EtherHeaderSize frame" for bufs
    using assms(2,4) by (simp add: st1_def buf_def)
  have "take (length (e_rxbuf e)) frame = frame" using assms(5) rx by simp
  then have "ether_Rx (ReadFrame frame) d st =
      (if get_ether frame 6 \<noteq> e_addr e \<and> get_ether frame 6 \<noteq> EtherAddrBroadcast then (None, st1)
       else DeviceInputHandler (get16 frame 12)
              (RxBuf d EtherHeaderSize (length frame - EtherHeaderSize)) d st1)"
    using assms(4) hdr
    by (simp add: ether_Rx_def assms(3) Let_def st1_def buf_def)
  then show ?thesis
    using assms(6) data by (auto simp: DeviceInputHandler_def Let_def st1_def split: if_splits option.splits)
qed

definition demo_frame :: bytes where
  "demo_frame = ether_header2data
     \<lparr>eh_src = EtherAddr 2 0 0 0 0 9, eh_dst = EtherAddr 2 0 0 0 0 1, eh_type = 0x0806\<rparr> [7, 8, 9]"

lemma demo_net_ok: "net_ok demo_net"
  by (simp add: net_ok_def demo_net_def net_empty_def dev_ok_def demo_ether_def)

lemma demo_net_simps:
  "devices demo_net = [Ether demo_ether]" "protos demo_net = [IProto, ArpProto]"
  "protoBuffers demo_net = [[], []]" "e_addr demo_ether = EtherAddr 2 0 0 0 0 1"
  by (simp_all add: demo_net_def demo_ether_def)

theorem ether_Rx_delivers_witness:
  "\<exists>st' pb. ether_Rx (ReadFrame demo_frame) 0 demo_net = (None, st') \<and>
     protoBuffers st' = [[], [pb]] \<and> slice_bytes st' (pb_data pb) = [7, 8, 9]"
proof -
  obtain err st' where rx: "ether_Rx (ReadFrame demo_frame) 0 demo_net = (err, st')" by force
  have frame: "get_ether demo_frame 6 = EtherAddr 2 0 0 0 0 1" "get16 demo_frame 12 = 0x0806"
    "length demo_frame = 17" "drop 14 demo_frame = [7, 8, 9]"
    by (simp_all add: demo_frame_def ether_header2data_def ether_encode_def get_ether_def be_bytes
        ether_consts)
  show ?thesis
    using ether_Rx_delivers [OF demo_net_ok _ _ _ _ rx, of demo_ether]
    by (auto simp: demo_net_simps frame ether_consts ProtoBufferSize_def ProtoTypeArp_def
        ProtoTypeIP_def rx)
qed

text \<open>The slices queued for the protocols share the device's receive buffer: after the next frame
  is read, a queued slice inside that frame's length reads as bytes of the new frame, whatever it
  held. A packet is lost when a second one arrives before its handler ran.\<close>

theorem ether_Rx_overwrites_queue:
  assumes "net_ok st" "d < length (devices st)" "devices st ! d = Ether e"
    and "length frame \<le> EtherFrameSizeMax" "off + n \<le> length frame"
  shows "slice_bytes (snd (ether_Rx (ReadFrame frame) d st)) (RxBuf d off n) =
    take n (drop off frame)"
proof -
  have rx: "length (e_rxbuf e) = EtherFrameSizeMax"
    using assms by (force simp: net_ok_def dev_ok_def)
  define st1 where
    "st1 = st\<lparr>devices := (devices st)[d := Ether (e\<lparr>e_rxbuf := frame @ drop (length frame) (e_rxbuf e)\<rparr>)]\<rparr>"
  have "devices (snd (ether_Rx (ReadFrame frame) d st)) = devices st1"
    using assms(4) rx
    by (auto simp: ether_Rx_def assms(3) Let_def st1_def DeviceInputHandler_def
        split: sum.splits option.splits)
  then show ?thesis
    using assms(2,5) by (simp add: st1_def)
qed

theorem ether_Rx_overwrites_queue_witness:
  "slice_bytes (snd (ether_Rx (ReadFrame demo_frame) 0 demo_net)) (RxBuf 0 14 3) = [7, 8, 9] \<and>
   slice_bytes demo_net (RxBuf 0 14 3) = [0, 0, 0]"
proof -
  have "slice_bytes (snd (ether_Rx (ReadFrame demo_frame) 0 demo_net)) (RxBuf 0 14 3) =
      take 3 (drop 14 demo_frame)"
    by (rule ether_Rx_overwrites_queue [OF demo_net_ok, where e = demo_ether])
       (simp_all add: demo_net_simps demo_frame_def ether_header2data_def ether_consts)
  then show ?thesis
    by (simp add: demo_frame_def ether_header2data_def demo_net_simps demo_ether_def
        EtherFrameSizeMax_def numeral_eq_Suc)
qed

end
