(* ===== verification/ArpHeader.thy ===== *)
theory ArpHeader
  imports Device
begin

text \<open>
  ARP messages for IPv4 over Ethernet (\<open>pkg/arp/header.go\<close> and the constants of \<open>protocol.go\<close>).
\<close>

definition arpHrdEther :: u16 where "arpHrdEther = 0x0001"
definition arpProIP :: u16 where "arpProIP = 0x0800"
definition arpOpRequest :: u16 where "arpOpRequest = 1"
definition arpOpReply :: u16 where "arpOpReply = 2"
definition ArpEtherSize :: nat where "ArpEtherSize = 8 + 2 * 6 + 2 * 4"

lemmas arp_consts = arpHrdEther_def arpProIP_def arpOpRequest_def arpOpReply_def ArpEtherSize_def

record arp_ether =
  ah_hrd :: u16
  ah_pro :: u16
  ah_hln :: u8
  ah_pln :: u8
  ah_op :: u16
  ah_sha :: ether_addr
  ah_spa :: u32
  ah_tha :: ether_addr
  ah_tpa :: u32

definition arp_ether_zero :: arp_ether where
  "arp_ether_zero = \<lparr>ah_hrd = 0, ah_pro = 0, ah_hln = 0, ah_pln = 0, ah_op = 0,
     ah_sha = EtherAddrAny, ah_spa = 0, ah_tha = EtherAddrAny, ah_tpa = 0\<rparr>"

definition arp_header2data :: "arp_ether \<Rightarrow> bytes" where
  "arp_header2data h =
     be16 (ah_hrd h) @ be16 (ah_pro h) @ [ah_hln h, ah_pln h] @ be16 (ah_op h) @
     ether_Addr (ah_sha h) @ be32 (ah_spa h) @ ether_Addr (ah_tha h) @ be32 (ah_tpa h)"

definition arp_decode :: "bytes \<Rightarrow> arp_ether" where
  "arp_decode bs =
     \<lparr>ah_hrd = get16 bs 0, ah_pro = get16 bs 2, ah_hln = bs ! 4, ah_pln = bs ! 5, ah_op = get16 bs 6,
      ah_sha = get_ether bs 8, ah_spa = get32 bs 14, ah_tha = get_ether bs 18, ah_tpa = get32 bs 24\<rparr>"

definition arp_data2header :: "bytes \<Rightarrow> error + arp_ether" where
  "arp_data2header data =
     (if length data < ArpEtherSize then Inl (Err ''data size is too small for arp header'')
      else
        (let hdr = arp_decode data
         in if ah_hrd hdr \<noteq> arpHrdEther \<or> ah_hln hdr \<noteq> 6
            then Inl (Err ''arp resolves only Ethernet address'')
            else if ah_pro hdr \<noteq> arpProIP \<or> ah_pln hdr \<noteq> 4
            then Inl (Err ''arp only supports IP address'')
            else Inr hdr))"

lemma length_arp_header2data [simp]: "length (arp_header2data h) = 28"
  by (simp add: arp_header2data_def)

lemma arp_decode_encode: "arp_decode (arp_header2data h @ p) = h"
  by (cases h; cases "ah_sha h"; cases "ah_tha h")
     (simp add: arp_decode_def arp_header2data_def be_bytes get_ether_def)

lemma arp_encode_decode: "28 \<le> length bs \<Longrightarrow> arp_header2data (arp_decode bs) = take 28 bs"
  by (simp add: arp_header2data_def arp_decode_def be_simps take_as_nths upt_conv_Cons numeral_eq_Suc)

definition arp_valid :: "arp_ether \<Rightarrow> bool" where
  "arp_valid h \<longleftrightarrow> ah_hrd h = arpHrdEther \<and> ah_hln h = 6 \<and> ah_pro h = arpProIP \<and> ah_pln h = 4"

lemma arp_reads_back:
  "arp_valid h \<Longrightarrow> arp_data2header (arp_header2data h @ p) = Inr h"
  by (simp add: arp_data2header_def arp_consts arp_decode_encode arp_valid_def)

interpretation arp_codec: header_codec "\<lambda>h p. arp_header2data h @ p"
    "\<lambda>bs. map_sum id (\<lambda>h. (h, drop 28 bs)) (arp_data2header bs)" "\<lambda>h p. arp_valid h" "\<lambda>h p. h"
  by unfold_locales (simp add: arp_reads_back)

lemma arp_data2header_Inr:
  "arp_data2header data = Inr h \<longleftrightarrow> 28 \<le> length data \<and> h = arp_decode data \<and> arp_valid h"
  by (auto simp: arp_data2header_def arp_valid_def Let_def ArpEtherSize_def)

text \<open>C37. The ARP codec is exact: \<open>data2header\<close> accepts a message with a header exactly when it is
  the encoding of that header, for IPv4 over Ethernet, followed by any padding.\<close>

theorem arp_data2header_exact:
  "arp_data2header data = Inr h \<longleftrightarrow> arp_valid h \<and> (\<exists>pad. data = arp_header2data h @ pad)"
proof
  assume "arp_data2header data = Inr h"
  then have "28 \<le> length data" "h = arp_decode data" "arp_valid h"
    unfolding arp_data2header_Inr by blast+
  then have "arp_header2data h @ drop 28 data = data"
    by (simp add: arp_encode_decode)
  with \<open>arp_valid h\<close> show "arp_valid h \<and> (\<exists>pad. data = arp_header2data h @ pad)" by metis
qed (auto simp: arp_reads_back)

end
