(* ===== verification/IpAddr.thy ===== *)
theory IpAddr
  imports GoString
begin

text \<open>
  IP addresses as text: \<open>Addr.String\<close> and \<open>Str2Addr\<close> of \<open>pkg/ip\<close>. An address is a \<open>uint32\<close> with
  the first octet in its highest byte.
\<close>

section \<open>IP addresses as text\<close>

text \<open>\<open>Addr.String\<close> of \<open>pkg/ip/protocol.go\<close> and \<open>Str2Addr\<close> of \<open>pkg/ip/utils.go\<close>. The loop of
  \<open>Str2Addr\<close> shifts by \<open>24 - 8*i\<close>; a shift by a negative count, from the fifth part on, panics.\<close>

definition Addr_String :: "u32 \<Rightarrow> string" where
  "Addr_String b =
     itoa (unat (drop_bit 24 b AND 0xff)) @ ''.'' @ itoa (unat (drop_bit 16 b AND 0xff)) @ ''.'' @
     itoa (unat (drop_bit 8 b AND 0xff)) @ ''.'' @ itoa (unat (b AND 0xff))"

fun Str2Addr_loop :: "nat \<Rightarrow> string list \<Rightarrow> u32 \<Rightarrow> error + u32" where
  "Str2Addr_loop i [] b = Inr b"
| "Str2Addr_loop i (s # strs) b =
     (case Atoi s of
        Inl e \<Rightarrow> Inl e
      | Inr n \<Rightarrow>
          if 24 < 8 * i then Inl Panic
          else Str2Addr_loop (i + 1) strs (b OR push_bit (24 - 8 * i) (of_int (n mod 256))))"

definition Str2Addr :: "string \<Rightarrow> error + u32" where
  "Str2Addr str = Str2Addr_loop 0 (split_on CHR ''.'' str) 0"

lemma octet_less: "unat (x AND 0xff :: u32) < 256"
proof -
  have m: "(0xff :: u32) = mask 8" by (simp add: mask_numeral)
  have "unat (x AND 0xff) = take_bit 8 (unat x)"
    by (simp only: m flip: take_bit_eq_mask) (simp add: unsigned_take_bit_eq)
  then show ?thesis using take_bit_nat_less_exp [of 8 "unat x"] by simp
qed

lemma Atoi_octet: "Atoi (itoa (unat (x AND 0xff :: u32))) = Inr (int (unat (x AND 0xff)))"
  using octet_less [of x] by (simp add: Atoi_itoa)

lemma split_Addr_String:
  "split_on CHR ''.'' (itoa a @ ''.'' @ itoa b @ ''.'' @ itoa c @ ''.'' @ itoa d) =
     [itoa a, itoa b, itoa c, itoa d]"
proof -
  have "CHR ''.'' \<notin> set (itoa n)" for n
    using itoa_digits not_digits(3) by blast
  then show ?thesis by (simp add: split_on_sep split_on_none)
qed

lemma octets_join:
  fixes a :: u32
  shows "push_bit 24 (drop_bit 24 a AND 0xff) OR push_bit 16 (drop_bit 16 a AND 0xff) OR
    push_bit 8 (drop_bit 8 a AND 0xff) OR (a AND 0xff) = a"
proof -
  have m: "(0xff :: u32) = mask 8" by (simp add: mask_numeral)
  have "bit (push_bit 24 (drop_bit 24 a AND 0xff) OR push_bit 16 (drop_bit 16 a AND 0xff) OR
    push_bit 8 (drop_bit 8 a AND 0xff) OR (a AND 0xff)) n = bit a n" if "n < 32" for n
  proof -
    consider "n < 8" | "8 \<le> n" "n < 16" | "16 \<le> n" "n < 24" | "24 \<le> n" by linarith
    then show ?thesis
      using that by cases (auto simp: m bit_simps)
  qed
  then show ?thesis by (intro bit_word_eqI) simp
qed

lemma of_int_octet: "(of_int (int (unat (x AND 0xff)) mod 256) :: u32) = x AND 0xff"
proof -
  have "int (unat (x AND 0xff)) mod 256 = int (unat (x AND 0xff))"
    by (rule mod_pos_pos_trivial) (simp, use octet_less [of x] in linarith)
  then show ?thesis by (simp only: of_int_of_nat_eq of_nat_unat) simp
qed

lemma Str2Addr_reads_back: "Str2Addr (Addr_String a) = Inr a"
proof -
  have "Str2Addr (Addr_String a) =
    Inr (push_bit 24 (drop_bit 24 a AND 0xff) OR push_bit 16 (drop_bit 16 a AND 0xff) OR
      push_bit 8 (drop_bit 8 a AND 0xff) OR (a AND 0xff))"
    by (simp only: Str2Addr_def Addr_String_def split_Addr_String Str2Addr_loop.simps Atoi_octet
        sum.case of_int_octet) (simp add: or.assoc)
  then show ?thesis by (simp only: octets_join)
qed

text \<open>Parsing the text of an address gives the address back.\<close>

theorem Str2Addr_Addr_String: "Str2Addr (Addr_String a) = Inr a"
  by (rule Str2Addr_reads_back)

text \<open>\<open>Str2Addr\<close> panics on a text of five or more numbers, where its signature promises an error.\<close>

theorem Str2Addr_five_parts:
  assumes "Atoi a = Inr i" "Atoi b = Inr j" "Atoi c = Inr k" "Atoi d = Inr l" "Atoi e = Inr m"
    and "split_on CHR ''.'' str = a # b # c # d # e # rest"
  shows "Str2Addr str = Inl Panic"
  by (simp add: Str2Addr_def assms)

theorem Str2Addr_five_parts_witness: "Str2Addr ''1.2.3.4.5'' = Inl Panic"
  by (rule Str2Addr_five_parts) (simp_all add: Atoi_def unsigned_value_def is_digit_def)

end
