(* ===== verification/IpHeader.thy ===== *)
theory IpHeader
  imports Utils Codec
begin

text \<open>
  The IP header of \<open>pkg/ip/header.go\<close>: its layout, \<open>data2header\<close> with the checks in the code's order,
  and \<open>header2data\<close>, which also stores the checksum in the caller's header.
\<close>

definition V4 :: u8 where "V4 = 4"
definition HeaderSizeMin :: nat where "HeaderSizeMin = 20"
definition PayloadSizeMax :: nat where "PayloadSizeMax = 65535 - HeaderSizeMin"

record ip_header =
  ih_vhl :: u8
  ih_tos :: u8
  ih_tol :: u16
  ih_id :: u16
  ih_flags :: u16
  ih_ttl :: u8
  ih_proto :: u8
  ih_checksum :: u16
  ih_src :: u32
  ih_dst :: u32

definition ip_header_zero :: ip_header where
  "ip_header_zero = \<lparr>ih_vhl = 0, ih_tos = 0, ih_tol = 0, ih_id = 0, ih_flags = 0, ih_ttl = 0,
     ih_proto = 0, ih_checksum = 0, ih_src = 0, ih_dst = 0\<rparr>"

definition ip_encode :: "ip_header \<Rightarrow> bytes" where
  "ip_encode h =
     [ih_vhl h, ih_tos h] @ be16 (ih_tol h) @ be16 (ih_id h) @ be16 (ih_flags h) @
     [ih_ttl h, ih_proto h] @ be16 (ih_checksum h) @ be32 (ih_src h) @ be32 (ih_dst h)"

definition ip_decode :: "bytes \<Rightarrow> ip_header" where
  "ip_decode bs =
     \<lparr>ih_vhl = bs ! 0, ih_tos = bs ! 1, ih_tol = get16 bs 2, ih_id = get16 bs 4,
      ih_flags = get16 bs 6, ih_ttl = bs ! 8, ih_proto = bs ! 9, ih_checksum = get16 bs 10,
      ih_src = get32 bs 12, ih_dst = get32 bs 16\<rparr>"

text \<open>A packet of another version gives a zero header, no payload and no error. The length compared
  with the header length is the low byte of the data's length.\<close>

definition ip_data2header :: "bytes \<Rightarrow> error + ip_header \<times> bytes" where
  "ip_data2header data =
     (if length data < HeaderSizeMin then Inl (Err ''data size is too small'')
      else
        (let hdr = ip_decode data;
             hlen = push_bit 2 (ih_vhl hdr AND 0xf)
         in if drop_bit 4 (ih_vhl hdr) \<noteq> V4 then Inr (ip_header_zero, [])
            else if (of_nat (length data) :: u8) < hlen
            then Inl (Err ''data length is smaller than IHL'')
            else if (of_nat (length data) :: u16) < ih_tol hdr
            then Inl (Err ''data length is smaller than Total Length'')
            else
              (let chksum = CheckSum (take (unat hlen) data) 0
               in if chksum \<noteq> 0 \<and> chksum \<noteq> 0xffff then Inl (Err ''checksum error (IP)'')
                  else Inr (hdr, drop (unat hlen) data))))"

definition ip_header2data :: "ip_header \<Rightarrow> bytes \<Rightarrow> ip_header \<times> bytes" where
  "ip_header2data hdr payload =
     (let buf = ip_encode hdr @ payload;
          chksum = CheckSum (take HeaderSizeMin buf) 0
      in (hdr\<lparr>ih_checksum := chksum\<rparr>, take 10 buf @ Hton16 chksum @ drop 12 buf))"

section \<open>Layout\<close>

lemma length_ip_encode [simp]: "length (ip_encode h) = 20"
  by (simp add: ip_encode_def)

lemma ip_decode_encode: "ip_decode (ip_encode h @ p) = h"
  by (cases h) (simp add: ip_decode_def ip_encode_def be_bytes)

lemma ip_encode_decode: "20 \<le> length bs \<Longrightarrow> ip_encode (ip_decode bs) = take 20 bs"
  by (simp add: ip_encode_def ip_decode_def be_simps take_as_nths upt_conv_Cons numeral_eq_Suc)

lemma ip_encode_checksum:
  "ip_encode (h\<lparr>ih_checksum := c\<rparr>) = take 10 (ip_encode h) @ be16 c @ drop 12 (ip_encode h)"
  by (simp add: ip_encode_def be_bytes)

lemma ip_sent:
  "snd (ip_header2data h p) = ip_encode (fst (ip_header2data h p)) @ p"
  by (simp add: ip_header2data_def Let_def HeaderSizeMin_def ip_encode_checksum Hton16_be16)

lemma ip_sent_verifies:
  assumes "ih_checksum h = 0"
  shows "CheckSum (ip_encode (fst (ip_header2data h p))) 0 = 0"
proof -
  define a where "a = take 10 (ip_encode h)"
  define z where "z = drop 12 (ip_encode h)"
  have split: "ip_encode h = a @ [0, 0] @ z"
    using assms by (simp add: a_def z_def ip_encode_def be_bytes hi8_def lo8_def)
  have len: "length a = 10" "length z = 8"
    by (simp_all add: a_def z_def)
  have "ip_encode (fst (ip_header2data h p)) = a @ Hton16 (CheckSum (a @ [0, 0] @ z) 0) @ z"
    using len
    by (simp add: ip_header2data_def Let_def HeaderSizeMin_def ip_encode_checksum Hton16_be16 split)
  moreover have "even (length a)" "length (a @ [0, 0] @ z) \<le> 65536"
    by (simp_all add: len)
  ultimately show ?thesis by (simp only: stored_checksum_verifies)
qed

section \<open>What is sent and what is accepted\<close>

lemma unat_u8_length: "unat (of_nat n :: u8) = n mod 256"
  by (simp add: unat_of_nat)

lemma u8_length_less_20: "(of_nat n :: u8) < 20 \<longleftrightarrow> n mod 256 < 20"
  by (simp add: word_less_nat_alt unat_of_nat)

lemma header_length_0x45: "push_bit 2 ((0x45 :: u8) AND 0xf) = 20"
  by simp

lemma ip_sent_read:
  assumes "ih_vhl h = 0x45" "ih_checksum h = 0" "ih_tol h = of_nat (20 + length p)"
    and "20 + length p \<le> 65535"
  shows "ip_data2header (snd (ip_header2data h p)) =
    (if (20 + length p) mod 256 < 20 then Inl (Err ''data length is smaller than IHL'')
     else Inr (fst (ip_header2data h p), p))"
proof -
  define h' where "h' = fst (ip_header2data h p)"
  have fields: "ih_vhl h' = 0x45" "ih_tol h' = of_nat (20 + length p)"
    using assms by (simp_all add: h'_def ip_header2data_def Let_def)
  have sent: "snd (ip_header2data h p) = ip_encode h' @ p"
    by (simp add: h'_def ip_sent)
  have sum: "CheckSum (ip_encode h') 0 = 0"
    unfolding h'_def by (rule ip_sent_verifies [OF assms(2)])
  have "drop_bit 4 (0x45 :: u8) = V4" by (simp add: V4_def)
  moreover have "((20 + of_nat (length p)) :: u8) < 20 \<longleftrightarrow> (20 + length p) mod 256 < 20"
    using u8_length_less_20 [of "20 + length p"] by simp
  ultimately show ?thesis
    by (simp add: sent ip_data2header_def ip_decode_encode fields header_length_0x45
        HeaderSizeMin_def u8_length_less_20 sum flip: h'_def)
qed

definition ip_sendable :: "ip_header \<Rightarrow> bytes \<Rightarrow> bool" where
  "ip_sendable h p \<longleftrightarrow>
     ih_vhl h = 0x45 \<and> ih_checksum h = 0 \<and> ih_tol h = of_nat (20 + length p) \<and>
     20 + length p \<le> 65535 \<and> 20 \<le> (20 + length p) mod 256"

interpretation ip_codec: header_codec "\<lambda>h p. snd (ip_header2data h p)" ip_data2header ip_sendable
    "\<lambda>h p. fst (ip_header2data h p)"
  by unfold_locales (simp add: ip_sendable_def ip_sent_read)

lemma header_length_le:
  "unat (push_bit 2 (v AND 0xf) :: u8) \<le> 60"
proof -
  have "v AND 0xf \<le> (0xf :: u8)" by (rule word_and_le1)
  then have le: "unat (v AND 0xf) \<le> 15" by (simp add: word_le_nat_alt)
  have "unat (push_bit 2 (v AND 0xf) :: u8) = 4 * unat (v AND 0xf) mod 256"
    by (simp add: push_bit_eq_mult unat_word_ariths mult.commute)
  with le show ?thesis by simp
qed

text \<open>C21. A packet built by \<open>header2data\<close> with an option-free header reads back as its header (with
  the stored checksum) and payload, except when the low byte of its length is below 20: then the
  reader rejects it, since it compares that byte with the header length.\<close>

theorem ip_roundtrip:
  assumes "ih_vhl h = 0x45" "ih_checksum h = 0" "ih_tol h = of_nat (20 + length p)"
    and "20 + length p \<le> 65535"
  shows "ip_data2header (snd (ip_header2data h p)) =
    (if (20 + length p) mod 256 < 20 then Inl (Err ''data length is smaller than IHL'')
     else Inr (fst (ip_header2data h p), p))"
  using assms by (rule ip_sent_read)

definition demo_header :: "nat \<Rightarrow> ip_header" where
  "demo_header n = ip_header_zero\<lparr>ih_vhl := 0x45, ih_tol := of_nat (20 + n), ih_src := 0xc0000202,
     ih_dst := 0xc0000201\<rparr>"

theorem ip_roundtrip_witness:
  "ip_data2header (snd (ip_header2data (demo_header 4) [1, 2, 3, 4])) =
     Inr (fst (ip_header2data (demo_header 4) [1, 2, 3, 4]), [1, 2, 3, 4]) \<and>
   ip_data2header (snd (ip_header2data (demo_header 236) (replicate 236 0))) =
     Inl (Err ''data length is smaller than IHL'')"
proof -
  have d: "ih_vhl (demo_header n) = 0x45" "ih_checksum (demo_header n) = 0"
    "ih_tol (demo_header n) = of_nat (20 + n)" for n
    by (simp_all add: demo_header_def ip_header_zero_def)
  have "ip_data2header (snd (ip_header2data (demo_header 4) [1, 2, 3, 4])) =
      Inr (fst (ip_header2data (demo_header 4) [1, 2, 3, 4]), [1, 2, 3, 4])"
    using ip_roundtrip [of "demo_header 4" "[1, 2, 3, 4]"] by (simp add: d)
  moreover have "ip_data2header (snd (ip_header2data (demo_header 236) (replicate 236 0))) =
     Inl (Err ''data length is smaller than IHL'')"
    using ip_roundtrip [of "demo_header 236" "replicate 236 0"] by (simp add: d)
  ultimately show ?thesis by (rule conjI)
qed

text \<open>What \<open>data2header\<close> accepts as version 4 is checked: the header length lies inside the data,
  the total length is at most the data's (as 16-bit numbers), the checksum over the header verifies,
  and header and payload are those bytes. The header length is not checked against its minimum of
  20, and the payload is not cut at the total length. \<open>data2header\<close> never panics.\<close>

theorem ip_data2header_accepts:
  assumes "ip_data2header data = Inr (hdr, payload)" "hdr \<noteq> ip_header_zero"
  shows "HeaderSizeMin \<le> length data \<and> hdr = ip_decode data \<and> drop_bit 4 (ih_vhl hdr) = V4 \<and>
    (let hlen = unat (push_bit 2 (ih_vhl hdr AND 0xf))
     in hlen \<le> length data \<and> payload = drop hlen data \<and> \<not> (of_nat (length data) :: u16) < ih_tol hdr \<and>
        (CheckSum (take hlen data) 0 = 0 \<or> CheckSum (take hlen data) 0 = 0xffff))"
proof -
  define hlen where "hlen = (push_bit 2 (ih_vhl (ip_decode data) AND 0xf) :: u8)"
  have r: "HeaderSizeMin \<le> length data" "drop_bit 4 (ih_vhl (ip_decode data)) = V4"
    "\<not> (of_nat (length data) :: u8) < hlen" "\<not> (of_nat (length data) :: u16) < ih_tol (ip_decode data)"
    "CheckSum (take (unat hlen) data) 0 = 0 \<or> CheckSum (take (unat hlen) data) 0 = 0xffff"
    "hdr = ip_decode data" "payload = drop (unat hlen) data"
    using assms unfolding hlen_def by (auto simp: ip_data2header_def Let_def split: if_splits)
  have "unat hlen \<le> length data mod 256"
    using r(3) by (simp add: word_less_nat_alt unat_of_nat not_less)
  also have "\<dots> \<le> length data" by simp
  finally show ?thesis using r by (simp add: Let_def hlen_def)
qed

theorem ip_data2header_accepts_witness:
  "let data = snd (ip_header2data (demo_header 4) [1, 2, 3, 4])
   in ip_data2header data = Inr (ip_decode data, [1, 2, 3, 4])"
proof -
  define data where "data = snd (ip_header2data (demo_header 4) [1, 2, 3, 4])"
  obtain hdr where r: "ip_data2header data = Inr (hdr, [1, 2, 3, 4])" "hdr \<noteq> ip_header_zero"
    using ip_sent_read [of "demo_header 4" "[1, 2, 3, 4]"]
    by (auto simp: data_def demo_header_def ip_header_zero_def ip_header2data_def Let_def)
  from ip_data2header_accepts [OF r] r show ?thesis by (simp add: data_def)
qed

text \<open>A packet whose header length field is 0 is accepted with any bytes in its header: the
  checksum is then computed over nothing.\<close>

theorem ip_zero_header_length_unchecked:
  assumes "HeaderSizeMin \<le> length data" "data ! 0 = 0x40" "\<not> (of_nat (length data) :: u16) < get16 data 2"
  shows "ip_data2header data = Inr (ip_decode data, data)"
proof -
  have "CheckSum [] 0 = 0xffff"
    by (simp add: CheckSum_def cksum_fold.simps)
  with assms show ?thesis
    by (simp add: ip_data2header_def Let_def ip_decode_def V4_def)
qed

theorem ip_zero_header_length_unchecked_witness:
  "ip_data2header (0x40 # 0xab # 0 # 0 # replicate 16 0xab) =
     Inr (ip_decode (0x40 # 0xab # 0 # 0 # replicate 16 0xab), 0x40 # 0xab # 0 # 0 # replicate 16 0xab)"
  by (rule ip_zero_header_length_unchecked)
     (simp_all add: HeaderSizeMin_def get16_def join16_def)

end
