(* ===== verification/Ip.thy ===== *)
theory Ip
  imports Device IpAddr IpHeader
begin

text \<open>
  The package \<open>ip\<close> (\<open>pkg/ip\<close>): interfaces, the routing table, the registry of upper protocols,
  \<open>TxHandler\<close> and the receive handler. The resolver of hardware addresses, a variable that \<open>Init\<close>
  sets to \<open>arp.Resolve\<close>, and the receive handlers of the upper protocols, called through the
  interface \<open>Proto\<close>, are arguments; what this package relies on is the locale \<open>resolver\<close>.
\<close>

section \<open>State\<close>

definition AddrAny :: u32 where "AddrAny = 0x00000000"
definition AddrBroadcast :: u32 where "AddrBroadcast = 0xffffffff"

definition ProtoICMP :: u8 where "ProtoICMP = 0x01"
definition ProtoTCP :: u8 where "ProtoTCP = 0x06"
definition ProtoUDP :: u8 where "ProtoUDP = 0x11"

definition IpProtoType_String :: "u8 \<Rightarrow> string" where
  "IpProtoType_String p =
     (if p = ProtoICMP then ''ICMP''
      else if p = ProtoTCP then ''TCP''
      else if p = ProtoUDP then ''UDP''
      else ''UNKNOWN'')"

text \<open>The implementers of the interface \<open>ip.Proto\<close>.\<close>

datatype ip_upper = IcmpProto | TcpProto | UdpProto

fun ip_upper_Type :: "ip_upper \<Rightarrow> u8" where
  "ip_upper_Type IcmpProto = ProtoICMP"
| "ip_upper_Type TcpProto = ProtoTCP"
| "ip_upper_Type UdpProto = ProtoUDP"

record route =
  rt_network :: u32
  rt_netmask :: u32
  rt_nexthop :: u32
  rt_Iface :: nat

definition route_zero :: route where
  "route_zero = \<lparr>rt_network = 0, rt_netmask = 0, rt_nexthop = 0, rt_Iface = 0\<rparr>"

record ip_state = net_state +
  routes :: "route list"
  ip_id :: u16
  ip_protos :: "ip_upper list"

section \<open>Interfaces and routes\<close>

text \<open>\<open>NewIface\<close> allocates the struct in the store.\<close>

definition NewIface :: "string \<Rightarrow> string \<Rightarrow> 'a ip_state_scheme \<Rightarrow> (error + nat) \<times> 'a ip_state_scheme" where
  "NewIface unicastStr netmaskStr st =
     (case Str2Addr unicastStr of
        Inl e \<Rightarrow> (Inl e, st)
      | Inr unicast \<Rightarrow>
          (case Str2Addr netmaskStr of
             Inl e \<Rightarrow> (Inl e, st)
           | Inr netmask \<Rightarrow>
               (Inr (length (ifaces st)),
                st\<lparr>ifaces := ifaces st @ [\<lparr>if_dev = None, if_unicast = unicast,
                   if_netmask = netmask, if_broadcast = unicast OR NOT netmask\<rparr>]\<rparr>)))"

text \<open>\<open>routeAdd\<close> logs the name of the interface's device after it appended the route, which panics
  while the interface has no device.\<close>

definition routeAdd ::
    "u32 \<Rightarrow> u32 \<Rightarrow> u32 \<Rightarrow> nat \<Rightarrow> 'a ip_state_scheme \<Rightarrow> error option \<times> 'a ip_state_scheme" where
  "routeAdd network netmask nexthop i st =
     (if if_dev (ifaces st ! i) = None then Some Panic else None,
      st\<lparr>routes := routes st @ [\<lparr>rt_network = network, rt_netmask = netmask,
           rt_nexthop = nexthop, rt_Iface = i\<rparr>]\<rparr>)"

definition SetDefaultGateway ::
    "nat \<Rightarrow> string \<Rightarrow> 'a ip_state_scheme \<Rightarrow> error option \<times> 'a ip_state_scheme" where
  "SetDefaultGateway i gw st =
     (case Str2Addr gw of
        Inl e \<Rightarrow> (Some e, st)
      | Inr gwaddr \<Rightarrow> routeAdd AddrAny AddrAny gwaddr i st)"

text \<open>\<open>IfaceRegister\<close> ignores the error of \<open>net.IfaceRegister\<close>.\<close>

definition ip_IfaceRegister :: "nat \<Rightarrow> nat \<Rightarrow> 'a ip_state_scheme \<Rightarrow> error option \<times> 'a ip_state_scheme" where
  "ip_IfaceRegister d i st =
     (let st1 = snd (net_IfaceRegister d i st);
          iface = ifaces st1 ! i
      in routeAdd (if_unicast iface AND if_netmask iface) (if_netmask iface) AddrAny i st1)"

text \<open>The loop of \<open>LookupTable\<close>. The module asks for Go 1.16, where \<open>for _, route := range routes\<close>
  has one variable \<open>route\<close> for all turns (\<open>cell\<close>), and \<open>candidate\<close> is \<open>nil\<close> or the address of that
  variable (\<open>cand\<close>): what it points to changes with every turn.\<close>

fun lookup_loop :: "u32 \<Rightarrow> route list \<Rightarrow> route \<Rightarrow> bool \<Rightarrow> route \<times> bool" where
  "lookup_loop dst [] cell cand = (cell, cand)"
| "lookup_loop dst (r # rs) cell cand =
     (let cell = r
      in if dst AND rt_netmask cell = rt_network cell
         then (if \<not> cand \<or> Ntoh32 (rt_netmask cell) < Ntoh32 (rt_netmask cell)
               then lookup_loop dst rs cell True
               else lookup_loop dst rs cell cand)
         else lookup_loop dst rs cell cand)"

definition LookupTable :: "u32 \<Rightarrow> 'a ip_state_scheme \<Rightarrow> error + route" where
  "LookupTable dst st =
     (case lookup_loop dst (routes st) route_zero False of
        (cell, cand) \<Rightarrow> if \<not> cand then Inl (Err ''routing table entry not found'') else Inr cell)"

definition generateId :: "'a ip_state_scheme \<Rightarrow> u16 \<times> 'a ip_state_scheme" where
  "generateId st = (ip_id st + 1, st\<lparr>ip_id := ip_id st + 1\<rparr>)"

definition ip_ProtoRegister :: "ip_upper \<Rightarrow> 'a ip_state_scheme \<Rightarrow> error option \<times> 'a ip_state_scheme" where
  "ip_ProtoRegister p st =
     (if \<exists>q \<in> set (ip_protos st). ip_upper_Type q = ip_upper_Type p
      then (Some (Err ''IP protocol is already registerd''), st)
      else (None, st\<lparr>ip_protos := ip_protos st @ [p]\<rparr>))"

definition ip_Init :: "'a ip_state_scheme \<Rightarrow> error option \<times> 'a ip_state_scheme" where
  "ip_Init st = (None, net_ProtoRegister IProto st)"

section \<open>Transmit\<close>

text \<open>The part of \<open>TxHandler\<close> after the header is built: the hardware address, where the device needs
  one, and the output. \<open>NeedARP\<close> is the flag of the device.\<close>

definition ip_output ::
    "(nat \<Rightarrow> u32 \<Rightarrow> 'a ip_state_scheme \<Rightarrow> (error + ether_addr) \<times> 'a ip_state_scheme) \<Rightarrow>
     nat \<Rightarrow> nat \<Rightarrow> u32 \<Rightarrow> bytes \<Rightarrow> 'a ip_state_scheme \<Rightarrow> error option \<times> 'a ip_state_scheme" where
  "ip_output resolve i d nexthop packet st =
     (if dev_Flags (devices st ! d) AND DeviceFlagNeedARP > 0
      then (if nexthop = if_broadcast (ifaces st ! i) \<or> nexthop = AddrBroadcast
            then DeviceOutput d packet ProtoTypeIP (Some EtherAddrBroadcast) st
            else (case resolve i nexthop st of
                    (Inl e, st1) \<Rightarrow> (Some e, st1)
                  | (Inr hwaddr, st1) \<Rightarrow> DeviceOutput d packet ProtoTypeIP (Some hwaddr) st1))
      else DeviceOutput d packet ProtoTypeIP None st)"

definition ip_TxHandler ::
    "(nat \<Rightarrow> u32 \<Rightarrow> 'a ip_state_scheme \<Rightarrow> (error + ether_addr) \<times> 'a ip_state_scheme) \<Rightarrow>
     u8 \<Rightarrow> bytes \<Rightarrow> u32 \<Rightarrow> u32 \<Rightarrow> 'a ip_state_scheme \<Rightarrow> error option \<times> 'a ip_state_scheme" where
  "ip_TxHandler resolve proto data src dst st =
     (if src = AddrAny \<and> dst = AddrBroadcast
      then (Some (Err ''source is required for broadcast address''), st)
      else
       (case LookupTable dst st of
          Inl e \<Rightarrow> (Some e, st)
        | Inr route \<Rightarrow>
           (let i = rt_Iface route;
                iface = ifaces st ! i
            in if src \<noteq> AddrAny \<and> src \<noteq> if_unicast iface
               then (Some (Err ''unable to output with specified source address''), st)
               else
                (let nexthop = (if rt_nexthop route \<noteq> AddrAny then rt_nexthop route else dst)
                 in case if_dev iface of
                      None \<Rightarrow> (Some Panic, st)
                    | Some d \<Rightarrow>
                        if unat (dev_MTU (devices st ! d)) < HeaderSizeMin + length data
                        then (Some (Err ''IP address cannot be reachable''), st)
                        else
                         (let (id, st1) = generateId st;
                              hdr = \<lparr>ih_vhl = 0x45, ih_tos = 0,
                                     ih_tol = of_nat (HeaderSizeMin + length data), ih_id = id,
                                     ih_flags = 0, ih_ttl = 0xff, ih_proto = proto, ih_checksum = 0,
                                     ih_src = if_unicast iface, ih_dst = dst\<rparr>;
                              (hdr', packet) = ip_header2data hdr data
                          in ip_output resolve i d nexthop packet st1)))))"

section \<open>Receive\<close>

text \<open>The search of the receiving interface: the loop variable \<open>iface\<close> keeps the last candidate when
  none matches.\<close>

fun rx_iface_loop :: "'a ip_state_scheme \<Rightarrow> u32 \<Rightarrow> nat list \<Rightarrow> nat option \<Rightarrow> nat option" where
  "rx_iface_loop st dst [] cur = cur"
| "rx_iface_loop st dst (c # cs) cur =
     (if if_unicast (ifaces st ! c) = dst \<or> if_broadcast (ifaces st ! c) = AddrBroadcast \<or>
         if_broadcast (ifaces st ! c) = dst
      then Some c
      else rx_iface_loop st dst cs (Some c))"

text \<open>The loop over the upper protocols. An error a handler returns is only logged; a panic or a
  blocked send ends the handler.\<close>

type_synonym 'a upper_rx =
  "ip_upper \<Rightarrow> slice \<Rightarrow> u32 \<Rightarrow> u32 \<Rightarrow> nat \<Rightarrow> 'a ip_state_scheme \<Rightarrow> error option \<times> 'a ip_state_scheme"

fun ip_dispatch ::
    "'a upper_rx \<Rightarrow> ip_upper list \<Rightarrow> u8 \<Rightarrow> slice \<Rightarrow> u32 \<Rightarrow> u32 \<Rightarrow> nat \<Rightarrow> 'a ip_state_scheme \<Rightarrow>
     error option \<times> 'a ip_state_scheme" where
  "ip_dispatch rx [] typ payload src dst i st = (None, st)"
| "ip_dispatch rx (p # ps) typ payload src dst i st =
     (if ip_upper_Type p = typ
      then (case rx p payload src dst i st of
              (Some Panic, st1) \<Rightarrow> (Some Panic, st1)
            | (Some Blocked, st1) \<Rightarrow> (Some Blocked, st1)
            | (_, st1) \<Rightarrow> ip_dispatch rx ps typ payload src dst i st1)
      else ip_dispatch rx ps typ payload src dst i st)"

text \<open>One turn of \<open>IProto.RxHandler\<close> on an entry of its channel.\<close>

definition ip_Rx_packet ::
    "'a upper_rx \<Rightarrow> proto_buffer \<Rightarrow> 'a ip_state_scheme \<Rightarrow> error option \<times> 'a ip_state_scheme" where
  "ip_Rx_packet rx pb st =
     (let data = slice_bytes st (pb_data pb)
      in case ip_data2header data of
           Inl e \<Rightarrow> (None, st)
         | Inr (hdr, payload) \<Rightarrow>
             if ih_flags hdr AND 0x2000 > 0 \<or> ih_flags hdr AND 0x1fff > 0 then (None, st)
             else
              (case rx_iface_loop st (ih_dst hdr) (dev_Interfaces (devices st ! pb_dev pb)) None of
                 None \<Rightarrow> (None, st)
               | Some i \<Rightarrow>
                   ip_dispatch rx (ip_protos st) (ih_proto hdr)
                     (slice_from (length data - length payload) (pb_data pb))
                     (ih_src hdr) (ih_dst hdr) i st))"

text \<open>The turn with the receive from the channel number \<open>k\<close>; on an empty channel the handler waits.\<close>

definition ip_RxHandler ::
    "'a upper_rx \<Rightarrow> nat \<Rightarrow> 'a ip_state_scheme \<Rightarrow> error option \<times> 'a ip_state_scheme" where
  "ip_RxHandler rx k st =
     (case protoBuffers st ! k of
        [] \<Rightarrow> (None, st)
      | pb # rest \<Rightarrow> ip_Rx_packet rx pb (st\<lparr>protoBuffers := (protoBuffers st)[k := rest]\<rparr>))"

section \<open>What each operation keeps\<close>

definition ip_kept :: "'a ip_state_scheme \<Rightarrow> 'a ip_state_scheme \<Rightarrow> bool" where
  "ip_kept st st' \<longleftrightarrow>
     net_kept st st' \<and> routes st' = routes st \<and> ip_protos st' = ip_protos st"

lemma ip_kept_refl [simp, intro]: "ip_kept st st"
  by (simp add: ip_kept_def)

lemma ip_kept_trans [trans]: "ip_kept a b \<Longrightarrow> ip_kept b c \<Longrightarrow> ip_kept a c"
  unfolding ip_kept_def by (auto intro: net_kept_trans)

text \<open>Output touches the devices and the protocol buffers only, whatever the state is extended by.\<close>

lemma DeviceInputHandler_updates:
  "\<exists>bufs. snd (DeviceInputHandler t data d st) = st\<lparr>protoBuffers := bufs\<rparr>"
  by (rule exI [of _ "protoBuffers (snd (DeviceInputHandler t data d st))"])
     (simp add: DeviceInputHandler_def split: option.splits)

lemma DeviceOutput_updates:
  "\<exists>devs bufs. snd (DeviceOutput d data t dst st) = st\<lparr>devices := devs, protoBuffers := bufs\<rparr>"
  by (rule exI [of _ "devices (snd (DeviceOutput d data t dst st))"],
      rule exI [of _ "protoBuffers (snd (DeviceOutput d data t dst st))"])
     (simp add: DeviceOutput_def dev_TxHandler_defs DeviceInputHandler_def Let_def
        split: option.splits device.splits prod.splits)

lemma DeviceOutput_ip_kept:
  fixes st :: "'a ip_state_scheme"
  shows "ip_kept st (snd (DeviceOutput d data t dst st))"
proof -
  obtain devs bufs where "snd (DeviceOutput d data t dst st) = st\<lparr>devices := devs, protoBuffers := bufs\<rparr>"
    using DeviceOutput_updates by blast
  then show ?thesis
    using DeviceOutput_kept [of st d data t dst] by (simp add: ip_kept_def)
qed

section \<open>The resolver's contract\<close>

text \<open>What \<open>TxHandler\<close> relies on when it calls the resolver: the call changes nothing a packet on its
  way depends on, keeps the network state well formed, and leaves the state as it is when it answers.\<close>

locale resolver =
  fixes resolve :: "nat \<Rightarrow> u32 \<Rightarrow> 'a ip_state_scheme \<Rightarrow> (error + ether_addr) \<times> 'a ip_state_scheme"
  assumes resolve_kept: "ip_kept st (snd (resolve i pa st))"
    and resolve_net_ok: "net_ok st \<Longrightarrow> net_ok (snd (resolve i pa st))"
    and resolve_answers: "resolve i pa st = (Inr ha, st') \<Longrightarrow> st' = st"
begin

lemma output_kept: "ip_kept st (snd (ip_output resolve i d nexthop packet st))"
proof (cases "resolve i nexthop st")
  case (Pair r st1)
  then have "ip_kept st st1" using resolve_kept [of st i nexthop] by simp
  with Pair show ?thesis
    by (cases r) (auto simp: ip_output_def DeviceOutput_ip_kept
        intro: ip_kept_trans [OF _ DeviceOutput_ip_kept])
qed

lemma output_net_ok: "net_ok st \<Longrightarrow> net_ok (snd (ip_output resolve i d nexthop packet st))"
proof -
  assume ok: "net_ok st"
  obtain r st1 where r: "resolve i nexthop st = (r, st1)" by force
  then have "net_ok st1" using ok resolve_net_ok [of st i nexthop] by simp
  with ok r show ?thesis
    by (cases r) (simp_all add: ip_output_def DeviceOutput_net_ok)
qed

lemma TxHandler_kept: "ip_kept st (snd (ip_TxHandler resolve proto data src dst st))"
proof -
  have "ip_kept st (st\<lparr>ip_id := x\<rparr>)" for x
    by (simp add: ip_kept_def net_kept_def list.rel_refl)
  then show ?thesis
    by (auto simp: ip_TxHandler_def generateId_def Let_def
        intro: ip_kept_trans [OF _ output_kept] split: sum.split option.split prod.split)
qed

lemma TxHandler_net_ok: "net_ok st \<Longrightarrow> net_ok (snd (ip_TxHandler resolve proto data src dst st))"
proof -
  assume "net_ok st"
  then have "net_ok (st\<lparr>ip_id := x\<rparr>)" for x
    by (simp add: net_ok_def dev_ok_def)
  with \<open>net_ok st\<close> show ?thesis
    by (auto simp: ip_TxHandler_def generateId_def Let_def output_net_ok
        split: sum.split option.split prod.split)
qed

text \<open>A packet that \<open>TxHandler\<close> sends on an Ethernet device with ARP: one frame, whose payload is the
  packet with the header the code fills in.\<close>

lemma TxHandler_sends:
  assumes tx: "ip_TxHandler resolve proto data src dst st = (None, st')"
    and route: "LookupTable dst st = Inr r"
    and dev: "if_dev (ifaces st ! rt_Iface r) = Some d" "d < length (devices st)"
      "devices st ! d = Ether e" "e_flags e AND DeviceFlagNeedARP > 0"
  shows "\<exists>ha. let h = \<lparr>ih_vhl = 0x45, ih_tos = 0, ih_tol = of_nat (20 + length data),
                ih_id = ip_id st + 1, ih_flags = 0, ih_ttl = 0xff, ih_proto = proto, ih_checksum = 0,
                ih_src = if_unicast (ifaces st ! rt_Iface r), ih_dst = dst\<rparr>;
              frame = ether_header2data \<lparr>eh_src = e_addr e, eh_dst = ha, eh_type = ProtoTypeIP\<rparr>
                (snd (ip_header2data h data))
            in devices st' = (devices st)[d := Ether (e\<lparr>e_file := (e_file e)
                 \<lparr>f_out := f_out (e_file e) @ [frame]\<rparr>\<rparr>)] \<and> 20 + length data \<le> 1500"
proof -
  define nexthop where "nexthop = (if rt_nexthop r \<noteq> AddrAny then rt_nexthop r else dst)"
  define h where "h = \<lparr>ih_vhl = 0x45, ih_tos = 0, ih_tol = of_nat (20 + length data),
                ih_id = ip_id st + 1, ih_flags = 0, ih_ttl = 0xff, ih_proto = proto, ih_checksum = 0,
                ih_src = if_unicast (ifaces st ! rt_Iface r), ih_dst = dst\<rparr>"
  define packet where "packet = snd (ip_header2data h data)"
  define st1 where "st1 = st\<lparr>ip_id := ip_id st + 1\<rparr>"
  have mtu: "20 + length data \<le> 1500" and
    out: "ip_output resolve (rt_Iface r) d nexthop packet st1 = (None, st')"
    using tx by (auto simp: ip_TxHandler_def route dev generateId_def Let_def HeaderSizeMin_def
        ether_consts nexthop_def h_def packet_def st1_def split: if_splits prod.splits)
  have keep: "devices st1 = devices st" by (simp add: st1_def)
  obtain ha where "DeviceOutput d packet ProtoTypeIP (Some ha) st1 = (None, st')"
    using out dev keep by (auto simp: ip_output_def dest: resolve_answers split: if_splits sum.splits prod.splits)
  then have "devices st' = (devices st)[d := Ether (e\<lparr>e_file := (e_file e)\<lparr>f_out := f_out (e_file e) @
      [ether_header2data \<lparr>eh_src = e_addr e, eh_dst = ha, eh_type = ProtoTypeIP\<rparr> packet]\<rparr>\<rparr>)]"
    using dev keep
    by (auto simp: DeviceOutput_def dev_TxHandler_defs file_Write_def Let_def split: if_splits)
  with mtu show ?thesis unfolding Let_def packet_def h_def by blast
qed

end

text \<open>A protocol above IP keeps its own state beside the network's. Sending leaves that state as it is
  when the resolver does.\<close>

locale upper_layer = resolver resolve
  for resolve :: "nat \<Rightarrow> u32 \<Rightarrow> 'a ip_state_scheme \<Rightarrow> (error + ether_addr) \<times> 'a ip_state_scheme" +
  fixes upper :: "'a ip_state_scheme \<Rightarrow> 'u"
  assumes upper_output: "upper (st\<lparr>devices := devs, protoBuffers := bufs\<rparr>) = upper st"
    and upper_id: "upper (st\<lparr>ip_id := n\<rparr>) = upper st"
    and resolve_upper: "upper (snd (resolve i pa st)) = upper st"
begin

lemma DeviceOutput_upper: "upper (snd (DeviceOutput d data t dst st)) = upper st"
  using DeviceOutput_updates [of d data t dst st] by (auto simp: upper_output)

lemma output_upper: "upper (snd (ip_output resolve i d nexthop packet st)) = upper st"
proof -
  obtain r st1 where r: "resolve i nexthop st = (r, st1)" by force
  then show ?thesis
    using resolve_upper [of i nexthop st] by (cases r) (simp_all add: ip_output_def DeviceOutput_upper)
qed

lemma TxHandler_upper: "upper (snd (ip_TxHandler resolve proto data src dst st)) = upper st"
  by (auto simp: ip_TxHandler_def generateId_def Let_def upper_id output_upper
      split: sum.split option.split prod.split)

end

section \<open>Routing and dispatch\<close>

lemma lookup_loop_eq:
  "lookup_loop dst rs cell cand =
     (if rs = [] then cell else last rs,
      cand \<or> (\<exists>r \<in> set rs. dst AND rt_netmask r = rt_network r))"
  by (induction rs arbitrary: cell cand) (auto simp: Let_def)

lemma LookupTable_eq:
  "LookupTable dst st =
     (if \<exists>r \<in> set (routes st). dst AND rt_netmask r = rt_network r
      then Inr (last (routes st)) else Inl (Err ''routing table entry not found''))"
  by (auto simp: LookupTable_def lookup_loop_eq split: if_splits)

lemma rx_iface_loop_eq:
  "rx_iface_loop st dst cs cur =
     (case find (\<lambda>c. if_unicast (ifaces st ! c) = dst \<or> if_broadcast (ifaces st ! c) = AddrBroadcast \<or>
                    if_broadcast (ifaces st ! c) = dst) cs of
        Some c \<Rightarrow> Some c
      | None \<Rightarrow> if cs = [] then cur else Some (last cs))"
  by (induction cs arbitrary: cur) (auto split: option.split)

definition ip_protos_ok :: "'a ip_state_scheme \<Rightarrow> bool" where
  "ip_protos_ok st \<longleftrightarrow> distinct (map ip_upper_Type (ip_protos st))"

lemma ip_dispatch_none:
  "typ \<notin> set (map ip_upper_Type ps) \<Longrightarrow> ip_dispatch rx ps typ payload src dst i st = (None, st)"
  by (induction ps) auto

lemma ip_dispatch_eq:
  assumes "distinct (map ip_upper_Type ps)" "p \<in> set ps"
  shows "ip_dispatch rx ps (ip_upper_Type p) payload src dst i st =
     (case rx p payload src dst i st of
        (Some (Err m), st1) \<Rightarrow> (None, st1) | (e, st1) \<Rightarrow> (e, st1))"
  using assms
proof (induction ps)
  case (Cons q ps)
  show ?case
  proof (cases "q = p")
    case True
    then show ?thesis
      using Cons.prems by (auto simp: ip_dispatch_none split: prod.splits option.splits error.splits)
  next
    case False
    with Cons.prems have "ip_upper_Type q \<noteq> ip_upper_Type p" by force
    with Cons False show ?thesis by simp
  qed
qed simp

lemma drop_suffix: "drop (length xs - (length xs - n)) xs = drop n xs"
  by (cases "n \<le> length xs") simp_all

lemma ip_payload_slice:
  assumes "ip_data2header data = Inr (hdr, payload)"
  shows "drop (length data - length payload) data = payload"
  using assms
  by (auto simp: ip_data2header_def Let_def drop_suffix split: if_splits)

lemma find_upper:
  "find (\<lambda>p. ip_upper_Type p = t) ps = Some p \<Longrightarrow> p \<in> set ps \<and> ip_upper_Type p = t"
  by (induction ps) (auto split: if_splits)

lemma ip_Rx_packet_eq:
  assumes "ip_protos_ok st" "ip_data2header (slice_bytes st (pb_data pb)) = Inr (hdr, payload)"
    and "dev_Interfaces (devices st ! pb_dev pb) = [i]"
  shows "ip_Rx_packet rx pb st =
    (if ih_flags hdr AND 0x2000 > 0 \<or> ih_flags hdr AND 0x1fff > 0 then (None, st)
     else (case find (\<lambda>p. ip_upper_Type p = ih_proto hdr) (ip_protos st) of
        None \<Rightarrow> (None, st)
      | Some p \<Rightarrow>
         (case rx p (slice_from (length (slice_bytes st (pb_data pb)) - length payload) (pb_data pb))
                 (ih_src hdr) (ih_dst hdr) i st of
            (Some (Err m), st1) \<Rightarrow> (None, st1) | (e, st1) \<Rightarrow> (e, st1))))"
proof (cases "find (\<lambda>p. ip_upper_Type p = ih_proto hdr) (ip_protos st)")
  case None
  then have "ih_proto hdr \<notin> set (map ip_upper_Type (ip_protos st))"
    by (auto simp: find_None_iff)
  with assms None show ?thesis
    by (simp add: ip_Rx_packet_def rx_iface_loop_eq ip_dispatch_none)
next
  case (Some p)
  then have p: "p \<in> set (ip_protos st)" "ih_proto hdr = ip_upper_Type p"
    using find_upper by metis+
  have "distinct (map ip_upper_Type (ip_protos st))"
    using assms(1) by (simp add: ip_protos_ok_def)
  note disp = ip_dispatch_eq [OF this p(1)]
  have rxi: "rx_iface_loop st dst [i] None = Some i" for dst by simp
  show ?thesis
    unfolding ip_Rx_packet_def Let_def assms(2,3) Some
    by (simp only: rxi p(2) disp sum.case prod.case option.case)
qed

section \<open>Properties\<close>

text \<open>\<open>LookupTable\<close> fails exactly when no route matches the destination, and otherwise returns
  the last route of the table, matching or not: \<open>candidate\<close> points to the loop variable, which holds
  the last route when the loop ends. The longest match its comment announces is not computed.\<close>

theorem LookupTable_returns_last:
  "LookupTable dst st =
     (if \<exists>r \<in> set (routes st). dst AND rt_netmask r = rt_network r
      then Inr (last (routes st)) else Inl (Err ''routing table entry not found''))"
  by (rule LookupTable_eq)

text \<open>The upper protocols keep distinct types: registering a type twice is refused and changes
  nothing, another protocol is appended.\<close>

theorem ip_ProtoRegister_distinct:
  assumes "ip_protos_ok st"
  shows "ip_protos_ok (snd (ip_ProtoRegister p st)) \<and>
    (fst (ip_ProtoRegister p st) = None \<longleftrightarrow> p \<notin> set (ip_protos st)) \<and>
    p \<in> set (ip_protos (snd (ip_ProtoRegister p st)))"
proof -
  have inj: "ip_upper_Type q = ip_upper_Type r \<longleftrightarrow> q = r" for q r
    by (cases q; cases r) (simp_all add: ProtoICMP_def ProtoTCP_def ProtoUDP_def)
  show ?thesis
    using assms by (auto simp: ip_ProtoRegister_def ip_protos_ok_def inj image_iff)
qed

definition ip_demo :: ip_state where
  "ip_demo = \<lparr>devices = [Ether (demo_ether\<lparr>e_interfaces := [0]\<rparr>), Loopback \<lparr>loop_name = ''loop0'', loop_flags = 0x11\<rparr>],
     interfaces = [0],
     ifaces = [\<lparr>if_dev = Some 0, if_unicast = 0xc0000202, if_netmask = 0xffffff00, if_broadcast = 0xc00002ff\<rparr>],
     protos = [IProto, ArpProto], protoBuffers = [[], []], now = 0,
     routes = [], ip_id = 0, ip_protos = [IcmpProto]\<rparr>"

theorem ip_ProtoRegister_distinct_witness:
  "ip_protos_ok (snd (ip_ProtoRegister TcpProto ip_demo)) \<and> fst (ip_ProtoRegister IcmpProto ip_demo) \<noteq> None"
proof -
  have "ip_protos_ok ip_demo" by (simp add: ip_protos_ok_def ip_demo_def)
  note r = ip_ProtoRegister_distinct [OF this]
  show ?thesis using r [of TcpProto] r [of IcmpProto] by (simp add: ip_demo_def)
qed

text \<open>C18. A received packet whose header verifies, that is no fragment and whose protocol is
  registered reaches the handler of that protocol once, with exactly the bytes behind the header;
  an error of the handler is only logged. The destination address plays no part: on a device with
  an interface, packets to other hosts are handled too.\<close>

theorem ip_Rx_dispatches:
  assumes "ip_protos_ok st" "p \<in> set (ip_protos st)"
    and "ip_data2header (slice_bytes st (pb_data pb)) = Inr (hdr, payload)"
    and "ip_upper_Type p = ih_proto hdr" "ih_flags hdr AND 0x2000 = 0" "ih_flags hdr AND 0x1fff = 0"
    and "dev_Interfaces (devices st ! pb_dev pb) = [i]"
  shows "\<exists>sl. slice_bytes st sl = payload \<and>
    ip_Rx_packet rx pb st =
      (case rx p sl (ih_src hdr) (ih_dst hdr) i st of
         (Some (Err m), st1) \<Rightarrow> (None, st1) | (e, st1) \<Rightarrow> (e, st1))"
proof -
  define sl where "sl = slice_from (length (slice_bytes st (pb_data pb)) - length payload) (pb_data pb)"
  have "slice_bytes st sl = payload"
    unfolding sl_def slice_bytes_from by (rule ip_payload_slice [OF assms(3)])
  moreover have "find (\<lambda>q. ip_upper_Type q = ih_proto hdr) (ip_protos st) = Some p"
  proof (cases "find (\<lambda>q. ip_upper_Type q = ih_proto hdr) (ip_protos st)")
    case (Some q)
    from find_upper [OF this] assms(1,2,4) show ?thesis
      by (auto simp: Some ip_protos_ok_def distinct_map inj_on_def)
  qed (use assms(2,4) in \<open>auto simp: find_None_iff\<close>)
  ultimately show ?thesis
    using ip_Rx_packet_eq [OF assms(1,3,7), of rx] assms(5,6) by (auto simp: sl_def)
qed

definition demo_packet :: bytes where
  "demo_packet = snd (ip_header2data (demo_header 4\<lparr>ih_proto := 1, ih_dst := 0x08080808\<rparr>) [1, 2, 3, 4])"

theorem ip_Rx_dispatches_witness:
  "ip_Rx_packet (\<lambda>p sl src dst i st. (Some (Err ''seen''), st\<lparr>now := int (length (slice_bytes st sl))\<rparr>))
     \<lparr>pb_data = Heap demo_packet, pb_dev = 0\<rparr> ip_demo = (None, ip_demo\<lparr>now := 4\<rparr>)"
proof -
  define rx :: "unit upper_rx" where
    "rx = (\<lambda>p sl src dst i st. (Some (Err ''seen''), st\<lparr>now := int (length (slice_bytes st sl))\<rparr>))"
  define h where "h = demo_header 4\<lparr>ih_proto := 1, ih_dst := 0x08080808\<rparr>"
  have read: "ip_data2header demo_packet = Inr (fst (ip_header2data h [1, 2, 3, 4]), [1, 2, 3, 4])"
    using ip_sent_read [of h "[1, 2, 3, 4]"]
    by (simp add: demo_packet_def h_def demo_header_def ip_header_zero_def)
  have "\<exists>sl. slice_bytes ip_demo sl = [1, 2, 3, 4] \<and>
    ip_Rx_packet rx \<lparr>pb_data = Heap demo_packet, pb_dev = 0\<rparr> ip_demo =
      (case rx IcmpProto sl (ih_src (fst (ip_header2data h [1, 2, 3, 4])))
          (ih_dst (fst (ip_header2data h [1, 2, 3, 4]))) 0 ip_demo of
         (Some (Err m), st1) \<Rightarrow> (None, st1) | (e, st1) \<Rightarrow> (e, st1))"
    by (rule ip_Rx_dispatches)
       (simp_all add: ip_protos_ok_def ip_demo_def read h_def ip_header2data_def demo_header_def
          ip_header_zero_def ProtoICMP_def Let_def)
  then show ?thesis by (auto simp: rx_def)
qed

text \<open>A packet sent on the loopback device is queued for the IP handler and dropped there: the
  device keeps no interface, so the turn of the handler leaves the state as it was before the
  packet was sent.\<close>

theorem ip_loopback_drops:
  assumes "devices st ! d = Loopback l" "loop_flags l AND DeviceFlagUp > 0" "length packet \<le> 65535"
    and "proto_index ProtoTypeIP (protos st) = Some k" "k < length (protoBuffers st)"
    and "protoBuffers st ! k = []"
  shows "fst (DeviceOutput d packet ProtoTypeIP dst st) = None \<and>
    protoBuffers (snd (DeviceOutput d packet ProtoTypeIP dst st)) ! k \<noteq> [] \<and>
    ip_RxHandler rx k (snd (DeviceOutput d packet ProtoTypeIP dst st)) = (None, st)"
proof -
  have len: "\<not> (0xffff :: u16) < of_nat (length packet)"
    using assms(3) by (simp add: word_less_nat_alt unat_of_nat not_less)
  have out: "DeviceOutput d packet ProtoTypeIP dst st =
      (None, st\<lparr>protoBuffers := (protoBuffers st)[k := [\<lparr>pb_data = Heap packet, pb_dev = d\<rparr>]]\<rparr>)"
    using assms len
    by (simp add: DeviceOutput_def isUp_def dev_TxHandler_defs DeviceInputHandler_def ProtoBufferSize_def)
  have "(protoBuffers st)[k := []] = protoBuffers st"
    using assms(6) by (metis list_update_id)
  then have same: "st\<lparr>protoBuffers := (protoBuffers st)[k := []]\<rparr> = st" by simp
  have "ip_Rx_packet rx \<lparr>pb_data = Heap packet, pb_dev = d\<rparr> st = (None, st)"
    by (auto simp: ip_Rx_packet_def assms(1) Let_def split: sum.splits)
  then show ?thesis
    using assms(5) same by (simp add: out ip_RxHandler_def)
qed

theorem ip_loopback_drops_witness:
  "ip_RxHandler (\<lambda>p sl src dst i st. (Some Panic, st)) 0
     (snd (DeviceOutput 1 demo_packet ProtoTypeIP None ip_demo)) = (None, ip_demo)"
proof -
  have "length demo_packet \<le> 65535"
    by (simp add: demo_packet_def ip_header2data_def Let_def)
  then show ?thesis
    using ip_loopback_drops [of ip_demo 1 "\<lparr>loop_name = ''loop0'', loop_flags = 0x11\<rparr>" demo_packet 0 None
        "\<lambda>p sl src dst i st. (Some Panic, st)"]
    by (simp add: ip_demo_def DeviceFlagUp_def)
qed

end
