(* ===== verification/Arp.thy ===== *)
theory Arp
  imports ArpHeader Ip
begin

text \<open>
  The package \<open>arp\<close> (\<open>pkg/arp\<close>): the cache of resolved addresses (\<open>cache.go\<close>), its timer
  (\<open>timer.go\<close>), and the protocol (\<open>protocol.go\<close>): replies and requests, \<open>Resolve\<close>, which IP calls
  for the address of a next hop, and the receive handler.
\<close>

section \<open>The cache\<close>

definition cacheSize :: nat where "cacheSize = 32"

datatype cache_state = CacheFree | CacheImcomplete | CacheResolved | CacheStatic

record cache_entry =
  ce_state :: cache_state
  ce_pa :: u32
  ce_ha :: ether_addr
  ce_timeval :: int

definition cache_entry_zero :: cache_entry where
  "cache_entry_zero = \<lparr>ce_state = CacheFree, ce_pa = 0, ce_ha = EtherAddrAny, ce_timeval = 0\<rparr>"

record arp_state = ip_state +
  caches :: "cache_entry list"

text \<open>\<open>oldest\<close> starts as the zero entry, whose time is Go's zero time.\<close>

fun cacheAlloc_loop :: "nat \<Rightarrow> cache_entry list \<Rightarrow> nat \<Rightarrow> cache_entry \<Rightarrow> nat" where
  "cacheAlloc_loop i [] idx oldest = idx"
| "cacheAlloc_loop i (cache # cs) idx oldest =
     (if ce_state cache = CacheFree then i
      else if ce_timeval oldest > ce_timeval cache then cacheAlloc_loop (i + 1) cs i cache
      else cacheAlloc_loop (i + 1) cs idx oldest)"

definition cacheAlloc :: "'a arp_state_scheme \<Rightarrow> nat" where
  "cacheAlloc st = cacheAlloc_loop 0 (caches st) 0 cache_entry_zero"

definition cacheInsert :: "u32 \<Rightarrow> ether_addr \<Rightarrow> 'a arp_state_scheme \<Rightarrow> 'a arp_state_scheme" where
  "cacheInsert pa ha st =
     st\<lparr>caches := (caches st)[cacheAlloc st :=
       \<lparr>ce_state = CacheResolved, ce_pa = pa, ce_ha = ha, ce_timeval = now st\<rparr>]\<rparr>"

fun cacheSelect_loop :: "nat \<Rightarrow> u32 \<Rightarrow> cache_entry list \<Rightarrow> error + nat" where
  "cacheSelect_loop i pa [] = Inl (Err ''cache not found'')"
| "cacheSelect_loop i pa (cache # cs) =
     (if ce_state cache \<noteq> CacheFree \<and> ce_pa cache = pa then Inr i
      else cacheSelect_loop (i + 1) pa cs)"

definition cacheSelect :: "u32 \<Rightarrow> 'a arp_state_scheme \<Rightarrow> error + nat" where
  "cacheSelect pa st = cacheSelect_loop 0 pa (caches st)"

definition cacheUpdate :: "u32 \<Rightarrow> ether_addr \<Rightarrow> 'a arp_state_scheme \<Rightarrow> bool \<times> 'a arp_state_scheme" where
  "cacheUpdate pa ha st =
     (case cacheSelect pa st of
        Inl e \<Rightarrow> (False, st)
      | Inr i \<Rightarrow> (True, st\<lparr>caches := (caches st)[i :=
          \<lparr>ce_state = CacheResolved, ce_pa = pa, ce_ha = ha, ce_timeval = now st\<rparr>]\<rparr>))"

definition cacheDelete :: "int \<Rightarrow> 'a arp_state_scheme \<Rightarrow> error option \<times> 'a arp_state_scheme" where
  "cacheDelete i st =
     (if i < 0 \<or> i \<ge> int cacheSize then (Some (Err ''cache table index out of range''), st)
      else (None, st\<lparr>caches := (caches st)[nat i := cache_entry_zero]\<rparr>))"

text \<open>One round of the timer, which ranges over a copy of the array.\<close>

definition cacheTimeout :: int where "cacheTimeout = 30 * 1000000000"

fun arp_timer_loop :: "nat \<Rightarrow> cache_entry list \<Rightarrow> 'a arp_state_scheme \<Rightarrow> 'a arp_state_scheme" where
  "arp_timer_loop i [] st = st"
| "arp_timer_loop i (cache # cs) st =
     arp_timer_loop (i + 1) cs
       (if ce_state cache \<noteq> CacheFree \<and> ce_timeval cache + cacheTimeout < now st
        then snd (cacheDelete (int i) st) else st)"

definition arp_timer :: "'a arp_state_scheme \<Rightarrow> 'a arp_state_scheme" where
  "arp_timer st = arp_timer_loop 0 (caches st) st"

section \<open>The protocol\<close>

definition arp_Init :: "'a arp_state_scheme \<Rightarrow> error option \<times> 'a arp_state_scheme" where
  "arp_Init st = (None, net_ProtoRegister ArpProto st)"

definition arp_send ::
    "u16 \<Rightarrow> ether_addr \<Rightarrow> u32 \<Rightarrow> ether_addr \<Rightarrow> nat \<Rightarrow> 'a arp_state_scheme \<Rightarrow>
     error option \<times> 'a arp_state_scheme" where
  "arp_send op tha tpa dst i st =
     (case if_dev (ifaces st ! i) of
        None \<Rightarrow> (Some (Err ''arp only supports EthernetDevice''), st)
      | Some d \<Rightarrow>
          (case devices st ! d of
             Ether e \<Rightarrow>
               (let rep = \<lparr>ah_hrd = arpHrdEther, ah_pro = arpProIP, ah_hln = 6, ah_pln = 4,
                     ah_op = op, ah_sha = e_addr e, ah_spa = if_unicast (ifaces st ! i),
                     ah_tha = tha, ah_tpa = tpa\<rparr>
                in DeviceOutput d (arp_header2data rep) ProtoTypeArp (Some dst) st)
           | _ \<Rightarrow> (Some (Err ''arp only supports EthernetDevice''), st)))"

definition arp_Reply ::
    "nat \<Rightarrow> ether_addr \<Rightarrow> u32 \<Rightarrow> ether_addr \<Rightarrow> 'a arp_state_scheme \<Rightarrow>
     error option \<times> 'a arp_state_scheme" where
  "arp_Reply i tha tpa dst st = arp_send arpOpReply tha tpa dst i st"

definition arp_Request :: "nat \<Rightarrow> u32 \<Rightarrow> 'a arp_state_scheme \<Rightarrow> error option \<times> 'a arp_state_scheme" where
  "arp_Request i tpa st = arp_send arpOpRequest EtherAddrAny tpa EtherAddrBroadcast i st"

definition arp_Resolve ::
    "nat \<Rightarrow> u32 \<Rightarrow> 'a arp_state_scheme \<Rightarrow> (error + ether_addr) \<times> 'a arp_state_scheme" where
  "arp_Resolve i pa st =
     (case if_dev (ifaces st ! i) of
        None \<Rightarrow> (Inl Panic, st)
      | Some d \<Rightarrow>
          if dev_Type (devices st ! d) \<noteq> DeviceTypeEther
          then (Inl (Err ''unsupported hardware address type''), st)
          else
           (case cacheSelect pa st of
              Inl err \<Rightarrow>
                (let st1 = st\<lparr>caches := (caches st)[cacheAlloc st :=
                       \<lparr>ce_state = CacheImcomplete, ce_pa = pa, ce_ha = EtherAddrAny,
                        ce_timeval = now st\<rparr>]\<rparr>
                 in (Inl err, snd (arp_Request i pa st1)))
            | Inr index \<Rightarrow>
                if ce_state (caches st ! index) = CacheImcomplete
                then (Inl (Err ''cache state is imcomplete''), snd (arp_Request i pa st))
                else (Inr (ce_ha (caches st ! index)), st)))"

text \<open>One turn of the receive handler. A message that does not decode is logged and handled as the
  zero header; a message for another host ends the handler (\<open>Stopped\<close>), which never runs again.\<close>

datatype turn = Continue | Stopped

definition arp_Rx_packet :: "proto_buffer \<Rightarrow> 'a arp_state_scheme \<Rightarrow> turn \<times> 'a arp_state_scheme" where
  "arp_Rx_packet pb st =
     (let hdr = (case arp_data2header (slice_bytes st (pb_data pb)) of
                   Inl e \<Rightarrow> arp_ether_zero | Inr h \<Rightarrow> h);
          (merge, st1) = cacheUpdate (ah_spa hdr) (ah_sha hdr) st
      in case GetIface st1 (pb_dev pb) IfaceFamilyIP of
           Inl e \<Rightarrow> (Stopped, st1)
         | Inr i \<Rightarrow>
             if if_unicast (ifaces st1 ! i) \<noteq> ah_tpa hdr then (Stopped, st1)
             else
              (let st2 = (if \<not> merge then cacheInsert (ah_spa hdr) (ah_sha hdr) st1 else st1)
               in if ah_op hdr = arpOpRequest
                  then (Continue, snd (arp_Reply i (ah_sha hdr) (ah_spa hdr) (ah_sha hdr) st2))
                  else (Continue, st2)))"

definition arp_RxHandler :: "nat \<Rightarrow> 'a arp_state_scheme \<Rightarrow> turn \<times> 'a arp_state_scheme" where
  "arp_RxHandler k st =
     (case protoBuffers st ! k of
        [] \<Rightarrow> (Continue, st)
      | pb # rest \<Rightarrow> arp_Rx_packet pb (st\<lparr>protoBuffers := (protoBuffers st)[k := rest]\<rparr>))"

section \<open>The cache as a partial map\<close>

text \<open>What the cache says of a protocol address: \<open>Resolve\<close> answers from this map.\<close>

definition arp_view :: "'a arp_state_scheme \<Rightarrow> u32 \<Rightarrow> ether_addr option" where
  "arp_view st pa =
     (case cacheSelect pa st of
        Inl e \<Rightarrow> None
      | Inr i \<Rightarrow> if ce_state (caches st ! i) = CacheImcomplete then None else Some (ce_ha (caches st ! i)))"

definition ce_holds :: "u32 \<Rightarrow> cache_entry \<Rightarrow> bool" where
  "ce_holds pa c \<longleftrightarrow> ce_state c \<noteq> CacheFree \<and> ce_pa c = pa"

text \<open>At most one entry in use holds an address; the table has its 32 entries.\<close>

definition cache_unique :: "cache_entry list \<Rightarrow> bool" where
  "cache_unique cs \<longleftrightarrow>
     (\<forall>i < length cs. \<forall>j < length cs.
        ce_state (cs ! i) \<noteq> CacheFree \<and> ce_state (cs ! j) \<noteq> CacheFree \<and> ce_pa (cs ! i) = ce_pa (cs ! j)
        \<longrightarrow> i = j)"

definition arp_ok :: "'a arp_state_scheme \<Rightarrow> bool" where
  "arp_ok st \<longleftrightarrow> length (caches st) = cacheSize \<and> cache_unique (caches st)"

lemma cacheSelect_loop_Inr:
  "cacheSelect_loop k pa cs = Inr i \<Longrightarrow>
     k \<le> i \<and> i - k < length cs \<and> ce_holds pa (cs ! (i - k))"
proof (induction cs arbitrary: k)
  case (Cons c cs)
  show ?case
  proof (cases "ce_state c \<noteq> CacheFree \<and> ce_pa c = pa")
    case False
    with Cons.prems have "cacheSelect_loop (k + 1) pa cs = Inr i" by auto
    from Cons.IH [OF this] have *: "k + 1 \<le> i" "i - (k + 1) < length cs" "ce_holds pa (cs ! (i - (k + 1)))"
      by blast+
    then have "i - k = Suc (i - (k + 1))" by simp
    with * show ?thesis by simp
  qed (use Cons.prems in \<open>auto simp: ce_holds_def\<close>)
qed simp

lemma cacheSelect_loop_Inl:
  "cacheSelect_loop k pa cs = Inl e \<longleftrightarrow>
     e = Err ''cache not found'' \<and> (\<forall>c \<in> set cs. \<not> ce_holds pa c)"
  by (induction cs arbitrary: k) (auto simp: ce_holds_def)

lemma cacheSelect_Inr:
  assumes "cacheSelect pa st = Inr i"
  shows "i < length (caches st)" "ce_holds pa (caches st ! i)"
  using cacheSelect_loop_Inr [of 0 pa "caches st" i] assms by (auto simp: cacheSelect_def)

lemma cacheSelect_Inl:
  "cacheSelect pa st = Inl e \<longleftrightarrow> e = Err ''cache not found'' \<and> (\<forall>c \<in> set (caches st). \<not> ce_holds pa c)"
  by (simp add: cacheSelect_def cacheSelect_loop_Inl)

lemma cacheSelect_unique:
  assumes "cache_unique (caches st)" "i < length (caches st)" "ce_holds pa (caches st ! i)"
  shows "cacheSelect pa st = Inr i"
proof (cases "cacheSelect pa st")
  case (Inl e)
  with assms(2,3) show ?thesis by (auto simp: cacheSelect_Inl)
next
  case (Inr j)
  with cacheSelect_Inr [OF Inr] assms show ?thesis
    by (auto simp: cache_unique_def ce_holds_def)
qed

lemma cacheSelect_cong: "caches st = caches st' \<Longrightarrow> cacheSelect pa st = cacheSelect pa st'"
  by (simp add: cacheSelect_def)

lemma arp_view_cong: "caches st = caches st' \<Longrightarrow> arp_view st pa = arp_view st' pa"
  by (simp add: arp_view_def cacheSelect_def split: sum.split)

text \<open>The entry the allocation picks: a free one if there is one; otherwise the first, unless the clock
  of an entry lies before Go's zero time.\<close>

lemma cacheAlloc_loop_free:
  "\<exists>c \<in> set cs. ce_state c = CacheFree \<Longrightarrow>
     \<exists>n < length cs. cacheAlloc_loop k cs idx old = k + n \<and> ce_state (cs ! n) = CacheFree"
proof (induction cs arbitrary: k idx old)
  case (Cons c cs)
  show ?case
  proof (cases "ce_state c = CacheFree")
    case False
    then have ex: "\<exists>c \<in> set cs. ce_state c = CacheFree" using Cons.prems by auto
    define idx' old' where "idx' = (if ce_timeval old > ce_timeval c then k else idx)"
      and "old' = (if ce_timeval old > ce_timeval c then c else old)"
    from Cons.IH [OF ex, of "k + 1" idx' old'] obtain n where
      "n < length cs" "cacheAlloc_loop (k + 1) cs idx' old' = k + 1 + n" "ce_state (cs ! n) = CacheFree"
      by blast
    with False show ?thesis
      by (intro exI [of _ "Suc n"]) (simp add: idx'_def old'_def split: if_splits)
  qed auto
qed simp

lemma cacheAlloc_loop_full:
  "\<forall>c \<in> set cs. ce_state c \<noteq> CacheFree \<and> ce_timeval old \<le> ce_timeval c \<Longrightarrow>
     cacheAlloc_loop k cs idx old = idx"
  by (induction cs arbitrary: k) auto

lemma cacheAlloc_loop_less: "idx < m \<Longrightarrow> k + length cs \<le> m \<Longrightarrow> cacheAlloc_loop k cs idx old < m"
  by (induction cs arbitrary: k idx old) auto

lemma cacheAlloc_less: "caches st \<noteq> [] \<Longrightarrow> cacheAlloc st < length (caches st)"
  by (simp add: cacheAlloc_def cacheAlloc_loop_less)

lemma cacheAlloc_free:
  assumes "\<exists>c \<in> set (caches st). ce_state c = CacheFree"
  shows "ce_state (caches st ! cacheAlloc st) = CacheFree"
  using cacheAlloc_loop_free [OF assms, of 0 0 cache_entry_zero] by (auto simp: cacheAlloc_def)

lemma cacheAlloc_full:
  assumes "\<forall>c \<in> set (caches st). ce_state c \<noteq> CacheFree \<and> 0 \<le> ce_timeval c"
  shows "cacheAlloc st = 0"
  using assms by (simp add: cacheAlloc_def cacheAlloc_loop_full cache_entry_zero_def)

section \<open>What each operation does to the map\<close>

lemma cache_unique_update:
  assumes "cache_unique cs"
    and "\<And>j. j < length cs \<Longrightarrow> j \<noteq> i \<Longrightarrow> \<not> ce_holds (ce_pa c) (cs ! j)"
  shows "cache_unique (cs[i := c])"
proof -
  have other: "ce_state (cs ! j) = CacheFree \<or> ce_pa (cs ! j) \<noteq> ce_pa c"
    if "j < length cs" "j \<noteq> i" for j
    using assms(2) [OF that] by (simp add: ce_holds_def)
  show ?thesis
    unfolding cache_unique_def
  proof (intro allI impI, elim conjE)
    fix a b
    assume "a < length (cs[i := c])" "b < length (cs[i := c])"
      and "ce_state (cs[i := c] ! a) \<noteq> CacheFree" "ce_state (cs[i := c] ! b) \<noteq> CacheFree"
      and "ce_pa (cs[i := c] ! a) = ce_pa (cs[i := c] ! b)"
    note h = this
    show "a = b"
    proof (cases "a = i")
      case True
      with h other [of b] show ?thesis by (cases "b = i") auto
    next
      case False
      with h other [of a] have "b \<noteq> i" by auto
      with False h assms(1) show ?thesis by (simp add: cache_unique_def)
    qed
  qed
qed

lemma cache_unique_zero: "cache_unique cs \<Longrightarrow> cache_unique (cs[i := cache_entry_zero])"
  by (auto simp: cache_unique_def nth_list_update_if cache_entry_zero_def)

text \<open>Writing an entry for an address no other entry holds.\<close>

lemma arp_view_write:
  assumes ok: "arp_ok st" and i: "i < length (caches st)" and c: "ce_state c \<noteq> CacheFree"
    and others: "\<And>j. j < length (caches st) \<Longrightarrow> j \<noteq> i \<Longrightarrow> \<not> ce_holds (ce_pa c) (caches st ! j)"
    and st': "caches st' = (caches st)[i := c]"
  shows "arp_ok st'"
    and "arp_view st' pa =
      (if pa = ce_pa c then (if ce_state c = CacheImcomplete then None else Some (ce_ha c))
       else if ce_holds pa (caches st ! i) then None else arp_view st pa)"
proof -
  show ok': "arp_ok st'"
    using ok others by (simp add: arp_ok_def st' cache_unique_update)
  then have uniq: "cache_unique (caches st')" by (simp add: arp_ok_def)
  have uniq0: "cache_unique (caches st)" using ok by (simp add: arp_ok_def)
  show "arp_view st' pa =
      (if pa = ce_pa c then (if ce_state c = CacheImcomplete then None else Some (ce_ha c))
       else if ce_holds pa (caches st ! i) then None else arp_view st pa)"
  proof (cases "pa = ce_pa c")
    case True
    then have "cacheSelect pa st' = Inr i"
      using c i by (intro cacheSelect_unique [OF uniq]) (simp_all add: st' ce_holds_def)
    with True i show ?thesis by (simp add: arp_view_def st')
  next
    case False
    show ?thesis
    proof (cases "cacheSelect pa st")
      case (Inl e)
      then have none: "\<not> ce_holds pa (caches st ! j)" if "j < length (caches st)" for j
        using that by (simp add: cacheSelect_Inl)
      have "cacheSelect pa st' = Inl e"
        using Inl none False
        by (auto simp: cacheSelect_Inl st' ce_holds_def dest!: set_update_subset_insert [THEN subsetD])
      with Inl False none [OF i] show ?thesis by (simp add: arp_view_def)
    next
      case (Inr j)
      note j = cacheSelect_Inr [OF Inr]
      show ?thesis
      proof (cases "j = i")
        case True
        have "\<not> ce_holds pa x" if "x \<in> set (caches st')" for x
        proof
          assume h: "ce_holds pa x"
          from that obtain k where k: "k < length (caches st)" "x = (caches st)[i := c] ! k"
            by (auto simp: st' in_set_conv_nth)
          then have "k \<noteq> i" using h False by (auto simp: ce_holds_def)
          then have "ce_holds pa (caches st ! k)" using h k by simp
          with \<open>k \<noteq> i\<close> k(1) j True uniq0 show False by (auto simp: cache_unique_def ce_holds_def)
        qed
        then have "cacheSelect pa st' = Inl (Err ''cache not found'')"
          by (simp add: cacheSelect_Inl)
        with True j False show ?thesis by (simp add: arp_view_def)
      next
        case ne: False
        then have "cacheSelect pa st' = Inr j"
          using j by (intro cacheSelect_unique [OF uniq]) (simp_all add: st')
        moreover have "\<not> ce_holds pa (caches st ! i)"
          using ne i j uniq0 by (auto simp: cache_unique_def ce_holds_def)
        ultimately show ?thesis using Inr False ne by (simp add: arp_view_def st')
      qed
    qed
  qed
qed

text \<open>\<open>Rx\<close> updates the entry of the sender, or inserts one: on the map this is one assignment, and an
  insertion in a full table gives up the address of the entry it takes.\<close>

definition arp_learn :: "u32 \<Rightarrow> ether_addr \<Rightarrow> 'a arp_state_scheme \<Rightarrow> 'a arp_state_scheme" where
  "arp_learn pa ha st =
     (case cacheUpdate pa ha st of (merge, st1) \<Rightarrow> if merge then st1 else cacheInsert pa ha st1)"

lemma arp_ok_nonempty: "arp_ok st \<Longrightarrow> caches st \<noteq> []"
  by (auto simp: arp_ok_def cacheSize_def)

lemma arp_learn_spec:
  assumes "arp_ok st"
  shows "arp_ok (arp_learn pa ha st)"
    and "arp_view (arp_learn pa ha st) q =
      (if q = pa then Some ha
       else if (\<forall>c \<in> set (caches st). \<not> ce_holds pa c) \<and> ce_holds q (caches st ! cacheAlloc st) then None
       else arp_view st q)"
proof -
  define c where "c = \<lparr>ce_state = CacheResolved, ce_pa = pa, ce_ha = ha, ce_timeval = now st\<rparr>"
  have "arp_ok (arp_learn pa ha st) \<and> arp_view (arp_learn pa ha st) q =
      (if q = pa then Some ha
       else if (\<forall>c \<in> set (caches st). \<not> ce_holds pa c) \<and> ce_holds q (caches st ! cacheAlloc st) then None
       else arp_view st q)"
  proof (cases "cacheSelect pa st")
    case (Inl e)
    then have none: "\<forall>c \<in> set (caches st). \<not> ce_holds pa c" by (simp add: cacheSelect_Inl)
    have i: "cacheAlloc st < length (caches st)"
      by (rule cacheAlloc_less [OF arp_ok_nonempty [OF assms]])
    have st': "caches (arp_learn pa ha st) = (caches st)[cacheAlloc st := c]"
      by (simp add: arp_learn_def cacheUpdate_def Inl cacheInsert_def c_def)
    from arp_view_write [OF assms i _ _ st'] none show ?thesis by (auto simp: c_def)
  next
    case (Inr i)
    note i = cacheSelect_Inr [OF Inr]
    have st': "caches (arp_learn pa ha st) = (caches st)[i := c]"
      by (simp add: arp_learn_def cacheUpdate_def Inr c_def)
    have others: "\<not> ce_holds (ce_pa c) (caches st ! j)" if "j < length (caches st)" "j \<noteq> i" for j
      using that i assms by (auto simp: c_def arp_ok_def cache_unique_def ce_holds_def)
    have "\<not> (\<forall>c \<in> set (caches st). \<not> ce_holds pa c)" using i nth_mem by blast
    moreover have "q \<noteq> pa \<Longrightarrow> \<not> ce_holds q (caches st ! i)" using i by (simp add: ce_holds_def)
    ultimately show ?thesis
      using arp_view_write(1) [OF assms i(1) _ others st'] arp_view_write(2) [OF assms i(1) _ others st', of q]
      by (auto simp: c_def)
  qed
  then show "arp_ok (arp_learn pa ha st)" and "arp_view (arp_learn pa ha st) q =
      (if q = pa then Some ha
       else if (\<forall>c \<in> set (caches st). \<not> ce_holds pa c) \<and> ce_holds q (caches st ! cacheAlloc st) then None
       else arp_view st q)" by blast+
qed

lemma arp_timer_loop_eq:
  assumes "k + length cs = length (caches st)" "length (caches st) = cacheSize"
    and "drop k (caches st) = cs"
  shows "arp_timer_loop k cs st = st\<lparr>caches := take k (caches st) @ map
     (\<lambda>c. if ce_state c \<noteq> CacheFree \<and> ce_timeval c + cacheTimeout < now st then cache_entry_zero else c) cs\<rparr>"
  using assms
proof (induction cs arbitrary: k st)
  case (Cons c cs)
  define st1 where "st1 = (if ce_state c \<noteq> CacheFree \<and> ce_timeval c + cacheTimeout < now st
        then snd (cacheDelete (int k) st) else st)"
  define c1 where "c1 = (if ce_state c \<noteq> CacheFree \<and> ce_timeval c + cacheTimeout < now st
        then cache_entry_zero else c)"
  have k: "k < length (caches st)" "caches st ! k = c" "drop (Suc k) (caches st) = cs"
    using Cons.prems by (auto simp: nth_via_drop dest: sym) (metis drop_Suc drop_tl list.sel(3))
  have st1: "st1 = st\<lparr>caches := (caches st)[k := c1]\<rparr>"
    using k Cons.prems by (auto simp: st1_def c1_def cacheDelete_def list_update_id)
  have "arp_timer_loop (k + 1) cs st1 = st1\<lparr>caches := take (k + 1) (caches st1) @ map
     (\<lambda>c. if ce_state c \<noteq> CacheFree \<and> ce_timeval c + cacheTimeout < now st1 then cache_entry_zero else c) cs\<rparr>"
    using Cons.prems k by (intro Cons.IH) (simp_all add: st1)
  then show ?case
    using k by (simp add: st1_def [symmetric] st1 take_Suc_conv_app_nth c1_def)
qed simp

lemma arp_timer_eq:
  assumes "length (caches st) = cacheSize"
  shows "arp_timer st = st\<lparr>caches := map
     (\<lambda>c. if ce_state c \<noteq> CacheFree \<and> ce_timeval c + cacheTimeout < now st then cache_entry_zero else c)
     (caches st)\<rparr>"
  using arp_timer_loop_eq [of 0 "caches st" st] assms by (simp add: arp_timer_def)

section \<open>The contract of the table of addresses\<close>

text \<open>What the layers above rely on: the table answers with the address it was told last, and learning
  one address never makes it answer differently for another one, though it may forget that one.\<close>

locale address_table =
  fixes learn :: "u32 \<Rightarrow> ether_addr \<Rightarrow> 's \<Rightarrow> 's"
    and view :: "'s \<Rightarrow> u32 \<Rightarrow> ether_addr option"
    and ok :: "'s \<Rightarrow> bool"
  assumes learn_ok: "ok s \<Longrightarrow> ok (learn pa ha s)"
    and view_learn: "ok s \<Longrightarrow> view (learn pa ha s) pa = Some ha"
    and view_other: "ok s \<Longrightarrow> q \<noteq> pa \<Longrightarrow> view (learn pa ha s) q = Some h \<Longrightarrow> view s q = Some h"
begin

lemma fold_ok: "ok s \<Longrightarrow> ok (fold (\<lambda>(pa, ha). learn pa ha) ms s)"
  by (induction ms arbitrary: s) (auto simp: learn_ok)

text \<open>An answer is the last announcement of that address.\<close>

lemma fold_sound:
  "ok s \<Longrightarrow> view (fold (\<lambda>(pa, ha). learn pa ha) ms s) q = Some h \<Longrightarrow>
     (case map_of (rev ms) q of Some h' \<Rightarrow> h = h' | None \<Rightarrow> view s q = Some h)"
proof (induction ms rule: rev_induct)
  case (snoc m ms)
  obtain pa ha where m: "m = (pa, ha)" by force
  define s' where "s' = fold (\<lambda>(pa, ha). learn pa ha) ms s"
  have ok': "ok s'" unfolding s'_def by (rule fold_ok) (rule snoc.prems(1))
  have v: "view (learn pa ha s') q = Some h" using snoc.prems(2) by (simp add: m s'_def)
  show ?case
  proof (cases "q = pa")
    case True
    then show ?thesis using v view_learn [OF ok'] by (simp add: m)
  next
    case False
    then have "view s' q = Some h" using view_other [OF ok' _ v] by simp
    with snoc.IH snoc.prems(1) False show ?thesis by (simp add: m s'_def)
  qed
qed simp

lemma fold_last: "ok s \<Longrightarrow> view (fold (\<lambda>(pa, ha). learn pa ha) (ms @ [(q, h)]) s) q = Some h"
  by (simp add: fold_ok view_learn)

end

interpretation arp_table: address_table arp_learn arp_view arp_ok
  by unfold_locales (auto simp: arp_learn_spec split: if_splits)

section \<open>What the protocol does\<close>

lemma arp_send_ip_kept: "ip_kept st (snd (arp_send op tha tpa dst i st))"
  by (auto simp: arp_send_def Let_def DeviceOutput_ip_kept split: option.split device.split)

lemma arp_send_net_ok: "net_ok st \<Longrightarrow> net_ok (snd (arp_send op tha tpa dst i st))"
  by (auto simp: arp_send_def Let_def DeviceOutput_net_ok split: option.split device.split)

lemma arp_send_caches: "caches (snd (arp_send op tha tpa dst i st)) = caches st"
proof -
  have "caches (snd (DeviceOutput d data t dst st)) = caches st" for d data t dst
    using DeviceOutput_updates [of d data t dst st] by auto
  then show ?thesis
    by (auto simp: arp_send_def Let_def split: option.split device.split)
qed

lemma set_caches_kept [simp]: "ip_kept st (st\<lparr>caches := cs\<rparr>)" "net_ok (st\<lparr>caches := cs\<rparr>) = net_ok st"
  by (simp_all add: ip_kept_def net_kept_def list.rel_refl net_ok_def dev_ok_def)

text \<open>\<open>Resolve\<close> meets what \<open>ip.TxHandler\<close> asks of its resolver.\<close>

interpretation arp_resolver: resolver arp_Resolve
proof (unfold_locales, goal_cases)
  case (1 st i pa)
  show ?case
    by (auto simp: arp_Resolve_def arp_Request_def Let_def split: option.split sum.split
        intro: arp_send_ip_kept ip_kept_trans [OF _ arp_send_ip_kept])
next
  case (2 st i pa)
  then show ?case
    by (auto simp: arp_Resolve_def arp_Request_def Let_def split: option.split sum.split
        intro!: arp_send_net_ok)
next
  case (3 i pa st ha st')
  then show ?case
    by (auto simp: arp_Resolve_def Let_def split: option.splits sum.splits if_splits)
qed

interpretation arp_upper: upper_layer arp_Resolve arp_state.more
proof (unfold_locales, goal_cases)
  case (3 i pa st)
  have "arp_state.more (snd (arp_send op tha tpa dst j s)) = arp_state.more s"
    for op tha tpa dst j and s :: "'a arp_state_scheme"
  proof -
    have "arp_state.more (snd (DeviceOutput d data t dst s)) = arp_state.more s" for d data t dst
      using DeviceOutput_updates [of d data t dst s] by auto
    then show ?thesis by (auto simp: arp_send_def Let_def split: option.split device.split)
  qed
  then show ?case
    by (simp add: arp_Resolve_def arp_Request_def Let_def split: option.split sum.split)
qed simp_all

lemma arp_Resolve_eq:
  assumes "if_dev (ifaces st ! i) = Some d" "dev_Type (devices st ! d) = DeviceTypeEther"
  shows "arp_view st pa = Some ha \<Longrightarrow> arp_Resolve i pa st = (Inr ha, st)"
    and "arp_view st pa = None \<Longrightarrow> \<exists>e. fst (arp_Resolve i pa st) = Inl (Err e)"
proof -
  have "e = Err ''cache not found''" if "cacheSelect pa st = Inl e" for e
    using that by (simp add: cacheSelect_Inl)
  then show "arp_view st pa = Some ha \<Longrightarrow> arp_Resolve i pa st = (Inr ha, st)"
    and "arp_view st pa = None \<Longrightarrow> \<exists>e. fst (arp_Resolve i pa st) = Inl (Err e)"
    using assms by (auto simp: arp_Resolve_def arp_view_def Let_def split: sum.splits if_splits)
qed

lemma arp_Resolve_arp_ok:
  assumes "arp_ok st"
  shows "arp_ok (snd (arp_Resolve i pa st))"
proof -
  have cong: "caches s' = caches s \<Longrightarrow> arp_ok s \<Longrightarrow> arp_ok s'" for s s' :: "'a arp_state_scheme"
    by (simp add: arp_ok_def)
  define c where "c = \<lparr>ce_state = CacheImcomplete, ce_pa = pa, ce_ha = EtherAddrAny, ce_timeval = now st\<rparr>"
  have "arp_ok (st\<lparr>caches := (caches st)[cacheAlloc st := c]\<rparr>)" if "cacheSelect pa st = Inl e" for e
  proof (rule arp_view_write(1) [OF assms])
    show "cacheAlloc st < length (caches st)"
      by (rule cacheAlloc_less [OF arp_ok_nonempty [OF assms]])
    show "\<not> ce_holds (ce_pa c) (caches st ! j)" if "j < length (caches st)" for j
      using that \<open>cacheSelect pa st = Inl e\<close> by (simp add: cacheSelect_Inl c_def)
  qed (simp_all add: c_def)
  then show ?thesis
    using assms
    by (auto simp: arp_Resolve_def arp_Request_def Let_def c_def
        intro!: cong [OF arp_send_caches] split: option.split sum.split)
qed

lemma arp_timer_arp_ok:
  assumes "arp_ok st"
  shows "arp_ok (arp_timer st)"
  using assms by (auto simp: arp_timer_eq arp_ok_def cache_unique_def cache_entry_zero_def)

lemma cacheDelete_arp_ok: "arp_ok st \<Longrightarrow> arp_ok (snd (cacheDelete i st))"
  by (simp add: cacheDelete_def arp_ok_def cache_unique_zero)

text \<open>One turn of the handler, by what it learns. For a message that is not for this host the address
  of the sender is only refreshed.\<close>

lemma GetIface_updates: "GetIface (st\<lparr>caches := cs\<rparr>) d f = GetIface st d f"
  by (simp add: GetIface_def)

lemma cacheUpdate_updates: "\<exists>cs. snd (cacheUpdate pa ha st) = st\<lparr>caches := cs\<rparr>"
  by (rule exI [of _ "caches (snd (cacheUpdate pa ha st))"])
     (simp add: cacheUpdate_def split: sum.split)

lemma arp_learn_updates: "\<exists>cs. arp_learn pa ha st = st\<lparr>caches := cs\<rparr>"
  by (rule exI [of _ "caches (arp_learn pa ha st)"])
     (simp add: arp_learn_def cacheUpdate_def cacheInsert_def split: sum.split)

lemma arp_Rx_packet_for_us:
  assumes "arp_data2header (slice_bytes st (pb_data pb)) = Inr h"
    and "GetIface st (pb_dev pb) IfaceFamilyIP = Inr i" "if_unicast (ifaces st ! i) = ah_tpa h"
  shows "arp_Rx_packet pb st =
    (Continue, if ah_op h = arpOpRequest
       then snd (arp_Reply i (ah_sha h) (ah_spa h) (ah_sha h) (arp_learn (ah_spa h) (ah_sha h) st))
       else arp_learn (ah_spa h) (ah_sha h) st)"
proof (cases "cacheUpdate (ah_spa h) (ah_sha h) st")
  case (Pair m st1)
  obtain cs where "st1 = st\<lparr>caches := cs\<rparr>"
    using cacheUpdate_updates [of "ah_spa h" "ah_sha h" st] Pair by auto
  with assms Pair show ?thesis
    by (simp add: arp_Rx_packet_def arp_learn_def GetIface_updates)
qed

lemma cacheUpdate_arp_ok:
  assumes "arp_ok st"
  shows "arp_ok (snd (cacheUpdate pa ha st))"
  using arp_learn_spec(1) [OF assms, of pa ha] assms
  by (cases "cacheSelect pa st") (simp_all add: arp_learn_def cacheUpdate_def)

lemma arp_Rx_packet_arp_ok:
  assumes "arp_ok st"
  shows "arp_ok (snd (arp_Rx_packet pb st))"
proof -
  define h where "h = (case arp_data2header (slice_bytes st (pb_data pb)) of
                   Inl e \<Rightarrow> arp_ether_zero | Inr h \<Rightarrow> h)"
  obtain m st1 where u: "cacheUpdate (ah_spa h) (ah_sha h) st = (m, st1)" by force
  have ok1: "arp_ok st1" using cacheUpdate_arp_ok [OF assms, of "ah_spa h" "ah_sha h"] u by simp
  have ok2: "arp_ok (if \<not> m then cacheInsert (ah_spa h) (ah_sha h) st1 else st1)"
    using arp_learn_spec(1) [OF assms, of "ah_spa h" "ah_sha h"] u
    by (cases m) (simp_all add: arp_learn_def)
  have ok3: "arp_ok (snd (arp_Reply i tha tpa dst s))" if "arp_ok s" for i tha tpa dst and s :: "'a arp_state_scheme"
    using that by (simp add: arp_ok_def arp_Reply_def arp_send_caches)
  show ?thesis
    using ok1 ok2 ok3 [OF ok2] unfolding arp_Rx_packet_def Let_def h_def [symmetric] u
    by (auto split: sum.split)
qed

text \<open>What a round of the timer leaves of the map: the entry of an address goes when it is older than thirty
  seconds.\<close>

lemma arp_timer_view:
  assumes "arp_ok st" "cacheSelect pa st = Inr i"
  shows "arp_view (arp_timer st) pa =
    (if ce_timeval (caches st ! i) + 30000000000 < now st then None else arp_view st pa)"
proof -
  define f where "f c = (if ce_state c \<noteq> CacheFree \<and> ce_timeval c + 30000000000 < now st
      then cache_entry_zero else c)" for c
  have eq: "arp_timer st = st\<lparr>caches := map f (caches st)\<rparr>"
    using arp_timer_eq [of st] assms(1) unfolding f_def arp_ok_def cacheTimeout_def by simp
  note i = cacheSelect_Inr [OF assms(2)]
  have uniq: "cache_unique (caches st)" using assms(1) by (simp add: arp_ok_def)
  have "arp_ok (arp_timer st)" by (rule arp_timer_arp_ok [OF assms(1)])
  then have uniq': "cache_unique (map f (caches st))" by (simp add: arp_ok_def eq)
  show ?thesis
  proof (cases "ce_timeval (caches st ! i) + 30000000000 < now st")
    case True
    have "\<not> ce_holds pa (f (caches st ! j))" if "j < length (caches st)" for j
      using that i True uniq by (auto simp: f_def ce_holds_def cache_unique_def cache_entry_zero_def)
    then have "\<forall>c \<in> set (map f (caches st)). \<not> ce_holds pa c"
      by (auto simp: in_set_conv_nth)
    then have "cacheSelect pa (arp_timer st) = Inl (Err ''cache not found'')"
      by (simp add: cacheSelect_Inl eq)
    with True show ?thesis by (simp add: arp_view_def)
  next
    case False
    then have "f (caches st ! i) = caches st ! i" by (simp add: f_def)
    then have "cacheSelect pa (arp_timer st) = Inr i"
      using i uniq' by (intro cacheSelect_unique) (simp_all add: eq)
    with False i(1) \<open>f (caches st ! i) = caches st ! i\<close> assms(2) show ?thesis
      by (simp add: arp_view_def eq)
  qed
qed

text \<open>What was learned is kept for thirty seconds.\<close>

lemma arp_learn_timer:
  assumes "arp_ok st" "caches st1 = caches (arp_learn pa ha st)"
  shows "arp_view (arp_timer (st1\<lparr>now := t\<rparr>)) pa = (if now st + 30000000000 < t then None else Some ha)"
proof -
  define s where "s = st1\<lparr>now := t\<rparr>"
  define c where "c = \<lparr>ce_state = CacheResolved, ce_pa = pa, ce_ha = ha, ce_timeval = now st\<rparr>"
  have s: "caches s = caches (arp_learn pa ha st)" "now s = t" by (simp_all add: s_def assms(2))
  have ok: "arp_ok s" using arp_learn_spec(1) [OF assms(1), of pa ha] by (simp add: arp_ok_def s)
  have alloc: "cacheAlloc st < length (caches st)"
    by (rule cacheAlloc_less [OF arp_ok_nonempty [OF assms(1)]])
  obtain i where i: "i < length (caches s)" "caches s ! i = c"
  proof (cases "cacheSelect pa st")
    case (Inl e)
    then show ?thesis
      using alloc by (intro that [of "cacheAlloc st"]) (simp_all add: s arp_learn_def cacheUpdate_def cacheInsert_def c_def)
  next
    case (Inr i)
    then show ?thesis
      using cacheSelect_Inr [OF Inr] by (intro that [of i]) (simp_all add: s arp_learn_def cacheUpdate_def c_def)
  qed
  have "cacheSelect pa s = Inr i"
    using ok i by (intro cacheSelect_unique) (simp_all add: arp_ok_def c_def ce_holds_def)
  from arp_timer_view [OF ok this] i arp_learn_spec(2) [OF assms(1), of pa ha pa]
    arp_view_cong [OF s(1), of pa] show ?thesis
    unfolding s_def [symmetric] by (simp add: s(2) c_def)
qed

section \<open>Properties\<close>

text \<open>C23. The cache stays well formed, with at most one entry in use for an address, under every
  operation: resolving, deleting, a round of the timer, and a turn of the receive handler on any
  bytes.\<close>

theorem arp_cache_invariant:
  assumes "arp_ok st"
  shows "arp_ok (snd (arp_Resolve i pa st)) \<and> arp_ok (snd (cacheUpdate pa ha st)) \<and>
    arp_ok (snd (cacheDelete j st)) \<and> arp_ok (arp_timer st) \<and> arp_ok (snd (arp_Rx_packet pb st))"
  using arp_Resolve_arp_ok [OF assms] cacheUpdate_arp_ok [OF assms] cacheDelete_arp_ok [OF assms]
    arp_timer_arp_ok [OF assms] arp_Rx_packet_arp_ok [OF assms] by blast

definition arp_demo :: arp_state where
  "arp_demo = \<lparr>devices = [Ether (demo_ether\<lparr>e_interfaces := [0]\<rparr>)], interfaces = [0],
     ifaces = [\<lparr>if_dev = Some 0, if_unicast = 0xc0000202, if_netmask = 0xffffff00, if_broadcast = 0xc00002ff\<rparr>],
     protos = [IProto, ArpProto], protoBuffers = [[], []], now = 60000000000,
     routes = [], ip_id = 0, ip_protos = [], caches = replicate 32 cache_entry_zero\<rparr>"

lemma arp_demo_ok: "arp_ok arp_demo"
  by (simp add: arp_ok_def arp_demo_def cacheSize_def cache_unique_def cache_entry_zero_def)

theorem arp_cache_invariant_witness:
  "arp_ok (snd (arp_Rx_packet \<lparr>pb_data = Heap [], pb_dev = 0\<rparr> arp_demo)) \<and>
   arp_ok (snd (arp_Resolve 0 0xc0000201 arp_demo))"
  using arp_cache_invariant [OF arp_demo_ok] by blast

text \<open>C22. Between evictions the cache is a map: after any sequence of announcements it answers an
  announced address with the last hardware address announced for it and any other address as
  before, or not at all; right after an announcement it does answer.\<close>

theorem arp_cache_last_announcement:
  assumes "arp_ok st"
  shows "arp_view (fold (\<lambda>(pa, ha). arp_learn pa ha) (ms @ [(pa, ha)]) st) pa = Some ha \<and>
    (arp_view (fold (\<lambda>(pa, ha). arp_learn pa ha) ms st) q = Some h \<longrightarrow>
       (case map_of (rev ms) q of Some h' \<Rightarrow> h = h' | None \<Rightarrow> arp_view st q = Some h))"
  using arp_table.fold_last [OF assms] arp_table.fold_sound [OF assms] by blast

theorem arp_cache_last_announcement_witness:
  "arp_view (fold (\<lambda>(pa, ha). arp_learn pa ha)
     ([(1, EtherAddrAny), (1, EtherAddrBroadcast)] @ [(2, EtherAddrAny)]) arp_demo) 2 = Some EtherAddrAny"
  using arp_cache_last_announcement [OF arp_demo_ok] by blast

lemma arp_send_frame:
  assumes "if_dev (ifaces st ! i) = Some d" "devices st ! d = Ether e" "e_flags e AND DeviceFlagUp > 0"
    and "\<not> f_closed (e_file e)" "\<not> f_fails (e_file e)"
  shows "\<exists>frame. snd (arp_send op tha tpa dst i st) = st\<lparr>devices := (devices st)[d := Ether (e\<lparr>e_file := (e_file e)
             \<lparr>f_out := f_out (e_file e) @ [frame]\<rparr>\<rparr>)]\<rparr> \<and>
     ether_data2header frame = Inr (\<lparr>eh_src = e_addr e, eh_dst = dst, eh_type = ProtoTypeArp\<rparr>,
        arp_header2data \<lparr>ah_hrd = arpHrdEther, ah_pro = arpProIP, ah_hln = 6, ah_pln = 4,
          ah_op = op, ah_sha = e_addr e, ah_spa = if_unicast (ifaces st ! i), ah_tha = tha, ah_tpa = tpa\<rparr>)"
  using assms
  by (auto simp: arp_send_def DeviceOutput_def dev_TxHandler_defs file_Write_def isUp_def Let_def
      ether_consts ether_reads_back intro!: exI)

text \<open>What \<open>Resolve\<close> does for an address the cache does not know.\<close>

lemma arp_Resolve_miss:
  assumes "if_dev (ifaces st ! i) = Some d" "devices st ! d = Ether e" "arp_view st pa = None"
  obtains m cs where "arp_Resolve i pa st = (Inl (Err m), snd (arp_Request i pa (st\<lparr>caches := cs\<rparr>)))"
proof (cases "cacheSelect pa st")
  case (Inl err)
  moreover from Inl have "err = Err ''cache not found''" by (simp add: cacheSelect_Inl)
  ultimately show ?thesis using assms that by (simp add: arp_Resolve_def Let_def)
next
  case (Inr k)
  then have "ce_state (caches st ! k) = CacheImcomplete"
    using assms(3) by (simp add: arp_view_def split: if_splits)
  then have "arp_Resolve i pa st = (Inl (Err ''cache state is imcomplete''), snd (arp_Request i pa (st\<lparr>caches := caches st\<rparr>)))"
    using assms Inr by (simp add: arp_Resolve_def)
  then show ?thesis by (rule that)
qed

text \<open>\<open>Resolve\<close> on an Ethernet interface answers exactly from the cache; otherwise it returns an
  error after it broadcast one ARP request for the address, which reads back as asking for that
  address from the interface's own addresses.\<close>

theorem arp_Resolve_from_cache:
  assumes "if_dev (ifaces st ! i) = Some d" "devices st ! d = Ether e" "e_flags e AND DeviceFlagUp > 0"
    and "\<not> f_closed (e_file e)" "\<not> f_fails (e_file e)" "d < length (devices st)"
  shows "case arp_view st pa of
      Some ha \<Rightarrow> arp_Resolve i pa st = (Inr ha, st)
    | None \<Rightarrow> (\<exists>err st' frame m. arp_Resolve i pa st = (Inl err, st') \<and>
        devices st' = (devices st)[d := Ether (e\<lparr>e_file := (e_file e)
             \<lparr>f_out := f_out (e_file e) @ [frame]\<rparr>\<rparr>)] \<and>
        ether_data2header frame =
          Inr (\<lparr>eh_src = e_addr e, eh_dst = EtherAddrBroadcast, eh_type = ProtoTypeArp\<rparr>, arp_header2data m) \<and>
        ah_op m = arpOpRequest \<and> ah_tpa m = pa \<and> ah_sha m = e_addr e \<and>
        ah_spa m = if_unicast (ifaces st ! i))"
proof (cases "arp_view st pa")
  case (Some ha)
  then show ?thesis using assms arp_Resolve_eq(1) [of st i d pa ha] by simp
next
  case None
  obtain m cs where r: "arp_Resolve i pa st = (Inl (Err m), snd (arp_Request i pa (st\<lparr>caches := cs\<rparr>)))"
    using arp_Resolve_miss [OF assms(1,2) None] .
  obtain frame where "snd (arp_Request i pa (st\<lparr>caches := cs\<rparr>)) = st\<lparr>caches := cs, devices := (devices st)[d := Ether
        (e\<lparr>e_file := (e_file e)\<lparr>f_out := f_out (e_file e) @ [frame]\<rparr>\<rparr>)]\<rparr>"
    and "ether_data2header frame = Inr (\<lparr>eh_src = e_addr e, eh_dst = EtherAddrBroadcast, eh_type = ProtoTypeArp\<rparr>,
        arp_header2data \<lparr>ah_hrd = arpHrdEther, ah_pro = arpProIP, ah_hln = 6, ah_pln = 4, ah_op = arpOpRequest,
          ah_sha = e_addr e, ah_spa = if_unicast (ifaces st ! i), ah_tha = EtherAddrAny, ah_tpa = pa\<rparr>)"
    using arp_send_frame [of "st\<lparr>caches := cs\<rparr>" i d e arpOpRequest EtherAddrAny pa EtherAddrBroadcast] assms
    by (auto simp: arp_Request_def)
  then show ?thesis using None r by fastforce
qed

theorem arp_Resolve_from_cache_witness:
  "\<exists>err st'. arp_Resolve 0 0xc0000201 arp_demo = (Inl err, st') \<and> devices st' \<noteq> devices arp_demo"
proof -
  have "arp_view arp_demo 0xc0000201 = None"
  proof -
    have "cacheSelect 0xc0000201 arp_demo = Inl (Err ''cache not found'')"
      unfolding cacheSelect_Inl by (simp add: arp_demo_def ce_holds_def cache_entry_zero_def)
    then show ?thesis by (simp add: arp_view_def)
  qed
  then show ?thesis
    using arp_Resolve_from_cache [of arp_demo 0 0 "demo_ether\<lparr>e_interfaces := [0]\<rparr>" "0xc0000201"]
    by (force simp: arp_demo_def demo_ether_def demo_file_def DeviceFlagUp_def)
qed

text \<open>C17. A request for this host's address is answered: the turn of the handler sends one frame to
  the asker with the interface's addresses, and the next \<open>Resolve\<close> of the asker's protocol address
  answers its hardware address without another request. The cache keeps that answer for thirty seconds: a
  round of the timer forgets it when more time has passed since the request.\<close>

theorem arp_Rx_answers_request:
  assumes "arp_ok st" "arp_data2header (slice_bytes st (pb_data pb)) = Inr h"
    and "GetIface st (pb_dev pb) IfaceFamilyIP = Inr i"
    and "if_unicast (ifaces st ! i) = ah_tpa h" "ah_op h = arpOpRequest"
    and "if_dev (ifaces st ! i) = Some d" "devices st ! d = Ether e" "e_flags e AND DeviceFlagUp > 0"
    and "\<not> f_closed (e_file e)" "\<not> f_fails (e_file e)" "d < length (devices st)"
  shows "\<exists>st' frame m. arp_Rx_packet pb st = (Continue, st') \<and>
    devices st' = (devices st)[d := Ether (e\<lparr>e_file := (e_file e)\<lparr>f_out := f_out (e_file e) @ [frame]\<rparr>\<rparr>)] \<and>
    ether_data2header frame =
      Inr (\<lparr>eh_src = e_addr e, eh_dst = ah_sha h, eh_type = ProtoTypeArp\<rparr>, arp_header2data m) \<and>
    ah_op m = arpOpReply \<and> ah_sha m = e_addr e \<and> ah_spa m = ah_tpa h \<and>
    ah_tha m = ah_sha h \<and> ah_tpa m = ah_spa h \<and>
    arp_Resolve i (ah_spa h) st' = (Inr (ah_sha h), st') \<and>
    arp_view (arp_timer (st'\<lparr>now := t\<rparr>)) (ah_spa h) = (if now st + 30000000000 < t then None else Some (ah_sha h))"
proof -
  define s where "s = arp_learn (ah_spa h) (ah_sha h) st"
  define st' where "st' = snd (arp_send arpOpReply (ah_sha h) (ah_spa h) (ah_sha h) i s)"
  obtain cs where s: "s = st\<lparr>caches := cs\<rparr>" unfolding s_def using arp_learn_updates by blast
  have turn: "arp_Rx_packet pb st = (Continue, st')"
    using arp_Rx_packet_for_us [OF assms(2,3,4)] assms(5) by (simp add: st'_def s_def arp_Reply_def)
  have "arp_view s (ah_spa h) = Some (ah_sha h)"
    unfolding s_def by (rule arp_table.view_learn [OF assms(1)])
  then have view: "arp_view st' (ah_spa h) = Some (ah_sha h)"
    by (simp add: st'_def arp_view_cong [OF arp_send_caches])
  obtain frame where f: "devices st' = (devices st)[d := Ether (e\<lparr>e_file := (e_file e)
             \<lparr>f_out := f_out (e_file e) @ [frame]\<rparr>\<rparr>)]"
     "ether_data2header frame = Inr (\<lparr>eh_src = e_addr e, eh_dst = ah_sha h, eh_type = ProtoTypeArp\<rparr>,
        arp_header2data \<lparr>ah_hrd = arpHrdEther, ah_pro = arpProIP, ah_hln = 6, ah_pln = 4,
          ah_op = arpOpReply, ah_sha = e_addr e, ah_spa = if_unicast (ifaces st ! i),
          ah_tha = ah_sha h, ah_tpa = ah_spa h\<rparr>)"
    using arp_send_frame [of s i d e] assms(6-11) unfolding st'_def s by force
  have "dev_Type (devices st' ! d) = DeviceTypeEther" using f(1) assms(11) by simp
  moreover have "ifaces st' = ifaces s"
    using arp_send_ip_kept [of s arpOpReply] unfolding st'_def ip_kept_def net_kept_def by blast
  ultimately have "arp_Resolve i (ah_spa h) st' = (Inr (ah_sha h), st')"
    using assms(6) view by (intro arp_Resolve_eq(1)) (simp_all add: s)
  moreover have "arp_view (arp_timer (st'\<lparr>now := t\<rparr>)) (ah_spa h) =
      (if now st + 30000000000 < t then None else Some (ah_sha h))"
    by (rule arp_learn_timer [OF assms(1)]) (simp add: st'_def arp_send_caches s_def)
  ultimately show ?thesis using turn f assms(4)
    by (intro exI [of _ st'] exI [of _ frame] exI [of _ "\<lparr>ah_hrd = arpHrdEther, ah_pro = arpProIP,
          ah_hln = 6, ah_pln = 4, ah_op = arpOpReply, ah_sha = e_addr e,
          ah_spa = if_unicast (ifaces st ! i), ah_tha = ah_sha h, ah_tpa = ah_spa h\<rparr>"]) simp
qed

definition demo_arp_request :: arp_ether where
  "demo_arp_request = \<lparr>ah_hrd = arpHrdEther, ah_pro = arpProIP, ah_hln = 6, ah_pln = 4,
     ah_op = arpOpRequest, ah_sha = EtherAddr 2 0 0 0 0 9, ah_spa = 0xc0000201, ah_tha = EtherAddrAny,
     ah_tpa = 0xc0000202\<rparr>"

lemma demo_arp_request_read: "arp_data2header (arp_header2data demo_arp_request) = Inr demo_arp_request"
  using arp_reads_back [of demo_arp_request "[]"] by (simp add: arp_valid_def demo_arp_request_def)

lemma arp_demo_iface: "GetIface arp_demo 0 IfaceFamilyIP = Inr 0"
  by (simp add: GetIface_def arp_demo_def iface_Family_def)

theorem arp_Rx_answers_request_witness:
  "\<exists>st'. arp_Rx_packet \<lparr>pb_data = Heap (arp_header2data demo_arp_request), pb_dev = 0\<rparr> arp_demo = (Continue, st') \<and>
     arp_Resolve 0 0xc0000201 st' = (Inr (EtherAddr 2 0 0 0 0 9), st')"
proof -
  have "\<exists>st' frame m. arp_Rx_packet \<lparr>pb_data = Heap (arp_header2data demo_arp_request), pb_dev = 0\<rparr> arp_demo = (Continue, st') \<and>
    devices st' = (devices arp_demo)[0 := Ether (demo_ether\<lparr>e_interfaces := [0], e_file := demo_file\<lparr>f_out := [frame]\<rparr>\<rparr>)] \<and>
    ether_data2header frame =
      Inr (\<lparr>eh_src = e_addr demo_ether, eh_dst = ah_sha demo_arp_request, eh_type = ProtoTypeArp\<rparr>, arp_header2data m) \<and>
    ah_op m = arpOpReply \<and> ah_sha m = e_addr demo_ether \<and> ah_spa m = ah_tpa demo_arp_request \<and>
    ah_tha m = ah_sha demo_arp_request \<and> ah_tpa m = ah_spa demo_arp_request \<and>
    arp_Resolve 0 (ah_spa demo_arp_request) st' = (Inr (ah_sha demo_arp_request), st') \<and>
    arp_view (arp_timer (st'\<lparr>now := 0\<rparr>)) (ah_spa demo_arp_request) =
      (if now arp_demo + 30000000000 < 0 then None else Some (ah_sha demo_arp_request))"
    using arp_Rx_answers_request [of arp_demo "\<lparr>pb_data = Heap (arp_header2data demo_arp_request), pb_dev = 0\<rparr>"
        demo_arp_request 0 0 "demo_ether\<lparr>e_interfaces := [0]\<rparr>" 0] arp_demo_ok demo_arp_request_read arp_demo_iface
    by (simp add: arp_demo_def demo_ether_def demo_file_def DeviceFlagUp_def demo_arp_request_def)
  then show ?thesis by (auto simp: demo_arp_request_def)
qed

text \<open>A message for another host ends the receive handler, although the comment only says that
  the data is not for this host: the goroutine returns and ARP never answers again. A message that
  does not decode is handled as the zero header and ends it too, on every interface whose address
  is not 0.0.0.0.\<close>

theorem arp_Rx_stops:
  assumes "GetIface st (pb_dev pb) IfaceFamilyIP = Inr i"
    and "case arp_data2header (slice_bytes st (pb_data pb)) of
           Inr h \<Rightarrow> ah_tpa h \<noteq> if_unicast (ifaces st ! i) | Inl e \<Rightarrow> if_unicast (ifaces st ! i) \<noteq> AddrAny"
  shows "fst (arp_Rx_packet pb st) = Stopped \<and> devices (snd (arp_Rx_packet pb st)) = devices st"
proof -
  define h where "h = (case arp_data2header (slice_bytes st (pb_data pb)) of
                   Inl e \<Rightarrow> arp_ether_zero | Inr h \<Rightarrow> h)"
  obtain m st1 where u: "cacheUpdate (ah_spa h) (ah_sha h) st = (m, st1)" by force
  obtain cs where st1: "st1 = st\<lparr>caches := cs\<rparr>"
    using cacheUpdate_updates [of "ah_spa h" "ah_sha h" st] u by auto
  have "if_unicast (ifaces st ! i) \<noteq> ah_tpa h"
    using assms(2) by (auto simp: h_def arp_ether_zero_def AddrAny_def split: sum.splits)
  then show ?thesis
    using assms(1) unfolding arp_Rx_packet_def Let_def h_def [symmetric] u by (simp add: st1 GetIface_updates)
qed

theorem arp_Rx_stops_witness:
  "fst (arp_Rx_packet \<lparr>pb_data = Heap [], pb_dev = 0\<rparr> arp_demo) = Stopped"
  using arp_Rx_stops [of arp_demo "\<lparr>pb_data = Heap [], pb_dev = 0\<rparr>" 0] arp_demo_iface
  by (simp add: arp_data2header_def ArpEtherSize_def arp_demo_def AddrAny_def)

text \<open>C27. A round of the timer frees exactly the entries older than thirty seconds and leaves the
  others as they are; with \<open>arp_ok\<close> the map loses exactly the addresses of those entries.\<close>

theorem arp_timer_expires:
  assumes "arp_ok st" "cacheSelect pa st = Inr i"
  shows "arp_timer st = st\<lparr>caches := map (\<lambda>c. if ce_state c \<noteq> CacheFree \<and>
      ce_timeval c + 30000000000 < now st then cache_entry_zero else c) (caches st)\<rparr> \<and>
    arp_view (arp_timer st) pa =
      (if ce_timeval (caches st ! i) + 30000000000 < now st then None else arp_view st pa)"
  using arp_timer_eq [of st] arp_timer_view [OF assms] assms(1) by (simp add: arp_ok_def cacheTimeout_def)

lemma arp_demo_learn:
  "caches (arp_learn 7 EtherAddrBroadcast arp_demo) = (replicate 32 cache_entry_zero)[0 :=
     \<lparr>ce_state = CacheResolved, ce_pa = 7, ce_ha = EtherAddrBroadcast, ce_timeval = 60000000000\<rparr>]"
proof -
  have "cacheSelect 7 arp_demo = Inl (Err ''cache not found'')"
    unfolding cacheSelect_Inl by (simp add: arp_demo_def ce_holds_def cache_entry_zero_def)
  moreover have "cacheAlloc arp_demo = 0"
    by (simp add: cacheAlloc_def arp_demo_def numeral_eq_Suc cache_entry_zero_def)
  ultimately show ?thesis
    by (simp add: arp_learn_def cacheUpdate_def cacheInsert_def) (simp add: arp_demo_def)
qed

lemma arp_demo_learned: "cacheSelect 7 (arp_learn 7 EtherAddrBroadcast arp_demo) = Inr 0"
proof (rule cacheSelect_unique)
  show "cache_unique (caches (arp_learn 7 EtherAddrBroadcast arp_demo))"
    using arp_learn_spec(1) [OF arp_demo_ok] unfolding arp_ok_def by blast
qed (simp_all add: arp_demo_learn ce_holds_def)

theorem arp_timer_expires_witness:
  "arp_view (arp_timer (arp_learn 7 EtherAddrBroadcast arp_demo)) 7 = Some EtherAddrBroadcast"
proof -
  define st where "st = arp_learn 7 EtherAddrBroadcast arp_demo"
  have ok: "arp_ok st" unfolding st_def by (rule arp_learn_spec(1) [OF arp_demo_ok])
  have v: "arp_view st 7 = Some EtherAddrBroadcast"
    unfolding st_def by (rule arp_table.view_learn [OF arp_demo_ok])
  have "ce_timeval (caches st ! 0) = now st"
    using arp_learn_updates [of 7 EtherAddrBroadcast arp_demo]
    by (auto simp: st_def arp_demo_learn) (simp add: arp_demo_def)
  then show ?thesis
    using arp_timer_expires [OF ok arp_demo_learned [folded st_def]] v
    unfolding st_def [symmetric] by (metis less_add_same_cancel1 not_less_iff_gr_or_eq zero_less_numeral)
qed

text \<open>When no entry is free, the allocation takes the first entry, not the oldest one its comment
  promises: its \<open>oldest\<close> starts with Go's zero time, which no entry's time is before.\<close>

theorem cacheAlloc_never_oldest:
  assumes "\<forall>c \<in> set (caches st). ce_state c \<noteq> CacheFree \<and> 0 \<le> ce_timeval c"
  shows "cacheAlloc st = 0"
  by (rule cacheAlloc_full [OF assms])

theorem cacheAlloc_never_oldest_witness:
  "let old = \<lparr>ce_state = CacheResolved, ce_pa = 1, ce_ha = EtherAddrAny, ce_timeval = 5\<rparr>;
       young = \<lparr>ce_state = CacheResolved, ce_pa = 2, ce_ha = EtherAddrAny, ce_timeval = 9\<rparr>
   in cacheAlloc (arp_demo\<lparr>caches := young # replicate 31 old\<rparr>) = 0"
  unfolding Let_def by (rule cacheAlloc_never_oldest) (simp add: arp_demo_def)

end
