(* ===== verification/Icmp.thy ===== *)
theory Icmp
  imports Arp
begin

text \<open>
  The package \<open>icmp\<close> (\<open>pkg/icmp\<close>): message types and codes with their names (\<open>enum.go\<close>), the header
  (\<open>header.go\<close>), \<open>TxHandler\<close> and the receive handler, which answers echo requests (\<open>protocol.go\<close>).
  \<open>resolve\<close> is the resolver \<open>ip.TxHandler\<close> calls.
\<close>

section \<open>Types and codes\<close>

definition TypeEchoReply :: u8 where "TypeEchoReply = 0"
definition TypeDestUnreach :: u8 where "TypeDestUnreach = 3"
definition TypeSourceQuench :: u8 where "TypeSourceQuench = 4"
definition TypeRedirect :: u8 where "TypeRedirect = 5"
definition TypeEcho :: u8 where "TypeEcho = 8"
definition TypeTimeExceeded :: u8 where "TypeTimeExceeded = 11"
definition TypeParamProblem :: u8 where "TypeParamProblem = 12"
definition TypeTimestamp :: u8 where "TypeTimestamp = 13"
definition TypeTimestampReply :: u8 where "TypeTimestampReply = 14"
definition TypeInfoRequest :: u8 where "TypeInfoRequest = 15"
definition TypeInfoReply :: u8 where "TypeInfoReply = 16"

lemmas icmp_types =
  TypeEchoReply_def TypeDestUnreach_def TypeSourceQuench_def TypeRedirect_def TypeEcho_def
  TypeTimeExceeded_def TypeParamProblem_def TypeTimestamp_def TypeTimestampReply_def
  TypeInfoRequest_def TypeInfoReply_def

definition MessageType_String :: "u8 \<Rightarrow> string" where
  "MessageType_String t =
     (if t = 0 then ''TypeEchoReply''
      else if t = 3 then ''TypeDestUnreach''
      else if t = 4 then ''TypeSourceQuench''
      else if t = 5 then ''TypeRedirect''
      else if t = 8 then ''TypeEcho''
      else if t = 11 then ''TypeTimeExceeded''
      else if t = 12 then ''TypeParamProblem''
      else if t = 13 then ''TypeTimestamp''
      else if t = 14 then ''TypeTimestampReply''
      else if t = 15 then ''TypeInfoRequest''
      else if t = 16 then ''TypeInfoReply''
      else ''UNKNOWN'')"

definition CodeNetUnreach :: u8 where "CodeNetUnreach = 0"
definition CodeHostUnreach :: u8 where "CodeHostUnreach = 1"
definition CodeProtoUnreach :: u8 where "CodeProtoUnreach = 2"
definition CodePortUnreach :: u8 where "CodePortUnreach = 3"
definition CodeFragmentNeeded :: u8 where "CodeFragmentNeeded = 4"
definition CodeSourceRouteFailed :: u8 where "CodeSourceRouteFailed = 5"
definition CodeRedirectNet :: u8 where "CodeRedirectNet = 0"
definition CodeRedirectHost :: u8 where "CodeRedirectHost = 1"
definition CodeRedirectTosNet :: u8 where "CodeRedirectTosNet = 2"
definition CodeRedirectTosHost :: u8 where "CodeRedirectTosHost = 3"
definition CodeExceededTTL :: u8 where "CodeExceededTTL = 0"
definition CodeExceededFragment :: u8 where "CodeExceededFragment = 1"

definition with_code :: "string \<Rightarrow> u8 \<Rightarrow> string" where
  "with_code name c = name @ ''('' @ itoa (unat c) @ '')''"

definition code2string :: "u8 \<Rightarrow> u8 \<Rightarrow> string" where
  "code2string t c =
     with_code
      (if t = TypeDestUnreach then
         (if c = CodeNetUnreach then ''CodeNetUnreach''
          else if c = CodeHostUnreach then ''CodeHostUnreach''
          else if c = CodeProtoUnreach then ''CodeProtoUnreach''
          else if c = CodePortUnreach then ''CodePortUnreach''
          else if c = CodeFragmentNeeded then ''CodeFragmentNeeded''
          else if c = CodeSourceRouteFailed then ''CodeSourceRouteFailed''
          else ''UNKNOWN'')
       else if t = TypeRedirect then
         (if c = CodeRedirectNet then ''CodeRedirectNet''
          else if c = CodeRedirectHost then ''CodeRedirectHost''
          else if c = CodeRedirectTosNet then ''CodeRedirectTosNet''
          else if c = CodeRedirectTosHost then ''CodeRedirectTosHost''
          else ''UNKNOWN'')
       else if t = TypeTimeExceeded then
         (if c = CodeExceededTTL then ''CodeExceededTTL''
          else if c = CodeExceededFragment then ''CodeExceededFragment''
          else ''UNKNOWN'')
       else ''UNKNOWN'') c"

section \<open>The header\<close>

definition IcmpHeaderSize :: nat where "IcmpHeaderSize = 8"

record icmp_header =
  ic_typ :: u8
  ic_code :: u8
  ic_checksum :: u16
  ic_values :: u32

definition icmp_encode :: "icmp_header \<Rightarrow> bytes" where
  "icmp_encode h = [ic_typ h, ic_code h] @ be16 (ic_checksum h) @ be32 (ic_values h)"

definition icmp_decode :: "bytes \<Rightarrow> icmp_header" where
  "icmp_decode bs =
     \<lparr>ic_typ = bs ! 0, ic_code = bs ! 1, ic_checksum = get16 bs 2, ic_values = get32 bs 4\<rparr>"

text \<open>\<open>data[HeaderSize:]\<close> panics on shorter data, before the error of \<open>binary.Read\<close> is returned.\<close>

definition icmp_data2header :: "bytes \<Rightarrow> error + icmp_header \<times> bytes" where
  "icmp_data2header data =
     (if length data < IcmpHeaderSize then Inl Panic
      else Inr (icmp_decode data, drop IcmpHeaderSize data))"

definition icmp_header2data :: "icmp_header \<Rightarrow> bytes \<Rightarrow> icmp_header \<times> bytes" where
  "icmp_header2data hdr payload =
     (let buf = icmp_encode hdr @ payload;
          chksum = CheckSum (take IcmpHeaderSize buf) 0
      in (hdr\<lparr>ic_checksum := chksum\<rparr>, take 2 buf @ Hton16 chksum @ drop 4 buf))"

section \<open>The protocol\<close>

definition icmp_Init :: "'a ip_state_scheme \<Rightarrow> error option \<times> 'a ip_state_scheme" where
  "icmp_Init st = ip_ProtoRegister IcmpProto st"

definition icmp_TxHandler ::
    "(nat \<Rightarrow> u32 \<Rightarrow> 'a ip_state_scheme \<Rightarrow> (error + ether_addr) \<times> 'a ip_state_scheme) \<Rightarrow>
     u8 \<Rightarrow> u8 \<Rightarrow> u32 \<Rightarrow> bytes \<Rightarrow> u32 \<Rightarrow> u32 \<Rightarrow> 'a ip_state_scheme \<Rightarrow> error option \<times> 'a ip_state_scheme" where
  "icmp_TxHandler resolve typc code values data src dst st =
     (let hdr = \<lparr>ic_typ = typc, ic_code = code, ic_checksum = 0, ic_values = values\<rparr>;
          (hdr', data') = icmp_header2data hdr data
      in ip_TxHandler resolve ProtoICMP data' src dst st)"

definition icmp_RxHandler ::
    "(nat \<Rightarrow> u32 \<Rightarrow> 'a ip_state_scheme \<Rightarrow> (error + ether_addr) \<times> 'a ip_state_scheme) \<Rightarrow>
     slice \<Rightarrow> u32 \<Rightarrow> u32 \<Rightarrow> nat \<Rightarrow> 'a ip_state_scheme \<Rightarrow> error option \<times> 'a ip_state_scheme" where
  "icmp_RxHandler resolve sl src dst i st =
     (let data = slice_bytes st sl
      in if length data < IcmpHeaderSize
         then (Some (Err ''data size is too small for ICMP header''), st)
         else
          (let chksum = CheckSum data 0
           in if chksum \<noteq> 0 \<and> chksum \<noteq> 0xffff
              then (Some (Err ''checksum error in ICMP header''), st)
              else (case icmp_data2header data of
                      Inl e \<Rightarrow> (Some e, st)
                    | Inr (hdr, payload) \<Rightarrow>
                        if ic_typ hdr = TypeEcho
                        then (let dst' = (if dst \<noteq> if_unicast (ifaces st ! i)
                                          then if_unicast (ifaces st ! i) else dst)
                              in icmp_TxHandler resolve TypeEchoReply 0 (ic_values hdr) payload dst' src st)
                        else (Some (Err ''ICMP header type is unknown''), st))))"

section \<open>What is sent and what is accepted\<close>

lemma length_icmp_encode [simp]: "length (icmp_encode h) = 8"
  by (simp add: icmp_encode_def)

lemma icmp_decode_encode: "icmp_decode (icmp_encode h @ p) = h"
  by (cases h) (simp add: icmp_decode_def icmp_encode_def be_bytes)

lemma icmp_encode_checksum:
  "icmp_encode (h\<lparr>ic_checksum := c\<rparr>) = take 2 (icmp_encode h) @ be16 c @ drop 4 (icmp_encode h)"
  by (simp add: icmp_encode_def be_bytes)

lemma icmp_sent:
  "snd (icmp_header2data h p) = icmp_encode (fst (icmp_header2data h p)) @ p"
  by (simp add: icmp_header2data_def Let_def IcmpHeaderSize_def icmp_encode_checksum Hton16_be16)

lemma icmp_reads_back:
  "icmp_data2header (snd (icmp_header2data h p)) = Inr (fst (icmp_header2data h p), p)"
  by (simp add: icmp_data2header_def icmp_sent icmp_decode_encode IcmpHeaderSize_def)

interpretation icmp_codec: header_codec "\<lambda>h p. snd (icmp_header2data h p)" icmp_data2header
    "\<lambda>h p. True" "\<lambda>h p. fst (icmp_header2data h p)"
  by unfold_locales (rule icmp_reads_back)

lemma icmp_sent_header_verifies:
  assumes "ic_checksum h = 0"
  shows "CheckSum (icmp_encode (fst (icmp_header2data h p))) 0 = 0"
proof -
  define a where "a = take 2 (icmp_encode h)"
  define z where "z = drop 4 (icmp_encode h)"
  have split: "icmp_encode h = a @ [0, 0] @ z"
    using assms by (simp add: a_def z_def icmp_encode_def be_bytes hi8_def lo8_def)
  have len: "length a = 2" "length z = 4"
    by (simp_all add: a_def z_def)
  have "icmp_encode (fst (icmp_header2data h p)) = a @ Hton16 (CheckSum (a @ [0, 0] @ z) 0) @ z"
    using len
    by (simp add: icmp_header2data_def Let_def IcmpHeaderSize_def icmp_encode_checksum Hton16_be16 split)
  moreover have "even (length a)" "length (a @ [0, 0] @ z) \<le> 65536"
    by (simp_all add: len)
  ultimately show ?thesis by (simp only: stored_checksum_verifies)
qed

lemma CheckSum_eq_max_iff:
  assumes "length b \<le> 65536"
  shows "CheckSum b 0 = 0xffff \<longleftrightarrow> sum16 b = 0"
proof -
  have max: "65535 = unat (0xffff :: u16)" by simp
  have "CheckSum b 0 = 0xffff \<longleftrightarrow> unat (CheckSum b 0) = 65535"
    by (simp only: max word_unat_eq_iff)
  also have "\<dots> \<longleftrightarrow> fold1c (sum16 b) = 0"
    using unat_CheckSum [of b 0] assms fold1c_le [of "sum16 b"] by (simp del: fold1c_eq_0_iff) linarith
  finally show ?thesis by simp
qed

lemma icmp_sent_verifies:
  assumes "ic_checksum h = 0" "length p \<le> 65528"
  shows "CheckSum (snd (icmp_header2data h p)) 0 \<in> {0, 0xffff} \<longleftrightarrow> sum16 p mod 65535 = 0"
proof -
  define e where "e = icmp_encode (fst (icmp_header2data h p))"
  have len: "length e = 8" by (simp add: e_def)
  have "CheckSum e 0 = 0" using icmp_sent_header_verifies assms(1) by (simp add: e_def)
  then have e: "0 < sum16 e" "sum16 e mod 65535 = 0"
    using len by (simp_all add: CheckSum_eq_0_iff fold1c_eq_max_iff)
  have sum: "sum16 (e @ p) = sum16 e + sum16 p" using len by (simp add: sum16_append)
  have "CheckSum (e @ p) 0 = 0 \<longleftrightarrow> (sum16 e + sum16 p) mod 65535 = 0"
    using e(1) len assms(2) by (simp add: CheckSum_eq_0_iff fold1c_eq_max_iff sum)
  moreover have "(sum16 e + sum16 p) mod 65535 = sum16 p mod 65535"
    using e(2) by (metis add.commute add_0 mod_add_right_eq add.right_neutral)
  moreover have "CheckSum (e @ p) 0 \<noteq> 0xffff"
    using e(1) len assms(2) by (simp add: CheckSum_eq_max_iff sum)
  ultimately show ?thesis by (simp add: icmp_sent e_def)
qed

context resolver begin

text \<open>An echo request that is answered: the reply is one frame on the device of the route back to the
  sender.\<close>

lemma echo_sends:
  assumes rx: "icmp_RxHandler resolve sl src dst i st = (None, st')"
    and read: "icmp_data2header (slice_bytes st sl) = Inr (hdr, payload)"
    and route: "LookupTable src st = Inr r"
    and dev: "if_dev (ifaces st ! rt_Iface r) = Some d" "d < length (devices st)"
      "devices st ! d = Ether e" "e_flags e AND DeviceFlagNeedARP > 0"
  shows "ic_typ hdr = TypeEcho \<and> (\<exists>frame iph msg rep.
      devices st' = (devices st)[d := Ether (e\<lparr>e_file := (e_file e)\<lparr>f_out := f_out (e_file e) @ [frame]\<rparr>\<rparr>)] \<and>
      map_sum id snd (ether_data2header frame) = Inr (snd (ip_header2data iph msg)) \<and>
      ih_proto iph = ProtoICMP \<and> ih_dst iph = src \<and> ih_tol iph = of_nat (20 + length msg) \<and>
      icmp_data2header msg = Inr (rep, payload) \<and>
      ic_typ rep = TypeEchoReply \<and> ic_code rep = 0 \<and> ic_values rep = ic_values hdr)"
proof -
  define rep where "rep = \<lparr>ic_typ = TypeEchoReply, ic_code = 0, ic_checksum = 0, ic_values = ic_values hdr\<rparr>"
  define msg where "msg = snd (icmp_header2data rep payload)"
  have echo: "ic_typ hdr = TypeEcho"
    using rx by (auto simp: icmp_RxHandler_def Let_def read split: if_splits)
  then have tx: "ip_TxHandler resolve ProtoICMP msg (if_unicast (ifaces st ! i)) src st = (None, st')"
    using rx by (auto simp: icmp_RxHandler_def icmp_TxHandler_def Let_def read msg_def rep_def
        split: if_splits prod.splits)
  define iph where "iph = \<lparr>ih_vhl = 0x45, ih_tos = 0, ih_tol = of_nat (20 + length msg),
                ih_id = ip_id st + 1, ih_flags = 0, ih_ttl = 0xff, ih_proto = ProtoICMP, ih_checksum = 0,
                ih_src = if_unicast (ifaces st ! rt_Iface r), ih_dst = src\<rparr>"
  obtain ha where sent: "devices st' = (devices st)[d := Ether (e\<lparr>e_file := (e_file e)
      \<lparr>f_out := f_out (e_file e) @ [ether_header2data \<lparr>eh_src = e_addr e, eh_dst = ha, eh_type = ProtoTypeIP\<rparr>
        (snd (ip_header2data iph msg))]\<rparr>\<rparr>)]"
    using TxHandler_sends [OF tx route dev] unfolding Let_def iph_def by blast
  define rep' where "rep' = fst (icmp_header2data rep payload)"
  have rep: "icmp_data2header msg = Inr (rep', payload)"
    unfolding msg_def rep'_def by (rule icmp_reads_back)
  have rep': "ic_typ rep' = TypeEchoReply \<and> ic_code rep' = 0 \<and> ic_values rep' = ic_values hdr"
    by (simp add: rep'_def icmp_header2data_def rep_def Let_def)
  show ?thesis
    using echo sent rep rep'
    by (intro conjI exI [of _ "ether_header2data \<lparr>eh_src = e_addr e, eh_dst = ha, eh_type = ProtoTypeIP\<rparr>
          (snd (ip_header2data iph msg))"] exI [of _ iph] exI [of _ msg] exI [of _ rep'])
       (simp_all add: ether_reads_back iph_def)
qed

end

section \<open>Properties\<close>

text \<open>C14. When the receive handler returns no error, the message was an echo request and exactly one
  frame was sent to its source: an IP packet whose ICMP message reads back as an echo reply with
  the identifier, the sequence number and the payload of the request.\<close>

theorem icmp_echo_answered:
  assumes "icmp_RxHandler arp_Resolve sl src dst i st = (None, st')"
    and "icmp_data2header (slice_bytes st sl) = Inr (hdr, payload)"
    and "LookupTable src st = Inr r" "if_dev (ifaces st ! rt_Iface r) = Some d" "d < length (devices st)"
    and "devices st ! d = Ether e" "e_flags e AND DeviceFlagNeedARP > 0"
  shows "ic_typ hdr = TypeEcho \<and> (\<exists>frame iph msg rep.
      devices st' = (devices st)[d := Ether (e\<lparr>e_file := (e_file e)\<lparr>f_out := f_out (e_file e) @ [frame]\<rparr>\<rparr>)] \<and>
      map_sum id snd (ether_data2header frame) = Inr (snd (ip_header2data iph msg)) \<and>
      ih_proto iph = ProtoICMP \<and> ih_dst iph = src \<and> ih_tol iph = of_nat (20 + length msg) \<and>
      icmp_data2header msg = Inr (rep, payload) \<and>
      ic_typ rep = TypeEchoReply \<and> ic_code rep = 0 \<and> ic_values rep = ic_values hdr)"
  by (rule arp_resolver.echo_sends [OF assms])

definition icmp_demo :: arp_state where
  "icmp_demo = arp_demo\<lparr>routes := [\<lparr>rt_network = 0xc0000200, rt_netmask = 0xffffff00, rt_nexthop = 0, rt_Iface = 0\<rparr>],
     caches := (replicate 32 cache_entry_zero)[0 := \<lparr>ce_state = CacheResolved, ce_pa = 0xc0000201,
       ce_ha = EtherAddr 2 0 0 0 0 9, ce_timeval = 0\<rparr>]\<rparr>"

definition demo_echo :: bytes where
  "demo_echo = [8, 0, 0xf7, 0xff, 0, 0, 0, 0]"

lemma demo_echo_read:
  "icmp_data2header demo_echo = Inr (\<lparr>ic_typ = TypeEcho, ic_code = 0, ic_checksum = 0xf7ff, ic_values = 0\<rparr>, [])"
  by (simp add: icmp_data2header_def demo_echo_def IcmpHeaderSize_def icmp_decode_def be_bytes join16_def
      join32_def TypeEcho_def)

lemma icmp_demo_simps:
  "devices icmp_demo = [Ether (demo_ether\<lparr>e_interfaces := [0]\<rparr>)]"
  "ifaces icmp_demo = [\<lparr>if_dev = Some 0, if_unicast = 0xc0000202, if_netmask = 0xffffff00, if_broadcast = 0xc00002ff\<rparr>]"
  "LookupTable 0xc0000201 icmp_demo = Inr \<lparr>rt_network = 0xc0000200, rt_netmask = 0xffffff00, rt_nexthop = 0, rt_Iface = 0\<rparr>"
  by (simp_all add: icmp_demo_def arp_demo_def LookupTable_eq)

lemma icmp_demo_resolve:
  "arp_Resolve 0 0xc0000201 (icmp_demo\<lparr>ip_id := n\<rparr>) = (Inr (EtherAddr 2 0 0 0 0 9), icmp_demo\<lparr>ip_id := n\<rparr>)"
  by (simp add: arp_Resolve_def icmp_demo_def arp_demo_def demo_ether_def cacheSelect_def numeral_eq_Suc)

lemma icmp_demo_tx:
  assumes "length msg \<le> 1480"
  shows "fst (ip_TxHandler arp_Resolve p msg 0xc0000202 0xc0000201 icmp_demo) = None"
proof -
  have len: "length (snd (ip_header2data h msg)) = 20 + length msg" for h
    by (simp add: ip_header2data_def Let_def)
  have mtu: "\<not> dev_MTU (Ether e) < of_nat (20 + length msg)" for e
  proof -
    have "unat (of_nat (20 + length msg) :: u16) = 20 + length msg"
      using assms by (simp only: unat_of_nat) simp
    with assms show ?thesis by (simp add: ether_consts word_less_nat_alt del: of_nat_add)
  qed
  have out: "fst (DeviceOutput 0 (snd (ip_header2data h msg)) ProtoTypeIP (Some ha) (icmp_demo\<lparr>ip_id := n\<rparr>)) = None"
    for h ha n
    using mtu
    by (simp add: DeviceOutput_def dev_TxHandler_defs icmp_demo_simps len isUp_def file_Write_def
        del: of_nat_add of_nat_Suc) (simp add: demo_ether_def demo_file_def DeviceFlagUp_def)
  have flag: "0 < e_flags demo_ether AND DeviceFlagNeedARP"
    by (simp add: demo_ether_def DeviceFlagNeedARP_def)
  show ?thesis
    using assms out flag
    by (simp add: ip_TxHandler_def icmp_demo_simps AddrAny_def AddrBroadcast_def HeaderSizeMin_def ether_consts
        generateId_def ip_output_def icmp_demo_resolve Let_def case_prod_beta)
qed

lemma icmp_demo_rx:
  "\<exists>st'. icmp_RxHandler arp_Resolve (Heap demo_echo) 0xc0000201 0xc0000202 0 icmp_demo = (None, st')"
proof -
  have ok: "CheckSum demo_echo 0 = 0" "length demo_echo = 8"
    by (simp_all add: CheckSum_eq_0_iff demo_echo_def fold1c_def)
  define hdr where "hdr = \<lparr>ic_typ = TypeEchoReply, ic_code = 0, ic_checksum = 0, ic_values = 0\<rparr>"
  have "icmp_RxHandler arp_Resolve (Heap demo_echo) 0xc0000201 0xc0000202 0 icmp_demo =
      ip_TxHandler arp_Resolve ProtoICMP (snd (icmp_header2data hdr [])) 0xc0000202 0xc0000201 icmp_demo"
    by (simp add: icmp_RxHandler_def ok IcmpHeaderSize_def demo_echo_read icmp_demo_simps icmp_TxHandler_def
        hdr_def split: prod.split)
  moreover have "fst \<dots> = None"
    by (rule icmp_demo_tx) (simp add: icmp_header2data_def IcmpHeaderSize_def Let_def)
  ultimately show ?thesis by (metis prod.collapse)
qed

theorem icmp_echo_answered_witness:
  "\<exists>st'. icmp_RxHandler arp_Resolve (Heap demo_echo) 0xc0000201 0xc0000202 0 icmp_demo = (None, st') \<and>
     length (f_out (case devices st' ! 0 of Ether e \<Rightarrow> e_file e)) = 1"
proof -
  obtain st' where rx: "icmp_RxHandler arp_Resolve (Heap demo_echo) 0xc0000201 0xc0000202 0 icmp_demo = (None, st')"
    using icmp_demo_rx by blast
  show ?thesis
    using icmp_echo_answered [OF rx, of "\<lparr>ic_typ = TypeEcho, ic_code = 0, ic_checksum = 0xf7ff, ic_values = 0\<rparr>"
        "[]" "\<lparr>rt_network = 0xc0000200, rt_netmask = 0xffffff00, rt_nexthop = 0, rt_Iface = 0\<rparr>"
        0 "demo_ether\<lparr>e_interfaces := [0]\<rparr>"]
    by (auto simp: rx demo_echo_read icmp_demo_simps demo_ether_def demo_file_def DeviceFlagNeedARP_def)
qed

text \<open>C40. \<open>header2data\<close> computes the checksum over the eight bytes of the header, while ICMP's covers the
  message. So the receive handler refuses a message that this package sends with a checksum error exactly
  when the 16-bit words of its payload do not sum to a multiple of 65535. When they do, an echo request is
  answered with its payload, and a message of any other type, an echo reply too, is refused as unknown.\<close>

theorem icmp_own_message_rejected:
  assumes "slice_bytes st sl = snd (icmp_header2data \<lparr>ic_typ = t, ic_code = c, ic_checksum = 0, ic_values = v\<rparr> p)"
    and "length p \<le> 65528"
  shows "icmp_RxHandler resolve sl src dst i st =
    (if sum16 p mod 65535 \<noteq> 0 then (Some (Err ''checksum error in ICMP header''), st)
     else if t = TypeEcho
     then icmp_TxHandler resolve TypeEchoReply 0 v p (if_unicast (ifaces st ! i)) src st
     else (Some (Err ''ICMP header type is unknown''), st))"
proof -
  define h where "h = \<lparr>ic_typ = t, ic_code = c, ic_checksum = 0, ic_values = v\<rparr>"
  define m where "m = snd (icmp_header2data h p)"
  have len: "\<not> length m < IcmpHeaderSize"
    by (simp add: m_def icmp_sent IcmpHeaderSize_def)
  have sum: "(CheckSum m 0 \<noteq> 0 \<and> CheckSum m 0 \<noteq> 0xffff) \<longleftrightarrow> sum16 p mod 65535 \<noteq> 0"
    using icmp_sent_verifies [of h p] assms(2) by (auto simp: m_def h_def)
  have read: "icmp_data2header m = Inr (fst (icmp_header2data h p), p)"
    unfolding m_def by (rule icmp_reads_back)
  have fields: "ic_typ (fst (icmp_header2data h p)) = t" "ic_values (fst (icmp_header2data h p)) = v"
    by (simp_all add: icmp_header2data_def h_def Let_def)
  show ?thesis
    unfolding icmp_RxHandler_def Let_def assms(1) h_def [symmetric] m_def [symmetric]
    using len by (simp add: sum read fields)
qed

theorem icmp_own_message_rejected_witness:
  "icmp_RxHandler arp_Resolve (Heap (snd (icmp_header2data
     \<lparr>ic_typ = 8, ic_code = 0, ic_checksum = 0, ic_values = 0x006d0000\<rparr> [1, 2, 3]))) 1 2 0 icmp_demo =
   (Some (Err ''checksum error in ICMP header''), icmp_demo)"
  by (subst icmp_own_message_rejected [OF slice_bytes.simps(1)]) simp_all

end
