(* ===== verification/Transport.thy ===== *)
theory Transport
  imports Icmp
begin

text \<open>
  What UDP and TCP share: endpoints as values and as text (\<open>pkg/udp/endpoint.go\<close>, which \<open>pkg/tcp\<close>
  takes over), the checksum over a pseudo header and a segment, and the contract of a table of
  sockets.
\<close>

section \<open>Endpoints\<close>

record endpoint =
  ep_addr :: u32
  ep_port :: u16

definition endpoint_zero :: endpoint where
  "endpoint_zero = \<lparr>ep_addr = 0, ep_port = 0\<rparr>"

lemma endpoint_eta [simp]: "\<lparr>ep_addr = ep_addr e, ep_port = ep_port e\<rparr> = e"
  by (cases e) simp

definition PortMin :: u16 where "PortMin = 49152"
definition PortMax :: u16 where "PortMax = 65535"

definition Endpoint_String :: "endpoint \<Rightarrow> string" where
  "Endpoint_String e = Addr_String (ep_addr e) @ '':'' @ itoa (unat (ep_port e))"

text \<open>\<open>uint16(port)\<close> keeps the low 16 bits of whatever number was parsed.\<close>

definition Str2Endpoint :: "string \<Rightarrow> error + endpoint" where
  "Str2Endpoint str =
     (let tmp = split_on CHR '':'' str
      in if length tmp \<noteq> 2 then Inl (Err ''str is not correect'')
         else (case Str2Addr (tmp ! 0) of
                 Inl e \<Rightarrow> Inl e
               | Inr addr \<Rightarrow>
                   (case Atoi (tmp ! 1) of
                      Inl e \<Rightarrow> Inl e
                    | Inr port \<Rightarrow> Inr \<lparr>ep_addr = addr, ep_port = of_int port\<rparr>)))"

lemma Addr_String_no_colon: "CHR '':'' \<notin> set (Addr_String a)"
proof -
  have "CHR '':'' \<notin> set (itoa n)" for n
    using itoa_digits not_digits(4) by blast
  then show ?thesis by (simp add: Addr_String_def)
qed

lemma Str2Endpoint_reads_back: "Str2Endpoint (Endpoint_String e) = Inr e"
proof -
  have "CHR '':'' \<notin> set (itoa n)" for n
    using itoa_digits not_digits(4) by blast
  then have "split_on CHR '':'' (Endpoint_String e) = [Addr_String (ep_addr e), itoa (unat (ep_port e))]"
    by (simp add: Endpoint_String_def split_on_sep Addr_String_no_colon split_on_none)
  moreover have "Atoi (itoa (unat (ep_port e))) = Inr (int (unat (ep_port e)))"
    by (rule Atoi_itoa, rule less_trans [OF unat_u16_less]) simp
  ultimately show ?thesis
    by (cases e) (simp add: Str2Endpoint_def Str2Addr_reads_back)
qed

section \<open>The checksum with a pseudo header\<close>

text \<open>The sender sums the pseudo header and the segment in one buffer; the receiver sums the pseudo
  header first and passes the complement as the base.\<close>

lemma transport_checksum_verifies:
  assumes "even (length p)" "even (length a)" "length (p @ a @ [0, 0] @ z) \<le> 65536"
  shows "CheckSum (a @ Hton16 (CheckSum (p @ a @ [0, 0] @ z) 0) @ z) (ucast (NOT (CheckSum p 0))) = 0"
proof -
  define c where "c = CheckSum ((p @ a) @ [0, 0] @ z) 0"
  have "CheckSum (a @ Hton16 c @ z) (ucast (NOT (CheckSum p 0))) = CheckSum (p @ a @ Hton16 c @ z) 0"
    using assms by (intro CheckSum_chain) simp_all
  also have "\<dots> = CheckSum ((p @ a) @ Hton16 c @ z) 0" by simp
  also have "\<dots> = 0"
    unfolding c_def using assms by (intro stored_checksum_verifies) simp_all
  finally show ?thesis by (simp add: c_def)
qed

section \<open>The contract of a table of sockets\<close>

text \<open>A socket claims a local endpoint; the receive handler selects the socket by the endpoint a
  segment is for.\<close>

locale socket_table =
  fixes claim :: "endpoint \<Rightarrow> 's \<Rightarrow> (error + nat) \<times> 's"
    and select :: "endpoint \<Rightarrow> 's \<Rightarrow> nat option"
    and ok :: "'s \<Rightarrow> bool"
  assumes claim_ok: "ok s \<Longrightarrow> ok (snd (claim e s))"
    and claim_refused: "ok s \<Longrightarrow> select e s \<noteq> None \<Longrightarrow> \<exists>err. fst (claim e s) = Inl err"
    and claim_taken: "ok s \<Longrightarrow> select e s = None \<Longrightarrow> e \<noteq> endpoint_zero \<Longrightarrow>
      \<exists>k s'. claim e s = (Inr k, s') \<and> select e s' = Some k"
    and claim_others: "ok s \<Longrightarrow> e' \<noteq> endpoint_zero \<Longrightarrow> e' \<noteq> e \<or> select e' s \<noteq> None \<Longrightarrow>
      select e' (snd (claim e s)) = select e' s"
    and select_inj: "ok s \<Longrightarrow> select e s = Some k \<Longrightarrow> select e' s = Some k \<Longrightarrow> e = e'"
begin

definition claims :: "endpoint list \<Rightarrow> 's \<Rightarrow> 's" where
  "claims es s = fold (\<lambda>e s. snd (claim e s)) es s"

lemma claims_ok: "ok s \<Longrightarrow> ok (claims es s)"
  by (induction es arbitrary: s) (simp_all add: claims_def claim_ok)

lemma claims_others: "ok s \<Longrightarrow> e \<noteq> endpoint_zero \<Longrightarrow> e \<notin> set es \<Longrightarrow> select e (claims es s) = select e s"
  by (induction es arbitrary: s) (simp_all add: claims_def claim_ok claim_others)

text \<open>A socket keeps its endpoint, whoever claims it again.\<close>

lemma claims_keep: "ok s \<Longrightarrow> e \<noteq> endpoint_zero \<Longrightarrow> select e s = Some k \<Longrightarrow> select e (claims es s) = Some k"
  by (induction es arbitrary: s) (simp_all add: claims_def claim_ok claim_others)

text \<open>An endpoint that is free is claimed once, by the first to claim it, and leads to that one from then on.\<close>

lemma claims_taken:
  assumes "ok s" "e \<noteq> endpoint_zero" "select e s = None" "e \<notin> set es1"
    and "s1 = claims es1 s" "s' = claims es2 (snd (claim e s1))"
  shows "\<exists>k. fst (claim e s1) = Inr k \<and> select e s' = Some k \<and> (\<exists>err. fst (claim e s') = Inl err)"
proof -
  have ok: "ok s1" using assms(1,5) by (simp add: claims_ok)
  have "select e s1 = None" using assms(1-5) by (simp add: claims_others)
  from claim_taken [OF ok this assms(2)] obtain k s2 where k: "claim e s1 = (Inr k, s2)" "select e s2 = Some k"
    by blast
  have ok2: "ok s2" using claim_ok [OF ok, of e] k(1) by simp
  have "select e s' = Some k" using claims_keep [OF ok2 assms(2) k(2)] k(1) assms(6) by simp
  moreover have "ok s'" using claims_ok [OF ok2] k(1) assms(6) by simp
  ultimately show ?thesis using claim_refused [of s' e] k(1) by auto
qed

text \<open>Sockets of different endpoints are different.\<close>

lemma claims_distinct:
  assumes "ok s" "e \<noteq> e'" "select e (claims es s) = Some k" "select e' (claims es s) = Some k'"
  shows "k \<noteq> k'"
  using select_inj [OF claims_ok [OF assms(1)]] assms(2-4) by blast

end

end
