(* ===== verification/UdpHeader.thy ===== *)
theory UdpHeader
  imports Transport
begin

text \<open>
  The UDP header with its pseudo header (\<open>pkg/udp/header.go\<close>).
\<close>

definition UdpHeaderSize :: nat where "UdpHeaderSize = 8"
definition UdpPseudoHeaderSize :: nat where "UdpPseudoHeaderSize = 12"

record udp_header =
  uh_src :: u16
  uh_dst :: u16
  uh_len :: u16
  uh_checksum :: u16

definition udp_encode :: "udp_header \<Rightarrow> bytes" where
  "udp_encode h = be16 (uh_src h) @ be16 (uh_dst h) @ be16 (uh_len h) @ be16 (uh_checksum h)"

definition udp_decode :: "bytes \<Rightarrow> udp_header" where
  "udp_decode bs =
     \<lparr>uh_src = get16 bs 0, uh_dst = get16 bs 2, uh_len = get16 bs 4, uh_checksum = get16 bs 6\<rparr>"

text \<open>The struct \<open>PseudoHeader\<close> in its written form; \<open>Pad\<close> is never set.\<close>

definition udp_pseudo :: "u32 \<Rightarrow> u32 \<Rightarrow> u16 \<Rightarrow> bytes" where
  "udp_pseudo src dst len = be32 src @ be32 dst @ [0, ProtoUDP] @ be16 len"

definition udp_data2header :: "bytes \<Rightarrow> u32 \<Rightarrow> u32 \<Rightarrow> error + udp_header \<times> bytes" where
  "udp_data2header data src dst =
     (if length data < UdpHeaderSize then Inl (Err ''data size is too small for udp header'')
      else
        (let hdr = udp_decode data
         in if unat (uh_len hdr) \<noteq> length data
            then Inl (Err ''data length is not the same as that written in header'')
            else if uh_checksum hdr = 0 then Inr (hdr, drop UdpHeaderSize data)
            else
              (let chksum = CheckSum (udp_pseudo src dst (uh_len hdr)) 0;
                   chksum = CheckSum data (ucast (NOT chksum))
               in if chksum \<noteq> 0 \<and> chksum \<noteq> 0xffff then Inl (Err ''checksum error (UDP)'')
                  else Inr (hdr, drop UdpHeaderSize data))))"

definition udp_header2data :: "udp_header \<Rightarrow> bytes \<Rightarrow> u32 \<Rightarrow> u32 \<Rightarrow> udp_header \<times> bytes" where
  "udp_header2data hdr payload src dst =
     (let buf = udp_pseudo src dst (of_nat (UdpHeaderSize + length payload)) @ udp_encode hdr @ payload;
          chksum = CheckSum buf 0;
          buf = take 18 buf @ Hton16 chksum @ drop 20 buf
      in (hdr\<lparr>uh_checksum := chksum\<rparr>, drop UdpPseudoHeaderSize buf))"

section \<open>What is sent and what is accepted\<close>

lemma length_udp_encode [simp]: "length (udp_encode h) = 8"
  by (simp add: udp_encode_def)

lemma length_udp_pseudo [simp]: "length (udp_pseudo s d n) = 12"
  by (simp add: udp_pseudo_def)

lemma udp_decode_encode: "udp_decode (udp_encode h @ p) = h"
  by (cases h) (simp add: udp_decode_def udp_encode_def be_bytes)

lemma udp_encode_checksum:
  "udp_encode (h\<lparr>uh_checksum := c\<rparr>) = take 6 (udp_encode h) @ be16 c"
  by (simp add: udp_encode_def be_bytes)

lemma udp_sent:
  "snd (udp_header2data h p s d) = udp_encode (fst (udp_header2data h p s d)) @ p"
  by (simp add: udp_header2data_def Let_def UdpPseudoHeaderSize_def udp_encode_checksum Hton16_be16)

lemma length_udp_sent: "length (snd (udp_header2data h p s d)) = 8 + length p"
  by (simp add: udp_sent)

definition udp_sendable :: "udp_header \<Rightarrow> bytes \<Rightarrow> bool" where
  "udp_sendable h p \<longleftrightarrow> uh_checksum h = 0 \<and> length p + 8 \<le> 65515 \<and> uh_len h = of_nat (8 + length p)"

lemma udp_sent_verifies:
  assumes "udp_sendable h p"
  shows "CheckSum (snd (udp_header2data h p s d)) (ucast (NOT (CheckSum (udp_pseudo s d (uh_len h)) 0))) = 0"
proof -
  define q where "q = udp_pseudo s d (uh_len h)"
  define a where "a = take 6 (udp_encode h)"
  have enc: "udp_encode h = a @ [0, 0]" "length a = 6" "length q = 12"
    using assms by (simp_all add: a_def q_def udp_encode_def be_bytes udp_sendable_def hi8_def lo8_def)
  have "snd (udp_header2data h p s d) = a @ Hton16 (CheckSum (q @ a @ [0, 0] @ p) 0) @ p"
    using assms enc
    by (simp add: udp_header2data_def Let_def UdpPseudoHeaderSize_def UdpHeaderSize_def
        udp_sendable_def q_def)
  moreover have "even (length q)" "even (length a)" "length (q @ a @ [0, 0] @ p) \<le> 65536"
    using enc assms by (simp_all add: udp_sendable_def)
  ultimately show ?thesis by (simp only: transport_checksum_verifies q_def)
qed

lemma udp_sent_length:
  assumes "udp_sendable h p"
  shows "unat (uh_len h) = 8 + length p"
proof -
  have "unat (of_nat (8 + length p) :: u16) = 8 + length p"
    using assms by (simp only: unat_of_nat udp_sendable_def) simp
  with assms show ?thesis by (simp add: udp_sendable_def)
qed

lemma udp_reads_back:
  assumes "udp_sendable h p"
  shows "udp_data2header (snd (udp_header2data h p s d)) s d = Inr (fst (udp_header2data h p s d), p)"
proof -
  have len: "uh_len (fst (udp_header2data h p s d)) = uh_len h"
    by (simp add: udp_header2data_def Let_def)
  note ok = udp_sent_verifies [OF assms, of s d] udp_sent_length [OF assms]
  show ?thesis
    using ok unfolding udp_data2header_def udp_sent
    by (simp add: udp_decode_encode len UdpHeaderSize_def Let_def)
qed

interpretation udp_codec: header_codec "\<lambda>h p. snd (udp_header2data h p s d)" "\<lambda>m. udp_data2header m s d"
    udp_sendable "\<lambda>h p. fst (udp_header2data h p s d)" for s d
  by unfold_locales (rule udp_reads_back)

text \<open>A datagram with bytes behind it is refused.\<close>

lemma udp_padded_refused:
  assumes "udp_sendable h p" "pad \<noteq> []"
  shows "udp_data2header (snd (udp_header2data h p s d) @ pad) s d =
    Inl (Err ''data length is not the same as that written in header'')"
proof -
  have len: "uh_len (fst (udp_header2data h p s d)) = uh_len h"
    by (simp add: udp_header2data_def Let_def)
  show ?thesis
    using assms udp_sent_length [OF assms(1)] unfolding udp_data2header_def udp_sent
    by (simp add: udp_decode_encode len UdpHeaderSize_def)
qed

end
