(* ===== verification/Udp.thy ===== *)
theory Udp
  imports UdpHeader
begin

text \<open>
  The package \<open>udp\<close>: sockets (\<open>pkg/udp/pcb.go\<close>) and the protocol (\<open>protocol.go\<close>). A \<open>*pcb\<close> is its
  index in a store; the variable \<open>pcbs\<close> is the list of the pointers in it.
\<close>

section \<open>Sockets\<close>

definition pcbBufSize :: nat where "pcbBufSize = 100"

datatype udp_pcb_state = UdpFree | UdpOpen | UdpClosing

record udp_buffer =
  ub_foreign :: endpoint
  ub_data :: slice

record udp_pcb =
  up_state :: udp_pcb_state
  up_local :: endpoint
  up_rxQueue :: "udp_buffer list"

record udp_state = arp_state +
  udp_store :: "udp_pcb list"
  udp_pcbs :: "nat list"

definition udp_pcbSelect :: "u32 \<Rightarrow> u16 \<Rightarrow> 'a udp_state_scheme \<Rightarrow> nat option" where
  "udp_pcbSelect address port st =
     find (\<lambda>k. ep_addr (up_local (udp_store st ! k)) = address \<and>
               ep_port (up_local (udp_store st ! k)) = port) (udp_pcbs st)"

definition udp_Open :: "'a udp_state_scheme \<Rightarrow> nat \<times> 'a udp_state_scheme" where
  "udp_Open st =
     (let k = length (udp_store st)
      in (k, st\<lparr>udp_store := udp_store st @ [\<lparr>up_state = UdpOpen,
                 up_local = endpoint_zero\<lparr>ep_addr := AddrAny\<rparr>, up_rxQueue = []\<rparr>],
                udp_pcbs := udp_pcbs st @ [k]\<rparr>))"

text \<open>The search loops for a pointer, here and in \<open>tcp.Deletepcb\<close>.\<close>

fun index_of :: "nat \<Rightarrow> nat list \<Rightarrow> nat option" where
  "index_of k [] = None"
| "index_of k (p # ps) = (if p = k then Some 0 else map_option Suc (index_of k ps))"

definition udp_Close :: "nat \<Rightarrow> 'a udp_state_scheme \<Rightarrow> error option \<times> 'a udp_state_scheme" where
  "udp_Close k st =
     (case index_of k (udp_pcbs st) of
        None \<Rightarrow> (Some (Err ''pcb not found''), st)
      | Some i \<Rightarrow> (None, st\<lparr>udp_pcbs := take i (udp_pcbs st) @ drop (i + 1) (udp_pcbs st)\<rparr>))"

definition udp_Bind :: "nat \<Rightarrow> endpoint \<Rightarrow> 'a udp_state_scheme \<Rightarrow> error option \<times> 'a udp_state_scheme" where
  "udp_Bind k local st =
     (if \<exists>p \<in> set (udp_pcbs st). up_local (udp_store st ! p) = local
      then (Some (Err ''local address is already binded''), st)
      else (None, st\<lparr>udp_store := (udp_store st)[k := (udp_store st ! k)\<lparr>up_local := local\<rparr>]\<rparr>))"

text \<open>\<open>Listen\<close> gives the size, the data and the sender. With \<open>block\<close> it waits for data.\<close>

definition udp_Listen ::
    "bool \<Rightarrow> nat \<Rightarrow> 'a udp_state_scheme \<Rightarrow> (error + nat \<times> slice \<times> endpoint) \<times> 'a udp_state_scheme" where
  "udp_Listen block k st =
     (case up_rxQueue (udp_store st ! k) of
        buf # rest \<Rightarrow>
          (Inr (length (slice_bytes st (ub_data buf)), ub_data buf, ub_foreign buf),
           st\<lparr>udp_store := (udp_store st)[k := (udp_store st ! k)\<lparr>up_rxQueue := rest\<rparr>]\<rparr>)
      | [] \<Rightarrow> (if block then (Inl Blocked, st) else (Inr (0, Heap [], endpoint_zero), st)))"

section \<open>The protocol\<close>

definition udp_Init :: "'a ip_state_scheme \<Rightarrow> error option \<times> 'a ip_state_scheme" where
  "udp_Init st = ip_ProtoRegister UdpProto st"

definition udp_RxHandler ::
    "slice \<Rightarrow> u32 \<Rightarrow> u32 \<Rightarrow> nat \<Rightarrow> 'a udp_state_scheme \<Rightarrow> error option \<times> 'a udp_state_scheme" where
  "udp_RxHandler sl src dst i st =
     (let data = slice_bytes st sl
      in case udp_data2header data src dst of
           Inl e \<Rightarrow> (Some e, st)
         | Inr (hdr, payload) \<Rightarrow>
             (case udp_pcbSelect dst (uh_dst hdr) st of
                None \<Rightarrow> (Some (Err ''destination UDP protocol control block not found''), st)
              | Some k \<Rightarrow>
                  let pcb = udp_store st ! k;
                      buf = \<lparr>ub_foreign = \<lparr>ep_addr = src, ep_port = uh_src hdr\<rparr>,
                             ub_data = slice_from UdpHeaderSize sl\<rparr>
                  in if length (up_rxQueue pcb) < pcbBufSize
                     then (None, st\<lparr>udp_store := (udp_store st)[k :=
                             pcb\<lparr>up_rxQueue := up_rxQueue pcb @ [buf]\<rparr>]\<rparr>)
                     else (Some Blocked, st)))"

definition udp_TxHandler ::
    "(nat \<Rightarrow> u32 \<Rightarrow> 'a ip_state_scheme \<Rightarrow> (error + ether_addr) \<times> 'a ip_state_scheme) \<Rightarrow>
     endpoint \<Rightarrow> endpoint \<Rightarrow> bytes \<Rightarrow> 'a ip_state_scheme \<Rightarrow> error option \<times> 'a ip_state_scheme" where
  "udp_TxHandler resolve src dst data st =
     (if length data + UdpHeaderSize > PayloadSizeMax
      then (Some (Err ''data size is too large for UDP payload''), st)
      else
       (let hdr = \<lparr>uh_src = ep_port src, uh_dst = ep_port dst,
                   uh_len = of_nat (UdpHeaderSize + length data), uh_checksum = 0\<rparr>;
            (hdr', data') = udp_header2data hdr data (ep_addr src) (ep_addr dst)
        in ip_TxHandler resolve ProtoUDP data' (ep_addr src) (ep_addr dst) st))"

text \<open>The search of a local port in \<open>Send\<close>: it takes a port that is in use, and \<open>p <= PortMax\<close> is true
  of every \<open>uint16\<close>, so \<open>p\<close> wraps around and the loop goes on until it meets one. \<open>None\<close> is a loop
  that never ends.\<close>

partial_function (option) udp_port_search :: "(u16 \<Rightarrow> bool) \<Rightarrow> u16 \<Rightarrow> u16 option" where
  "udp_port_search used p =
     (if p \<le> PortMax then (if used p then Some p else udp_port_search used (p + 1)) else Some 0)"

definition udp_Send ::
    "(nat \<Rightarrow> u32 \<Rightarrow> 'a udp_state_scheme \<Rightarrow> (error + ether_addr) \<times> 'a udp_state_scheme) \<Rightarrow>
     nat \<Rightarrow> bytes \<Rightarrow> endpoint \<Rightarrow> 'a udp_state_scheme \<Rightarrow> (error option \<times> 'a udp_state_scheme) option" where
  "udp_Send resolve k data dst st =
     (let local = up_local (udp_store st ! k)
      in case (if ep_addr local = AddrAny
               then (case LookupTable (ep_addr dst) st of
                       Inl e \<Rightarrow> Inl e
                     | Inr route \<Rightarrow> Inr (local\<lparr>ep_addr := if_unicast (ifaces st ! rt_Iface route)\<rparr>))
               else Inr local) of
           Inl e \<Rightarrow> Some (Some e, st)
         | Inr local \<Rightarrow>
             if ep_port local = 0
             then (case udp_port_search (\<lambda>p. udp_pcbSelect (ep_addr local) p st \<noteq> None) PortMin of
                     None \<Rightarrow> None
                   | Some p \<Rightarrow>
                       if p = 0 then Some (Some (Err ''there is no port number to assign''), st)
                       else Some (udp_TxHandler resolve (local\<lparr>ep_port := p\<rparr>) dst data st))
             else Some (udp_TxHandler resolve local dst data st))"

section \<open>The port search\<close>

declare udp_port_search.simps [simp del]

lemma udp_port_search_step:
  "udp_port_search used p = (if used p then Some p else udp_port_search used (p + 1))"
proof -
  have "unat p \<le> 65535" using unat_u16_less [of p] by linarith
  then have "p \<le> PortMax" by (simp add: PortMax_def word_le_nat_alt)
  then show ?thesis by (simp add: udp_port_search.simps [of used p])
qed

lemma udp_port_search_None:
  assumes "\<And>q. \<not> used q"
  shows "udp_port_search used p = None"
proof -
  have "(\<forall>q. \<not> u q) \<longrightarrow> False" if "udp_port_search u p = Some r" for u p r
  proof (rule udp_port_search.raw_induct [OF _ that])
    fix f :: "(u16 \<Rightarrow> bool) \<Rightarrow> u16 \<Rightarrow> u16 option" and u p r
    assume IH: "\<And>u p r. f u p = Some r \<Longrightarrow> (\<forall>q. \<not> u q) \<longrightarrow> False"
      and step: "(if p \<le> PortMax then if u p then Some p else f u (p + 1) else Some 0) = Some r"
    have "unat p \<le> 65535" using unat_u16_less [of p] by linarith
    then have "p \<le> PortMax" by (simp add: PortMax_def word_le_nat_alt)
    with step IH show "(\<forall>q. \<not> u q) \<longrightarrow> False" by (auto split: if_splits)
  qed
  with assms have "udp_port_search used p \<noteq> Some r" for r by blast
  then show ?thesis by (cases "udp_port_search used p") auto
qed

lemma udp_port_search_Some:
  "used (p + of_nat n) \<Longrightarrow> (\<And>m. m < n \<Longrightarrow> \<not> used (p + of_nat m)) \<Longrightarrow>
     udp_port_search used p = Some (p + of_nat n)"
proof (induction n arbitrary: p)
  case (Suc n)
  have "\<not> used p" using Suc.prems(2) [of 0] by simp
  moreover have "udp_port_search used (p + 1) = Some (p + 1 + of_nat n)"
  proof (rule Suc.IH)
    show "used (p + 1 + of_nat n)" using Suc.prems(1) by (simp add: algebra_simps)
    show "\<not> used (p + 1 + of_nat m)" if "m < n" for m
      using Suc.prems(2) [of "Suc m"] that by (simp add: algebra_simps)
  qed
  ultimately show ?case
    by (subst udp_port_search_step) (simp add: algebra_simps)
qed (subst udp_port_search_step, simp)

text \<open>From any port the search meets, in order and around the end, the first port in use.\<close>

lemma udp_port_search_eq:
  "udp_port_search used p =
     (if \<exists>q. used q then Some (p + of_nat (LEAST n. used (p + of_nat n))) else None)"
proof (cases "\<exists>q. used q")
  case True
  then obtain q where q: "used q" by blast
  have "p + of_nat (unat (q - p)) = q" by simp
  then have "used (p + of_nat (unat (q - p)))" using q by metis
  then have least: "used (p + of_nat (LEAST n. used (p + of_nat n)))"
    by (rule LeastI)
  have "\<not> used (p + of_nat m)" if "m < (LEAST n. used (p + of_nat n))" for m
    using not_less_Least [OF that] .
  with least True show ?thesis by (simp add: udp_port_search_Some)
qed (simp add: udp_port_search_None)

section \<open>The table of sockets\<close>

lemma index_of_None: "index_of k ps = None \<longleftrightarrow> k \<notin> set ps"
  by (induction ps) auto

lemma index_of_remove1: "index_of k ps = Some i \<Longrightarrow> take i ps @ drop (i + 1) ps = remove1 k ps"
proof (induction ps arbitrary: i)
  case (Cons p ps)
  then show ?case by (cases "p = k") auto
qed simp

text \<open>Pointers in the table are valid and different, two sockets share an endpoint only while it is the
  zero endpoint, and no queue exceeds its capacity.\<close>

definition udp_ok :: "'a udp_state_scheme \<Rightarrow> bool" where
  "udp_ok st \<longleftrightarrow>
     distinct (udp_pcbs st) \<and> (\<forall>k \<in> set (udp_pcbs st). k < length (udp_store st)) \<and>
     (\<forall>k \<in> set (udp_pcbs st). \<forall>l \<in> set (udp_pcbs st).
        up_local (udp_store st ! k) = up_local (udp_store st ! l) \<longrightarrow>
        k = l \<or> up_local (udp_store st ! k) = endpoint_zero) \<and>
     (\<forall>p \<in> set (udp_store st). length (up_rxQueue p) \<le> pcbBufSize)"

lemma find_Some_iff_mem:
  "find P xs = Some x \<Longrightarrow> x \<in> set xs \<and> P x"
  by (induction xs) (auto split: if_splits)

lemma udp_pcbSelect_Some:
  "udp_pcbSelect a p st = Some k \<Longrightarrow>
     k \<in> set (udp_pcbs st) \<and> up_local (udp_store st ! k) = \<lparr>ep_addr = a, ep_port = p\<rparr>"
  by (auto simp: udp_pcbSelect_def dest: find_Some_iff_mem)

lemma udp_pcbSelect_None:
  "udp_pcbSelect a p st = None \<longleftrightarrow>
     (\<forall>k \<in> set (udp_pcbs st). up_local (udp_store st ! k) \<noteq> \<lparr>ep_addr = a, ep_port = p\<rparr>)"
proof -
  have "(e = \<lparr>ep_addr = a, ep_port = p\<rparr>) = (ep_addr e = a \<and> ep_port e = p)" for e :: endpoint
    by (cases e) simp
  then show ?thesis by (auto simp: udp_pcbSelect_def find_None_iff)
qed

lemma udp_pcbSelect_unique:
  assumes "udp_ok st" "k \<in> set (udp_pcbs st)" "up_local (udp_store st ! k) = \<lparr>ep_addr = a, ep_port = p\<rparr>"
    and "\<lparr>ep_addr = a, ep_port = p\<rparr> \<noteq> endpoint_zero"
  shows "udp_pcbSelect a p st = Some k"
proof (cases "udp_pcbSelect a p st")
  case None
  with assms show ?thesis by (simp add: udp_pcbSelect_None)
next
  case (Some l)
  from udp_pcbSelect_Some [OF this] assms have "l = k"
    unfolding udp_ok_def by metis
  with Some show ?thesis by simp
qed

lemma udp_Open_ok:
  assumes "udp_ok st"
  shows "udp_ok (snd (udp_Open st))"
  using assms
  by (auto simp: udp_ok_def udp_Open_def Let_def nth_append endpoint_zero_def AddrAny_def)

lemma udp_Close_eq:
  "udp_Close k st =
     (if k \<in> set (udp_pcbs st) then (None, st\<lparr>udp_pcbs := remove1 k (udp_pcbs st)\<rparr>)
      else (Some (Err ''pcb not found''), st))"
  using index_of_remove1 [of k "udp_pcbs st"] index_of_None [of k "udp_pcbs st"]
  by (auto simp: udp_Close_def split: option.split)

lemma udp_Close_ok:
  assumes "udp_ok st"
  shows "udp_ok (snd (udp_Close k st))"
  using assms by (auto simp: udp_ok_def udp_Close_eq dest: notin_set_remove1)

lemma udp_set_queue_ok:
  assumes "udp_ok st" "length q \<le> pcbBufSize"
  shows "udp_ok (st\<lparr>udp_store := (udp_store st)[k := (udp_store st ! k)\<lparr>up_rxQueue := q\<rparr>]\<rparr>)"
proof -
  have loc: "up_local ((udp_store st)[k := (udp_store st ! k)\<lparr>up_rxQueue := q\<rparr>] ! l) = up_local (udp_store st ! l)"
    for l by (cases "k < length (udp_store st)"; cases "l = k") (simp_all add: list_update_beyond)
  show ?thesis
    using assms
    by (auto simp: udp_ok_def loc dest!: set_update_subset_insert [THEN subsetD])
qed

lemma udp_Bind_ok:
  assumes "udp_ok st"
  shows "udp_ok (snd (udp_Bind k e st))"
proof (cases "\<exists>p \<in> set (udp_pcbs st). up_local (udp_store st ! p) = e")
  case False
  have loc: "l < length (udp_store st) \<Longrightarrow>
      up_local ((udp_store st)[k := (udp_store st ! k)\<lparr>up_local := e\<rparr>] ! l) =
      (if l = k then e else up_local (udp_store st ! l))" for l
    by (simp add: nth_list_update_if)
  have q: "length (up_rxQueue p) \<le> pcbBufSize"
    if "p \<in> set ((udp_store st)[k := (udp_store st ! k)\<lparr>up_local := e\<rparr>])" for p
    using that assms
    by (cases "k < length (udp_store st)")
       (auto simp: udp_ok_def list_update_beyond dest!: set_update_subset_insert [THEN subsetD])
  show ?thesis
    using assms False q by (auto simp: udp_Bind_def udp_ok_def loc)
qed (simp add: udp_Bind_def assms)

lemma udp_RxHandler_ok:
  assumes "udp_ok st"
  shows "udp_ok (snd (udp_RxHandler sl src dst i st))"
  using assms
  by (auto simp: udp_RxHandler_def Let_def intro!: udp_set_queue_ok split: sum.split option.split)

lemma udp_Listen_ok:
  assumes "udp_ok st" "k < length (udp_store st)"
  shows "udp_ok (snd (udp_Listen block k st))"
proof -
  have "length (up_rxQueue (udp_store st ! k)) \<le> pcbBufSize"
    using assms by (simp add: udp_ok_def)
  then show ?thesis
    using assms by (auto simp: udp_Listen_def intro!: udp_set_queue_ok split: list.split)
qed

text \<open>\<open>Open\<close> and \<open>Bind\<close> together claim an endpoint; \<open>pcbSelect\<close> finds the socket.\<close>

definition udp_claim :: "endpoint \<Rightarrow> 'a udp_state_scheme \<Rightarrow> (error + nat) \<times> 'a udp_state_scheme" where
  "udp_claim e st =
     (case udp_Open st of (k, st1) \<Rightarrow>
       (case udp_Bind k e st1 of
          (Some err, st2) \<Rightarrow> (Inl err, st2)
        | (None, st2) \<Rightarrow> (Inr k, st2)))"

definition udp_select :: "endpoint \<Rightarrow> 'a udp_state_scheme \<Rightarrow> nat option" where
  "udp_select e st = udp_pcbSelect (ep_addr e) (ep_port e) st"

lemma udp_select_Some:
  "udp_select e st = Some k \<Longrightarrow> k \<in> set (udp_pcbs st) \<and> up_local (udp_store st ! k) = e"
  using udp_pcbSelect_Some [of "ep_addr e" "ep_port e" st k] by (simp add: udp_select_def)

lemma udp_select_None:
  "udp_select e st = None \<longleftrightarrow> (\<forall>k \<in> set (udp_pcbs st). up_local (udp_store st ! k) \<noteq> e)"
  using udp_pcbSelect_None [of "ep_addr e" "ep_port e" st] by (simp add: udp_select_def)

lemma udp_select_unique:
  "udp_ok st \<Longrightarrow> k \<in> set (udp_pcbs st) \<Longrightarrow> up_local (udp_store st ! k) = e \<Longrightarrow> e \<noteq> endpoint_zero \<Longrightarrow>
     udp_select e st = Some k"
  using udp_pcbSelect_unique [of st k "ep_addr e" "ep_port e"] by (simp add: udp_select_def)

lemma find_append: "find P (xs @ ys) = (case find P xs of Some x \<Rightarrow> Some x | None \<Rightarrow> find P ys)"
  by (induction xs) auto

text \<open>A socket added at the end is found by its endpoint, and changes nothing for the others.\<close>

lemma udp_select_append:
  assumes "udp_ok st" "up_local p = e"
  shows "udp_select e' (st\<lparr>udp_store := udp_store st @ [p], udp_pcbs := udp_pcbs st @ [length (udp_store st)]\<rparr>) =
    (case udp_select e' st of Some k \<Rightarrow> Some k | None \<Rightarrow> if e' = e then Some (length (udp_store st)) else None)"
proof -
  have same: "find (\<lambda>k. ep_addr (up_local ((udp_store st @ [p]) ! k)) = ep_addr e' \<and>
               ep_port (up_local ((udp_store st @ [p]) ! k)) = ep_port e') (udp_pcbs st) =
             find (\<lambda>k. ep_addr (up_local (udp_store st ! k)) = ep_addr e' \<and>
               ep_port (up_local (udp_store st ! k)) = ep_port e') (udp_pcbs st)"
    using assms(1) by (intro find_cong) (auto simp: udp_ok_def nth_append)
  have "(ep_addr e = ep_addr e' \<and> ep_port e = ep_port e') = (e' = e)"
    by (cases e; cases e') auto
  with same assms(2) show ?thesis
    by (simp add: udp_select_def udp_pcbSelect_def find_append split: option.split)
qed

lemma udp_claim_cases:
  assumes "udp_ok st"
  obtains (refused) err st' where "udp_claim e st = (Inl err, st')" "st' = snd (udp_Open st)"
      "udp_select e st' \<noteq> None"
  | (taken) "udp_claim e st = (Inr (length (udp_store st)), st\<lparr>udp_store := udp_store st @
      [\<lparr>up_state = UdpOpen, up_local = e, up_rxQueue = []\<rparr>], udp_pcbs := udp_pcbs st @ [length (udp_store st)]\<rparr>)"
      "udp_select e st = None" "e \<noteq> endpoint_zero"
proof (cases "\<exists>p \<in> set (udp_pcbs (snd (udp_Open st))). up_local (udp_store (snd (udp_Open st)) ! p) = e")
  case True
  then have "udp_select e (snd (udp_Open st)) \<noteq> None" by (auto simp: udp_select_None)
  with True that(1) show ?thesis
    by (simp add: udp_claim_def udp_Bind_def case_prod_beta)
next
  case False
  then have new: "e \<noteq> endpoint_zero" "\<forall>k \<in> set (udp_pcbs st). up_local (udp_store st ! k) \<noteq> e"
    using assms
    by (auto simp: udp_Open_def Let_def nth_append endpoint_zero_def AddrAny_def udp_ok_def)
  then have "udp_select e st = None" by (simp add: udp_select_None)
  with False new that(2) show ?thesis
    by (simp add: udp_claim_def udp_Bind_def udp_Open_def Let_def)
qed

lemma udp_Open_select:
  assumes "udp_ok st" "e \<noteq> endpoint_zero"
  shows "udp_select e (snd (udp_Open st)) = udp_select e st"
  using assms(2) udp_select_append [OF assms(1) refl]
  by (auto simp: udp_Open_def Let_def AddrAny_def endpoint_zero_def split: option.split)

interpretation udp_table: socket_table udp_claim udp_select udp_ok
proof (unfold_locales, goal_cases)
  case (1 s e)
  then show ?case
    by (simp add: udp_claim_def case_prod_beta udp_Bind_ok udp_Open_ok split: option.split)
next
  case (2 s e)
  from 2(1) show ?case
    by (cases rule: udp_claim_cases [of s e]) (use 2 in auto)
next
  case (3 s e)
  from 3(1) show ?case
  proof (cases rule: udp_claim_cases [of s e])
    case (refused err st')
    with 3 udp_Open_select show ?thesis by metis
  next
    case taken
    with 3 udp_select_append [OF 3(1), of _ e e] show ?thesis by simp
  qed
next
  case (4 s e' e)
  from 4(1) show ?case
  proof (cases rule: udp_claim_cases [of s e])
    case (refused err st')
    with 4 udp_Open_select show ?thesis by simp
  next
    case taken
    with 4 udp_select_append [OF 4(1), of _ e e'] show ?thesis by (simp split: option.split)
  qed
next
  case (5 s e k e')
  then show ?case by (auto dest: udp_select_Some)
qed

text \<open>Sending leaves the sockets as they are: \<open>ip.TxHandler\<close> with \<open>arp.Resolve\<close> does not reach them.\<close>

lemma udp_more:
  assumes "arp_state.more s' = arp_state.more s"
  shows "udp_store s' = udp_store s" "udp_pcbs s' = udp_pcbs s"
  using assms by (cases s; cases s'; simp)+

lemma udp_TxHandler_more:
  "arp_state.more (snd (udp_TxHandler arp_Resolve src dst data st)) = arp_state.more st"
  by (simp add: udp_TxHandler_def Let_def case_prod_beta arp_upper.TxHandler_upper)

lemma udp_Send_sockets:
  assumes "udp_Send arp_Resolve k data dst st = Some (err, st')"
  shows "udp_store st' = udp_store st \<and> udp_pcbs st' = udp_pcbs st"
proof -
  define L where "L = (let local = up_local (udp_store st ! k)
      in if ep_addr local = AddrAny
               then (case LookupTable (ep_addr dst) st of
                       Inl e \<Rightarrow> Inl e
                     | Inr route \<Rightarrow> Inr (local\<lparr>ep_addr := if_unicast (ifaces st ! rt_Iface route)\<rparr>))
               else Inr local)"
  have send: "udp_Send arp_Resolve k data dst st = (case L of
           Inl e \<Rightarrow> Some (Some e, st)
         | Inr local \<Rightarrow>
             if ep_port local = 0
             then (case udp_port_search (\<lambda>p. udp_pcbSelect (ep_addr local) p st \<noteq> None) PortMin of
                     None \<Rightarrow> None
                   | Some p \<Rightarrow>
                       if p = 0 then Some (Some (Err ''there is no port number to assign''), st)
                       else Some (udp_TxHandler arp_Resolve (local\<lparr>ep_port := p\<rparr>) dst data st))
             else Some (udp_TxHandler arp_Resolve local dst data st))"
    by (simp only: udp_Send_def Let_def L_def)
  have tx: "arp_state.more st' = arp_state.more st"
    if "udp_TxHandler arp_Resolve l dst data st = (err, st')" for l
    using that udp_TxHandler_more [of l dst data st] by simp
  have "arp_state.more st' = arp_state.more st"
  proof (cases L)
    case (Inl e)
    with assms send show ?thesis by simp
  next
    case (Inr l)
    show ?thesis
    proof (cases "ep_port l = 0")
      case True
      show ?thesis
      proof (cases "udp_port_search (\<lambda>p. udp_pcbSelect (ep_addr l) p st \<noteq> None) PortMin")
        case None
        with assms send Inr True show ?thesis by (simp del: not_None_eq)
      next
        case (Some p)
        with assms send Inr True tx [of "l\<lparr>ep_port := p\<rparr>"] show ?thesis
          by (cases "p = 0") (simp_all del: not_None_eq)
      qed
    next
      case False
      with assms send Inr tx [of l] show ?thesis by simp
    qed
  qed
  then show ?thesis using udp_more [of st' st] by blast
qed

lemma udp_ok_cong:
  "udp_store st' = udp_store st \<Longrightarrow> udp_pcbs st' = udp_pcbs st \<Longrightarrow> udp_ok st' = udp_ok st"
  by (simp add: udp_ok_def)

section \<open>Properties\<close>

text \<open>C20. A datagram \<open>TxHandler\<close> builds is read back by the receiver with the same addresses: the
  checksum over the pseudo header verifies, the header and the payload are those sent.\<close>

theorem udp_roundtrip:
  assumes "udp_sendable h p"
  shows "udp_data2header (snd (udp_header2data h p src dst)) src dst =
    Inr (fst (udp_header2data h p src dst), p)"
  by (rule udp_codec.reads_back [OF assms])

definition demo_udp_header :: udp_header where
  "demo_udp_header = \<lparr>uh_src = 49152, uh_dst = 53, uh_len = 11, uh_checksum = 0\<rparr>"

lemma demo_udp_sendable: "udp_sendable demo_udp_header [1, 2, 3]"
  by (simp add: udp_sendable_def demo_udp_header_def)

theorem udp_roundtrip_witness:
  "map_sum id snd (udp_data2header (snd (udp_header2data demo_udp_header [1, 2, 3] 7 8)) 7 8) = Inr [1, 2, 3]"
  using udp_roundtrip [OF demo_udp_sendable, of 7 8] by simp

text \<open>A datagram is dropped when the frame that carried it was padded: IP hands on all bytes
  behind its header, and \<open>data2header\<close> wants the length of the datagram to be exactly theirs. Every
  datagram shorter than the minimum Ethernet payload of 46 bytes arrives that way.\<close>

theorem udp_padded_datagram_dropped:
  assumes "udp_sendable h p" "pad \<noteq> []" "slice_bytes st sl = snd (udp_header2data h p src dst) @ pad"
  shows "udp_RxHandler sl src dst i st =
    (Some (Err ''data length is not the same as that written in header''), st)"
  by (simp add: udp_RxHandler_def assms(3) udp_padded_refused [OF assms(1,2)])

definition udp_demo :: udp_state where
  "udp_demo = \<lparr>devices = [], interfaces = [],
     ifaces = [\<lparr>if_dev = None, if_unicast = 7, if_netmask = 0, if_broadcast = 7\<rparr>], protos = [],
     protoBuffers = [], now = 0,
     routes = [\<lparr>rt_network = 0, rt_netmask = 0, rt_nexthop = 0, rt_Iface = 0\<rparr>], ip_id = 0, ip_protos = [],
     caches = [],
     udp_store = [\<lparr>up_state = UdpOpen, up_local = \<lparr>ep_addr = 8, ep_port = 53\<rparr>, up_rxQueue = []\<rparr>,
       \<lparr>up_state = UdpOpen, up_local = endpoint_zero, up_rxQueue = []\<rparr>],
     udp_pcbs = [0, 1]\<rparr>"

lemma udp_demo_ok: "udp_ok udp_demo"
  by (auto simp: udp_ok_def udp_demo_def endpoint_zero_def)

theorem udp_padded_datagram_dropped_witness:
  "fst (udp_RxHandler (Heap (snd (udp_header2data demo_udp_header [1, 2, 3] 7 8) @ [0])) 7 8 0 udp_demo) \<noteq> None"
  using udp_padded_datagram_dropped [OF demo_udp_sendable, of "[0]" udp_demo
      "Heap (snd (udp_header2data demo_udp_header [1, 2, 3] 7 8) @ [0])" 7 8 0] by simp

text \<open>The table of sockets stays well formed under every operation: pointers are valid and
  different, no two sockets are bound to one endpoint, no queue holds more than a hundred
  datagrams. A send never touches it.\<close>

theorem udp_ok_operations:
  assumes "udp_ok st"
  shows "udp_ok (snd (udp_Open st)) \<and> udp_ok (snd (udp_Close k st)) \<and> udp_ok (snd (udp_Bind k e st)) \<and>
    udp_ok (snd (udp_RxHandler sl src dst i st)) \<and>
    (k < length (udp_store st) \<longrightarrow> udp_ok (snd (udp_Listen block k st))) \<and>
    (udp_Send arp_Resolve k data to st = Some (err, st') \<longrightarrow> udp_ok st')"
proof -
  have "udp_ok st'" if "udp_Send arp_Resolve k data to st = Some (err, st')"
    using udp_Send_sockets [OF that] assms by (simp add: udp_ok_def)
  then show ?thesis
    using udp_Open_ok [OF assms] udp_Close_ok [OF assms] udp_Bind_ok [OF assms] udp_RxHandler_ok [OF assms]
      udp_Listen_ok [OF assms] by blast
qed

theorem udp_ok_operations_witness:
  "udp_ok (snd (udp_Bind 1 \<lparr>ep_addr = 8, ep_port = 54\<rparr> udp_demo)) \<and>
   udp_ok (snd (udp_Close 0 udp_demo)) \<and> udp_ok (snd (udp_Open udp_demo))"
  using udp_ok_operations [OF udp_demo_ok] by blast

text \<open>C38. Sockets that claim endpoints are told apart. Whatever endpoints were claimed before and are
  claimed later, the socket that first claims a free endpoint is the one that datagrams for this endpoint are
  given to: \<open>pcbSelect\<close> finds exactly its pointer, it is in the table with the endpoint as its local one, no other
  endpoint leads to it, and a second claim is refused.\<close>

theorem udp_sockets_told_apart:
  assumes "udp_ok st" "e \<noteq> endpoint_zero" "udp_select e st = None" "e \<notin> set es1"
    and "st1 = fold (\<lambda>e s. snd (udp_claim e s)) es1 st"
    and "st' = fold (\<lambda>e s. snd (udp_claim e s)) es2 (snd (udp_claim e st1))"
  shows "\<exists>k. fst (udp_claim e st1) = Inr k \<and> udp_select e st' = Some k \<and>
    k \<in> set (udp_pcbs st') \<and> up_local (udp_store st' ! k) = e \<and>
    (\<forall>e'. e' \<noteq> e \<longrightarrow> udp_select e' st' \<noteq> Some k) \<and> (\<exists>err. fst (udp_claim e st') = Inl err)"
proof -
  obtain k where k: "fst (udp_claim e st1) = Inr k" "udp_select e st' = Some k" "\<exists>err. fst (udp_claim e st') = Inl err"
    using udp_table.claims_taken [OF assms(1-4), of st1 st' es2] assms(5,6) by (auto simp: udp_table.claims_def)
  with udp_select_Some show ?thesis by blast
qed

theorem udp_sockets_told_apart_witness:
  "\<exists>k. udp_select \<lparr>ep_addr = 8, ep_port = 55\<rparr> (fold (\<lambda>e s. snd (udp_claim e s))
      [\<lparr>ep_addr = 8, ep_port = 56\<rparr>, \<lparr>ep_addr = 8, ep_port = 55\<rparr>] (snd (udp_claim \<lparr>ep_addr = 8, ep_port = 55\<rparr>
        (fold (\<lambda>e s. snd (udp_claim e s)) [\<lparr>ep_addr = 8, ep_port = 54\<rparr>] udp_demo)))) = Some k"
proof -
  have "\<lparr>ep_addr = 8, ep_port = 55\<rparr> \<noteq> endpoint_zero" "udp_select \<lparr>ep_addr = 8, ep_port = 55\<rparr> udp_demo = None"
    by (simp_all add: endpoint_zero_def udp_select_None udp_demo_def)
  from udp_sockets_told_apart [OF udp_demo_ok this _ refl refl, where ?es1.0 = "[\<lparr>ep_addr = 8, ep_port = 54\<rparr>]"
      and ?es2.0 = "[\<lparr>ep_addr = 8, ep_port = 56\<rparr>, \<lparr>ep_addr = 8, ep_port = 55\<rparr>]"]
  show ?thesis by fastforce
qed

text \<open>C15. A datagram whose checksum verifies reaches the socket bound to its destination and no other:
  its queue gains the payload and the sender, and \<open>Listen\<close> on it returns them when the queue was
  empty; the send on the full channel blocks.\<close>

theorem udp_Rx_delivers:
  assumes "udp_ok st" "k \<in> set (udp_pcbs st)"
    and "up_local (udp_store st ! k) = \<lparr>ep_addr = dst, ep_port = uh_dst hdr\<rparr>"
    and "\<lparr>ep_addr = dst, ep_port = uh_dst hdr\<rparr> \<noteq> endpoint_zero"
    and "udp_data2header (slice_bytes st sl) src dst = Inr (hdr, payload)"
  shows "if length (up_rxQueue (udp_store st ! k)) < 100
    then \<exists>st' buf. udp_RxHandler sl src dst i st = (None, st') \<and>
      up_rxQueue (udp_store st' ! k) = up_rxQueue (udp_store st ! k) @ [buf] \<and>
      slice_bytes st' (ub_data buf) = payload \<and> ub_foreign buf = \<lparr>ep_addr = src, ep_port = uh_src hdr\<rparr> \<and>
      (\<forall>l. l \<noteq> k \<longrightarrow> udp_store st' ! l = udp_store st ! l) \<and>
      (up_rxQueue (udp_store st ! k) = [] \<longrightarrow>
         fst (udp_Listen block k st') = Inr (length payload, ub_data buf, ub_foreign buf))
    else udp_RxHandler sl src dst i st = (Some Blocked, st)"
proof -
  define pcb where "pcb = udp_store st ! k"
  define buf where "buf = \<lparr>ub_foreign = \<lparr>ep_addr = src, ep_port = uh_src hdr\<rparr>,
                           ub_data = slice_from UdpHeaderSize sl\<rparr>"
  define st' where "st' = st\<lparr>udp_store := (udp_store st)[k := pcb\<lparr>up_rxQueue := up_rxQueue pcb @ [buf]\<rparr>]\<rparr>"
  have k: "k < length (udp_store st)" using assms(1,2) by (simp add: udp_ok_def)
  have sel: "udp_pcbSelect dst (uh_dst hdr) st = Some k"
    by (rule udp_pcbSelect_unique [OF assms(1-4)])
  have rx: "udp_RxHandler sl src dst i st =
      (if length (up_rxQueue pcb) < 100 then (None, st') else (Some Blocked, st))"
    by (simp add: udp_RxHandler_def assms(5) sel pcb_def st'_def buf_def Let_def pcbBufSize_def)
  have "payload = drop 8 (slice_bytes st sl)"
    using assms(5) by (auto simp: udp_data2header_def Let_def UdpHeaderSize_def split: if_splits)
  moreover have "slice_bytes st' s = slice_bytes st s" for s
    by (cases s) (simp_all add: st'_def)
  ultimately have data: "slice_bytes st' (ub_data buf) = payload"
    by (simp add: buf_def slice_bytes_from UdpHeaderSize_def)
  have at_k: "udp_store st' ! k = pcb\<lparr>up_rxQueue := up_rxQueue pcb @ [buf]\<rparr>"
    and at_l: "l \<noteq> k \<Longrightarrow> udp_store st' ! l = udp_store st ! l" for l
    using k by (simp_all add: st'_def)
  show ?thesis
  proof (cases "length (up_rxQueue pcb) < 100")
    case True
    have "udp_RxHandler sl src dst i st = (None, st') \<and>
      up_rxQueue (udp_store st' ! k) = up_rxQueue (udp_store st ! k) @ [buf] \<and>
      slice_bytes st' (ub_data buf) = payload \<and> ub_foreign buf = \<lparr>ep_addr = src, ep_port = uh_src hdr\<rparr> \<and>
      (\<forall>l. l \<noteq> k \<longrightarrow> udp_store st' ! l = udp_store st ! l) \<and>
      (up_rxQueue (udp_store st ! k) = [] \<longrightarrow>
         fst (udp_Listen block k st') = Inr (length payload, ub_data buf, ub_foreign buf))"
      using True rx at_k at_l data by (simp add: pcb_def udp_Listen_def) (simp add: buf_def)
    with True show ?thesis unfolding pcb_def by auto
  qed (use rx in \<open>simp add: pcb_def\<close>)
qed

theorem udp_Rx_delivers_witness:
  "\<exists>st' buf. udp_RxHandler (Heap (snd (udp_header2data demo_udp_header [1, 2, 3] 7 8))) 7 8 0 udp_demo = (None, st') \<and>
     fst (udp_Listen False 0 st') = Inr (3, buf, \<lparr>ep_addr = 7, ep_port = 49152\<rparr>) \<and>
     slice_bytes st' buf = [1, 2, 3]"
proof -
  let ?sl = "Heap (snd (udp_header2data demo_udp_header [1, 2, 3] 7 8))"
  have hdr: "uh_dst (fst (udp_header2data demo_udp_header [1, 2, 3] 7 8)) = 53"
    "uh_src (fst (udp_header2data demo_udp_header [1, 2, 3] 7 8)) = 49152"
    by (simp_all add: udp_header2data_def demo_udp_header_def Let_def)
  have read: "udp_data2header (slice_bytes udp_demo ?sl) 7 8 =
      Inr (fst (udp_header2data demo_udp_header [1, 2, 3] 7 8), [1, 2, 3])"
    using udp_reads_back [OF demo_udp_sendable] by simp
  show ?thesis
    using udp_Rx_delivers [OF udp_demo_ok, of 0 8, OF _ _ _ read, of 0 False]
    unfolding hdr by (fastforce simp: udp_demo_def endpoint_zero_def)
qed

text \<open>C39. \<open>Send\<close> on a socket without a port looks for a port that is taken, where it means a free one:
  it never returns when no socket is bound to the source address, and otherwise sends under the
  port of one that is, the first from 49152 on and around the end.\<close>

theorem udp_Send_takes_used_port:
  assumes "ep_port (up_local (udp_store st ! k)) = 0" "ep_addr (up_local (udp_store st ! k)) = AddrAny"
    and "LookupTable (ep_addr dst) st = Inr r" "a = if_unicast (ifaces st ! rt_Iface r)"
    and "p = PortMin + of_nat (LEAST n. udp_pcbSelect a (PortMin + of_nat n) st \<noteq> None)"
  shows "udp_Send resolve k data dst st =
    (if \<forall>q. udp_pcbSelect a q st = None then None
     else if p = 0 then Some (Some (Err ''there is no port number to assign''), st)
     else Some (udp_TxHandler resolve \<lparr>ep_addr = a, ep_port = p\<rparr> dst data st))"
proof -
  have local: "(up_local (udp_store st ! k))\<lparr>ep_addr := a, ep_port := p\<rparr> = \<lparr>ep_addr = a, ep_port = p\<rparr>"
    by (cases "up_local (udp_store st ! k)") simp
  have search: "udp_port_search (\<lambda>q. udp_pcbSelect a q st \<noteq> None) PortMin =
      (if \<forall>q. udp_pcbSelect a q st = None then None else Some p)"
    unfolding udp_port_search_eq assms(5) by simp
  show ?thesis
    using assms(1,2)
    by (simp add: udp_Send_def assms(3) assms(4) [symmetric] search local del: not_None_eq)
qed

theorem udp_Send_takes_used_port_witness:
  "udp_Send arp_Resolve 1 [1] \<lparr>ep_addr = 9, ep_port = 9\<rparr> udp_demo = None"
proof -
  have "udp_Send arp_Resolve 1 [1] \<lparr>ep_addr = 9, ep_port = 9\<rparr> udp_demo =
    (if \<forall>q. udp_pcbSelect 7 q udp_demo = None then None
     else if PortMin + of_nat (LEAST n. udp_pcbSelect 7 (PortMin + of_nat n) udp_demo \<noteq> None) = 0
     then Some (Some (Err ''there is no port number to assign''), udp_demo)
     else Some (udp_TxHandler arp_Resolve \<lparr>ep_addr = 7, ep_port = PortMin + of_nat
       (LEAST n. udp_pcbSelect 7 (PortMin + of_nat n) udp_demo \<noteq> None)\<rparr> \<lparr>ep_addr = 9, ep_port = 9\<rparr> [1] udp_demo))"
    by (rule udp_Send_takes_used_port [where r = "\<lparr>rt_network = 0, rt_netmask = 0, rt_nexthop = 0, rt_Iface = 0\<rparr>"])
       (simp_all add: udp_demo_def endpoint_zero_def AddrAny_def LookupTable_eq)
  moreover have "\<forall>q. udp_pcbSelect 7 q udp_demo = None"
    by (simp add: udp_pcbSelect_None udp_demo_def endpoint_zero_def)
  ultimately show ?thesis by simp
qed

end
