(* ===== verification/TcpHeader.thy ===== *)
theory TcpHeader
  imports Udp
begin

text \<open>
  The TCP header with its flags and its pseudo header (\<open>pkg/tcp/header.go\<close>). Endpoints are those of
  UDP.
\<close>

section \<open>Flags\<close>

definition CWR :: u8 where "CWR = 0x80"
definition ECE :: u8 where "ECE = 0x40"
definition URG :: u8 where "URG = 0x20"
definition ACK :: u8 where "ACK = 0x10"
definition PSH :: u8 where "PSH = 0x08"
definition RST :: u8 where "RST = 0x04"
definition SYN :: u8 where "SYN = 0x02"
definition FIN :: u8 where "FIN = 0x01"

lemmas tcp_flags = CWR_def ECE_def URG_def ACK_def PSH_def RST_def SYN_def FIN_def

definition isSet :: "u8 \<Rightarrow> u8 \<Rightarrow> bool" where
  "isSet a b = (a AND b > 0)"

definition flag_up :: "u8 \<Rightarrow> u8 \<Rightarrow> string \<Rightarrow> string" where
  "flag_up a b str = (if a AND b > 0 then str else [])"

definition ControlFlag_String :: "u8 \<Rightarrow> string" where
  "ControlFlag_String f =
     flag_up f CWR ''CWR '' @ flag_up f ECE ''ECE '' @ flag_up f URG ''URG '' @ flag_up f ACK ''ACK '' @
     flag_up f PSH ''PSH '' @ flag_up f RST ''RST '' @ flag_up f SYN ''SYN '' @ flag_up f FIN ''FIN ''"

section \<open>The header\<close>

definition TcpHeaderSizeMin :: nat where "TcpHeaderSizeMin = 20"
definition TcpPseudoHeaderSize :: nat where "TcpPseudoHeaderSize = 12"

record tcp_header =
  th_src :: u16
  th_dst :: u16
  th_seq :: u32
  th_ack :: u32
  th_offset :: u8
  th_flag :: u8
  th_window :: u16
  th_checksum :: u16
  th_urgent :: u16

definition tcp_encode :: "tcp_header \<Rightarrow> bytes" where
  "tcp_encode h =
     be16 (th_src h) @ be16 (th_dst h) @ be32 (th_seq h) @ be32 (th_ack h) @
     [th_offset h, th_flag h] @ be16 (th_window h) @ be16 (th_checksum h) @ be16 (th_urgent h)"

definition tcp_decode :: "bytes \<Rightarrow> tcp_header" where
  "tcp_decode bs =
     \<lparr>th_src = get16 bs 0, th_dst = get16 bs 2, th_seq = get32 bs 4, th_ack = get32 bs 8,
      th_offset = bs ! 12, th_flag = bs ! 13, th_window = get16 bs 14, th_checksum = get16 bs 16,
      th_urgent = get16 bs 18\<rparr>"

definition tcp_pseudo :: "u32 \<Rightarrow> u32 \<Rightarrow> u16 \<Rightarrow> bytes" where
  "tcp_pseudo src dst len = be32 src @ be32 dst @ [0, ProtoTCP] @ be16 len"

definition tcp_data2header :: "bytes \<Rightarrow> u32 \<Rightarrow> u32 \<Rightarrow> error + tcp_header \<times> bytes" where
  "tcp_data2header data src dst =
     (if length data < TcpHeaderSizeMin then Inl (Err ''data size is too small for TCP Header'')
      else
        (let hdr = tcp_decode data;
             chksum = CheckSum (tcp_pseudo src dst (of_nat (length data))) 0;
             chksum = CheckSum data (ucast (NOT chksum))
         in if chksum \<noteq> 0 \<and> chksum \<noteq> 0xffff then Inl (Err ''checksum error (TCP)'')
            else Inr (hdr, drop TcpHeaderSizeMin data)))"

definition tcp_header2data :: "tcp_header \<Rightarrow> bytes \<Rightarrow> u32 \<Rightarrow> u32 \<Rightarrow> tcp_header \<times> bytes" where
  "tcp_header2data hdr payload src dst =
     (let buf = tcp_pseudo src dst (of_nat (TcpHeaderSizeMin + length payload)) @ tcp_encode hdr @ payload;
          chksum = CheckSum buf 0;
          buf = take 28 buf @ Hton16 chksum @ drop 30 buf
      in (hdr\<lparr>th_checksum := chksum\<rparr>, drop TcpPseudoHeaderSize buf))"

section \<open>What is sent and what is accepted\<close>

lemma length_tcp_encode [simp]: "length (tcp_encode h) = 20"
  by (simp add: tcp_encode_def)

lemma length_tcp_pseudo [simp]: "length (tcp_pseudo s d n) = 12"
  by (simp add: tcp_pseudo_def)

lemma tcp_decode_encode: "tcp_decode (tcp_encode h @ p) = h"
  by (cases h) (simp add: tcp_decode_def tcp_encode_def be_bytes)

lemma tcp_encode_checksum:
  "tcp_encode (h\<lparr>th_checksum := c\<rparr>) = take 16 (tcp_encode h) @ be16 c @ drop 18 (tcp_encode h)"
  by (simp add: tcp_encode_def be_bytes)

lemma tcp_sent:
  "snd (tcp_header2data h p s d) = tcp_encode (fst (tcp_header2data h p s d)) @ p"
  by (simp add: tcp_header2data_def Let_def TcpPseudoHeaderSize_def tcp_encode_checksum Hton16_be16)

definition tcp_sendable :: "tcp_header \<Rightarrow> bytes \<Rightarrow> bool" where
  "tcp_sendable h p \<longleftrightarrow> th_checksum h = 0 \<and> length p \<le> 65495"

lemma tcp_sent_verifies:
  assumes "tcp_sendable h p"
  shows "CheckSum (snd (tcp_header2data h p s d))
    (ucast (NOT (CheckSum (tcp_pseudo s d (of_nat (20 + length p))) 0))) = 0"
proof -
  define q where "q = tcp_pseudo s d (of_nat (20 + length p))"
  define a where "a = take 16 (tcp_encode h)"
  define z where "z = drop 18 (tcp_encode h) @ p"
  have enc: "tcp_encode h @ p = a @ [0, 0] @ z" "length a = 16" "length q = 12" "length z = 2 + length p"
    using assms by (simp_all add: a_def z_def q_def tcp_encode_def be_bytes tcp_sendable_def hi8_def lo8_def)
  have "snd (tcp_header2data h p s d) = a @ Hton16 (CheckSum (q @ a @ [0, 0] @ z) 0) @ z"
    using enc
    by (simp add: tcp_header2data_def Let_def TcpPseudoHeaderSize_def TcpHeaderSizeMin_def q_def)
  moreover have "even (length q)" "even (length a)" "length (q @ a @ [0, 0] @ z) \<le> 65536"
    using enc assms by (simp_all add: tcp_sendable_def)
  ultimately show ?thesis by (simp only: transport_checksum_verifies q_def)
qed

lemma tcp_reads_back:
  assumes "tcp_sendable h p"
  shows "tcp_data2header (snd (tcp_header2data h p s d)) s d = Inr (fst (tcp_header2data h p s d), p)"
  using tcp_sent_verifies [OF assms, of s d] unfolding tcp_data2header_def tcp_sent
  by (simp add: tcp_decode_encode TcpHeaderSizeMin_def Let_def)

interpretation tcp_codec: header_codec "\<lambda>h p. snd (tcp_header2data h p s d)" "\<lambda>m. tcp_data2header m s d"
    tcp_sendable "\<lambda>h p. fst (tcp_header2data h p s d)" for s d
  by unfold_locales (rule tcp_reads_back)

text \<open>C19. A segment \<open>TxHandler\<close> builds is read back by the receiver with the same addresses: the
  checksum over the pseudo header verifies, the header and the payload are those sent.\<close>

theorem tcp_roundtrip:
  assumes "tcp_sendable h p"
  shows "tcp_data2header (snd (tcp_header2data h p src dst)) src dst =
    Inr (fst (tcp_header2data h p src dst), p)"
  by (rule tcp_codec.reads_back [OF assms])

definition demo_tcp_header :: tcp_header where
  "demo_tcp_header = \<lparr>th_src = 1, th_dst = 2, th_seq = 3, th_ack = 4, th_offset = 0x50, th_flag = 0x18,
     th_window = 5, th_checksum = 0, th_urgent = 0\<rparr>"

theorem tcp_roundtrip_witness:
  "map_sum id snd (tcp_data2header (snd (tcp_header2data demo_tcp_header [1, 2, 3] 7 8)) 7 8) = Inr [1, 2, 3]"
proof -
  have "tcp_sendable demo_tcp_header [1, 2, 3]"
    by (simp add: tcp_sendable_def demo_tcp_header_def)
  from tcp_roundtrip [OF this, of 7 8] show ?thesis by simp
qed

end
