(* ===== verification/TcpPcb.thy ===== *)
theory TcpPcb
  imports TcpHeader
begin

text \<open>
  The connections of TCP (\<open>pkg/tcp/pcb.go\<close>, data and queues): the control block, the retransmission
  queue, the signals to the user, the table of connections, and the estimate of the retransmission
  timeout (\<open>timer.go\<close>). A \<open>*pcb\<close> is its index in a store. A user's channel is a number, \<open>None\<close> being
  the \<open>nil\<close> channel; what is sent on channels is logged in order, so a send on a user's channel
  does not wait for the user, and a send on \<open>nil\<close> is \<open>Blocked\<close>. The buffer and the counter that a
  user passes to \<open>Receive\<close> are cells of a store.
\<close>

section \<open>Data\<close>

definition maxRetxCount :: u8 where "maxRetxCount = 3"

definition triggerNo :: u8 where "triggerNo = 0"
definition triggerOpen :: u8 where "triggerOpen = 1"
definition triggerClose :: u8 where "triggerClose = 2"
definition triggerReceive :: u8 where "triggerReceive = 3"
definition triggerSend :: u8 where "triggerSend = 4"

lemmas tcp_triggers =
  triggerNo_def triggerOpen_def triggerClose_def triggerReceive_def triggerSend_def

record retx_entry =
  re_data :: bytes
  re_seq :: u32
  re_flag :: u8
  re_first :: int
  re_last :: int
  re_retxCount :: u8
  re_errCh :: "nat option"
  re_trigger :: u8

record rcv_cmd =
  rc_n :: nat
  rc_data :: nat
  rc_errCh :: "nat option"

definition rcv_cmd_zero :: rcv_cmd where
  "rcv_cmd_zero = \<lparr>rc_n = 0, rc_data = 0, rc_errCh = None\<rparr>"

datatype pcb_state =
  StListen | StSYNSent | StSYNReceived | StEstablished | StFINWait1 | StFINWait2 | StCloseWait
| StClosing | StLastACK | StTimeWait | StClosed

fun PCBState_String :: "pcb_state \<Rightarrow> string" where
  "PCBState_String StListen = ''LISTEN''"
| "PCBState_String StSYNSent = ''SYN-SENT''"
| "PCBState_String StSYNReceived = ''SYN-RECEIVED''"
| "PCBState_String StEstablished = ''ESTABLISHED''"
| "PCBState_String StFINWait1 = ''FIN-WAIT-1''"
| "PCBState_String StFINWait2 = ''FIN-WAIT-2''"
| "PCBState_String StCloseWait = ''CLOSE-WAIT''"
| "PCBState_String StClosing = ''CLOSING''"
| "PCBState_String StLastACK = ''LAST-ACK''"
| "PCBState_String StTimeWait = ''TIME-WAIT''"
| "PCBState_String StClosed = ''CLOSED''"

definition tcpBufferSize :: nat where "tcpBufferSize = 65535"

record tcp_pcb =
  tp_state :: pcb_state
  tp_local :: endpoint
  tp_foreign :: endpoint
  snd_una :: u32
  snd_nxt :: u32
  snd_wnd :: u16
  snd_up :: u16
  snd_wl1 :: u32
  snd_wl2 :: u32
  tp_iss :: u32
  rcv_nxt :: u32
  rcv_wnd :: u16
  rcv_up :: u16
  tp_irs :: u32
  tp_mss :: u16
  tp_rxQueue :: bytes
  tp_rxLen :: u16
  tp_retxQueue :: "retx_entry list"
  tp_rcvCmd :: rcv_cmd
  tp_timeout :: int
  tp_lastTxTime :: int

text \<open>The package's variables \<open>pcbs\<close>, \<open>srtt\<close> and \<open>rto\<close>, the store of the control blocks, the log of
  the channels, and the users' memory.\<close>

record tcp_state = udp_state +
  tcp_store :: "tcp_pcb list"
  tcp_pcbs :: "nat list"
  tcp_srtt :: int
  tcp_rto :: int
  tcp_log :: "(nat \<times> error option) list"
  tcp_bufs :: "bytes list"
  tcp_ints :: "int list"

abbreviation pcb_at :: "'a tcp_state_scheme \<Rightarrow> nat \<Rightarrow> tcp_pcb" where
  "pcb_at st k \<equiv> tcp_store st ! k"

definition upd_pcb :: "nat \<Rightarrow> (tcp_pcb \<Rightarrow> tcp_pcb) \<Rightarrow> 'a tcp_state_scheme \<Rightarrow> 'a tcp_state_scheme" where
  "upd_pcb k f st = st\<lparr>tcp_store := (tcp_store st)[k := f (tcp_store st ! k)]\<rparr>"

definition chan_send :: "nat \<Rightarrow> error option \<Rightarrow> 'a tcp_state_scheme \<Rightarrow> 'a tcp_state_scheme" where
  "chan_send ch msg st = st\<lparr>tcp_log := tcp_log st @ [(ch, msg)]\<rparr>"

definition tcp_transition :: "nat \<Rightarrow> pcb_state \<Rightarrow> 'a tcp_state_scheme \<Rightarrow> 'a tcp_state_scheme" where
  "tcp_transition k s st = upd_pcb k (\<lambda>p. p\<lparr>tp_state := s\<rparr>) st"

section \<open>The retransmission timeout\<close>

text \<open>Go's integer division truncates towards zero.\<close>

definition go_div :: "int \<Rightarrow> int \<Rightarrow> int" where
  "go_div a b = (if 0 \<le> a then a div b else - ((- a) div b))"

definition rto_lbound :: int where "rto_lbound = 1000000000"
definition rto_ubound :: int where "rto_ubound = 60 * 1000000000"
definition MSL :: int where "MSL = 120 * 1000000000"

definition calculateRTO :: "int \<Rightarrow> 'a tcp_state_scheme \<Rightarrow> 'a tcp_state_scheme" where
  "calculateRTO rtt st =
     (let srtt = go_div (7 * tcp_srtt st) 10 + go_div (3 * rtt) 10;
          rto = (if rto_lbound > go_div (17 * srtt) 10 then rto_lbound
                 else if rto_ubound < go_div (17 * srtt) 10 then rto_ubound
                 else go_div (17 * srtt) 10)
      in st\<lparr>tcp_srtt := srtt, tcp_rto := rto\<rparr>)"

section \<open>The retransmission queue\<close>

definition queueAdd ::
    "nat \<Rightarrow> u32 \<Rightarrow> u8 \<Rightarrow> bytes \<Rightarrow> u8 \<Rightarrow> nat option \<Rightarrow> 'a tcp_state_scheme \<Rightarrow> 'a tcp_state_scheme" where
  "queueAdd k seq flag data trigger errCh st =
     upd_pcb k (\<lambda>p. p\<lparr>tp_retxQueue := tp_retxQueue p @
       [\<lparr>re_data = data, re_seq = seq, re_flag = flag, re_first = now st, re_last = now st,
         re_retxCount = 0, re_errCh = errCh, re_trigger = trigger\<rparr>]\<rparr>) st"

text \<open>\<open>removeRetx\<close> joins the parts of the slice between the indices; an index out of range panics.\<close>

fun removeRetx_loop :: "'e list \<Rightarrow> nat \<Rightarrow> nat list \<Rightarrow> 'e list \<Rightarrow> error + 'e list" where
  "removeRetx_loop data prev [] ret =
     (if length data < prev + 1 then Inl Panic else Inr (ret @ drop (prev + 1) data))"
| "removeRetx_loop data prev (i # indexs) ret =
     (if length data < i \<or> i < prev + 1 then Inl Panic
      else removeRetx_loop data i indexs (ret @ drop (prev + 1) (take i data)))"

definition removeRetx :: "'e list \<Rightarrow> nat list \<Rightarrow> error + 'e list" where
  "removeRetx data indexs =
     (case indexs of
        [] \<Rightarrow> Inr data
      | i # is \<Rightarrow> if length data < i then Inl Panic else removeRetx_loop data i is (take i data))"

text \<open>The sends on the channels of a queue's entries, skipping those without one.\<close>

definition send_opt :: "nat option \<Rightarrow> error option \<Rightarrow> 'a tcp_state_scheme \<Rightarrow> 'a tcp_state_scheme" where
  "send_opt ch msg st = (case ch of None \<Rightarrow> st | Some c \<Rightarrow> chan_send c msg st)"

fun queueAck_loop ::
    "nat \<Rightarrow> retx_entry list \<Rightarrow> u32 \<Rightarrow> nat list \<Rightarrow> 'a tcp_state_scheme \<Rightarrow> nat list \<times> 'a tcp_state_scheme" where
  "queueAck_loop i [] una del st = (del, st)"
| "queueAck_loop i (entry # es) una del st =
     (if re_seq entry < una
      then queueAck_loop (i + 1) es una (del @ [i])
             (calculateRTO (now st - re_last entry) (send_opt (re_errCh entry) None st))
      else queueAck_loop (i + 1) es una del st)"

definition queueAck :: "nat \<Rightarrow> 'a tcp_state_scheme \<Rightarrow> error option \<times> 'a tcp_state_scheme" where
  "queueAck k st =
     (case queueAck_loop 0 (tp_retxQueue (pcb_at st k)) (snd_una (pcb_at st k)) [] st of
        (del, st1) \<Rightarrow>
          (case removeRetx (tp_retxQueue (pcb_at st1 k)) del of
             Inl e \<Rightarrow> (Some e, st1)
           | Inr q \<Rightarrow> (None, upd_pcb k (\<lambda>p. p\<lparr>tp_retxQueue := q\<rparr>) st1)))"

fun queueFlush_loop :: "error \<Rightarrow> retx_entry list \<Rightarrow> 'a tcp_state_scheme \<Rightarrow> 'a tcp_state_scheme" where
  "queueFlush_loop err [] st = st"
| "queueFlush_loop err (entry # es) st =
     queueFlush_loop err es (send_opt (re_errCh entry) (Some err) st)"

definition queueFlush :: "nat \<Rightarrow> string \<Rightarrow> 'a tcp_state_scheme \<Rightarrow> 'a tcp_state_scheme" where
  "queueFlush k msg st =
     upd_pcb k (\<lambda>p. p\<lparr>tp_retxQueue := []\<rparr>) (queueFlush_loop (Err msg) (tp_retxQueue (pcb_at st k)) st)"

section \<open>Signals to the user\<close>

text \<open>The loop of \<open>signalCmd\<close> for \<open>OPEN\<close> and \<open>CLOSE\<close> sends without looking for \<open>nil\<close>.\<close>

fun signal_loop ::
    "nat \<Rightarrow> retx_entry list \<Rightarrow> u8 \<Rightarrow> nat list \<Rightarrow> 'a tcp_state_scheme \<Rightarrow>
     error option \<times> nat list \<times> 'a tcp_state_scheme" where
  "signal_loop i [] trigger del st = (None, del, st)"
| "signal_loop i (entry # es) trigger del st =
     (if re_trigger entry = trigger
      then (case re_errCh entry of
              None \<Rightarrow> (Some Blocked, del, st)
            | Some ch \<Rightarrow> signal_loop (i + 1) es trigger (del @ [i]) (chan_send ch None st))
      else signal_loop (i + 1) es trigger del st)"

text \<open>The third case: the user's buffer takes what it can hold; the rest is moved to the front from
  \<open>rxLen - dlen\<close> on.\<close>

definition signal_receive :: "nat \<Rightarrow> 'a tcp_state_scheme \<Rightarrow> 'a tcp_state_scheme" where
  "signal_receive k st =
     (let p = pcb_at st k; cmd = tp_rcvCmd p
      in case rc_errCh cmd of
           None \<Rightarrow> st
         | Some ch \<Rightarrow>
             if tp_rxLen p > 0
             then
              (let buf = tcp_bufs st ! rc_data cmd;
                   dlen = min (length buf) (unat (tp_rxLen p));
                   off = unat (tp_rxLen p - of_nat dlen);
                   st1 = chan_send ch None (st\<lparr>
                     tcp_bufs := (tcp_bufs st)[rc_data cmd := take dlen (tp_rxQueue p) @ drop dlen buf],
                     tcp_ints := (tcp_ints st)[rc_n cmd := int dlen]\<rparr>)
               in upd_pcb k (\<lambda>p.
                    (if dlen = unat (tp_rxLen p) then p\<lparr>tp_rxLen := 0, rcv_wnd := of_nat tcpBufferSize\<rparr>
                     else p\<lparr>tp_rxQueue := drop off (tp_rxQueue p) @
                              drop (length (tp_rxQueue p) - off) (tp_rxQueue p),
                            tp_rxLen := tp_rxLen p - of_nat dlen,
                            rcv_wnd := rcv_wnd p + of_nat dlen\<rparr>)
                    \<lparr>tp_rcvCmd := rcv_cmd_zero\<rparr>) st1)
             else st)"

definition signalCmd :: "nat \<Rightarrow> u8 \<Rightarrow> 'a tcp_state_scheme \<Rightarrow> error option \<times> 'a tcp_state_scheme" where
  "signalCmd k trigger st =
     (if trigger = triggerOpen \<or> trigger = triggerClose
      then (case signal_loop 0 (tp_retxQueue (pcb_at st k)) trigger [] st of
              (Some e, del, st1) \<Rightarrow> (Some e, st1)
            | (None, del, st1) \<Rightarrow>
                (case removeRetx (tp_retxQueue (pcb_at st1 k)) del of
                   Inl e \<Rightarrow> (Some e, st1)
                 | Inr q \<Rightarrow> (None, upd_pcb k (\<lambda>p. p\<lparr>tp_retxQueue := q\<rparr>) st1)))
      else if trigger = triggerReceive then (None, signal_receive k st)
      else (None, st))"

definition signalErr :: "nat \<Rightarrow> string \<Rightarrow> 'a tcp_state_scheme \<Rightarrow> 'a tcp_state_scheme" where
  "signalErr k msg st =
     (let st1 = queueFlush k msg st
      in upd_pcb k (\<lambda>p. p\<lparr>tp_rcvCmd := rcv_cmd_zero\<rparr>)
           (send_opt (rc_errCh (tp_rcvCmd (pcb_at st1 k))) (Some (Err msg)) st1))"

section \<open>The table of connections\<close>

definition pcb_zero :: tcp_pcb where
  "pcb_zero = \<lparr>tp_state = StListen, tp_local = endpoint_zero, tp_foreign = endpoint_zero,
     snd_una = 0, snd_nxt = 0, snd_wnd = 0, snd_up = 0, snd_wl1 = 0, snd_wl2 = 0, tp_iss = 0,
     rcv_nxt = 0, rcv_wnd = 0, rcv_up = 0, tp_irs = 0, tp_mss = 0,
     tp_rxQueue = replicate tcpBufferSize 0, tp_rxLen = 0, tp_retxQueue = [], tp_rcvCmd = rcv_cmd_zero,
     tp_timeout = 0, tp_lastTxTime = 0\<rparr>"

definition Newpcb :: "endpoint \<Rightarrow> 'a tcp_state_scheme \<Rightarrow> (error + nat) \<times> 'a tcp_state_scheme" where
  "Newpcb local st =
     (if \<exists>t \<in> set (tcp_pcbs st). tp_local (pcb_at st t) = local
      then (Inl (Err ''the same local address is already used''), st)
      else (Inr (length (tcp_store st)),
            st\<lparr>tcp_store := tcp_store st @ [pcb_zero\<lparr>tp_state := StClosed, tp_local := local\<rparr>],
               tcp_pcbs := tcp_pcbs st @ [length (tcp_store st)]\<rparr>))"

definition Deletepcb :: "nat \<Rightarrow> 'a tcp_state_scheme \<Rightarrow> error option \<times> 'a tcp_state_scheme" where
  "Deletepcb k st =
     (case index_of k (tcp_pcbs st) of
        None \<Rightarrow> (Some (Err ''pcb not found, and cannot be deleted''), st)
      | Some i \<Rightarrow> (None, st\<lparr>tcp_pcbs := take i (tcp_pcbs st) @ drop (i + 1) (tcp_pcbs st)\<rparr>))"

definition tcp_Status :: "nat \<Rightarrow> 'a tcp_state_scheme \<Rightarrow> pcb_state" where
  "tcp_Status k st = tp_state (pcb_at st k)"

section \<open>What the elementary operations change\<close>

named_theorems tcp_simps "fields of the TCP state after the elementary operations"

lemma upd_pcb_fields [simp, tcp_simps]:
  "length (tcp_store (upd_pcb k f st)) = length (tcp_store st)"
  "tcp_pcbs (upd_pcb k f st) = tcp_pcbs st" "tcp_log (upd_pcb k f st) = tcp_log st"
  "tcp_srtt (upd_pcb k f st) = tcp_srtt st" "tcp_rto (upd_pcb k f st) = tcp_rto st"
  "tcp_bufs (upd_pcb k f st) = tcp_bufs st" "tcp_ints (upd_pcb k f st) = tcp_ints st"
  "now (upd_pcb k f st) = now st" "devices (upd_pcb k f st) = devices st"
  by (simp_all add: upd_pcb_def)

lemma upd_pcb_at [simp]: "k < length (tcp_store st) \<Longrightarrow> pcb_at (upd_pcb k f st) k = f (pcb_at st k)"
  by (simp add: upd_pcb_def)

lemma upd_pcb_other [simp]: "j \<noteq> k \<Longrightarrow> pcb_at (upd_pcb k f st) j = pcb_at st j"
  by (simp add: upd_pcb_def)

lemma upd_pcb_upd [simp]: "upd_pcb k f (upd_pcb k g st) = upd_pcb k (\<lambda>p. f (g p)) st"
  by (cases "k < length (tcp_store st)") (simp_all add: upd_pcb_def list_update_beyond)

lemma chan_send_fields [simp, tcp_simps]:
  "tcp_store (chan_send c m st) = tcp_store st" "tcp_pcbs (chan_send c m st) = tcp_pcbs st"
  "tcp_log (chan_send c m st) = tcp_log st @ [(c, m)]"
  "tcp_srtt (chan_send c m st) = tcp_srtt st" "tcp_rto (chan_send c m st) = tcp_rto st"
  "tcp_bufs (chan_send c m st) = tcp_bufs st" "tcp_ints (chan_send c m st) = tcp_ints st"
  "now (chan_send c m st) = now st" "devices (chan_send c m st) = devices st"
  by (simp_all add: chan_send_def)

lemma tcp_transition_fields [simp, tcp_simps]:
  "length (tcp_store (tcp_transition k s st)) = length (tcp_store st)"
  "tcp_pcbs (tcp_transition k s st) = tcp_pcbs st" "tcp_log (tcp_transition k s st) = tcp_log st"
  "tcp_bufs (tcp_transition k s st) = tcp_bufs st" "tcp_ints (tcp_transition k s st) = tcp_ints st"
  "now (tcp_transition k s st) = now st"
  "k < length (tcp_store st) \<Longrightarrow> pcb_at (tcp_transition k s st) k = (pcb_at st k)\<lparr>tp_state := s\<rparr>"
  "j \<noteq> k \<Longrightarrow> pcb_at (tcp_transition k s st) j = pcb_at st j"
  by (simp_all add: tcp_transition_def)

text \<open>What a loop over a queue sends: \<open>msg\<close> on every channel of its entries.\<close>

definition notices :: "error option \<Rightarrow> retx_entry list \<Rightarrow> (nat \<times> error option) list" where
  "notices msg es = concat (map (\<lambda>e. case re_errCh e of None \<Rightarrow> [] | Some c \<Rightarrow> [(c, msg)]) es)"

lemma notices_simps [simp]:
  "notices msg [] = []"
  "notices msg (e # es) = (case re_errCh e of None \<Rightarrow> [] | Some c \<Rightarrow> [(c, msg)]) @ notices msg es"
  by (simp_all add: notices_def)

lemma notices_mem: "(c, m) \<in> set (notices msg es) \<longleftrightarrow> m = msg \<and> (\<exists>e \<in> set es. re_errCh e = Some c)"
  by (induction es) (auto split: option.splits)

lemma send_opt_log: "send_opt ch msg st = st\<lparr>tcp_log := tcp_log st @ (case ch of None \<Rightarrow> [] | Some c \<Rightarrow> [(c, msg)])\<rparr>"
  by (simp add: send_opt_def chan_send_def split: option.split)

section \<open>Queues\<close>

lemma removeRetx_loop_filter:
  assumes "prev < j" "j \<le> length xs"
  shows "removeRetx_loop xs prev [i\<leftarrow>[j..<length xs]. P (xs ! i)] ret =
    Inr (ret @ drop (prev + 1) (take j xs) @ filter (\<lambda>x. \<not> P x) (drop j xs))"
  using assms
proof (induction "length xs - j" arbitrary: j prev ret)
  case 0
  then show ?case by simp
next
  case (Suc n)
  then have j: "j < length xs" by simp
  then have up: "[j..<length xs] = j # [Suc j..<length xs]" by (simp add: upt_conv_Cons)
  have dr: "drop j xs = xs ! j # drop (Suc j) xs" using j by (simp add: Cons_nth_drop_Suc)
  show ?case
  proof (cases "P (xs ! j)")
    case True
    have "removeRetx_loop xs j [i\<leftarrow>[Suc j..<length xs]. P (xs ! i)] r =
        Inr (r @ drop (j + 1) (take (Suc j) xs) @ filter (\<lambda>x. \<not> P x) (drop (Suc j) xs))" for r
      using Suc.hyps(2) j by (intro Suc.hyps(1)) simp_all
    with True Suc.prems show ?thesis by (simp add: up dr)
  next
    case False
    have "removeRetx_loop xs prev [i\<leftarrow>[Suc j..<length xs]. P (xs ! i)] ret =
        Inr (ret @ drop (prev + 1) (take (Suc j) xs) @ filter (\<lambda>x. \<not> P x) (drop (Suc j) xs))"
      using Suc.hyps(2) j Suc.prems by (intro Suc.hyps(1)) simp_all
    with False j Suc.prems show ?thesis by (simp add: up dr take_Suc_conv_app_nth)
  qed
qed

lemma removeRetx_filter_from:
  "j \<le> length xs \<Longrightarrow> (\<forall>i < j. \<not> P (xs ! i)) \<Longrightarrow>
     removeRetx xs [i\<leftarrow>[j..<length xs]. P (xs ! i)] = Inr (filter (\<lambda>x. \<not> P x) xs)"
proof (induction "length xs - j" arbitrary: j)
  case 0
  then have "filter (\<lambda>x. \<not> P x) xs = xs" by (auto simp: filter_id_conv in_set_conv_nth)
  with 0 show ?case by (simp add: removeRetx_def)
next
  case (Suc n)
  then have j: "j < length xs" by simp
  then have up: "[j..<length xs] = j # [Suc j..<length xs]" by (simp add: upt_conv_Cons)
  have head: "filter (\<lambda>x. \<not> P x) (take j xs) = take j xs"
    using Suc.prems by (auto simp: filter_id_conv in_set_conv_nth)
  show ?case
  proof (cases "P (xs ! j)")
    case True
    have "filter (\<lambda>x. \<not> P x) xs = filter (\<lambda>x. \<not> P x) (take j xs @ xs ! j # drop (Suc j) xs)"
      using j by (simp add: id_take_nth_drop [symmetric])
    also have "\<dots> = take j xs @ filter (\<lambda>x. \<not> P x) (drop (Suc j) xs)"
      using True head by simp
    finally have "filter (\<lambda>x. \<not> P x) xs = take j xs @ filter (\<lambda>x. \<not> P x) (drop (Suc j) xs)" .
    with True j show ?thesis
      by (simp add: up removeRetx_def removeRetx_loop_filter)
  next
    case False
    have "removeRetx xs [i\<leftarrow>[Suc j..<length xs]. P (xs ! i)] = Inr (filter (\<lambda>x. \<not> P x) xs)"
      using Suc.hyps(2) Suc.prems j False by (intro Suc.hyps(1)) (auto simp: less_Suc_eq)
    with False show ?thesis by (simp add: up)
  qed
qed

text \<open>Removing the indices of the entries that meet a condition is filtering.\<close>

lemma removeRetx_filter: "removeRetx xs [i\<leftarrow>[0..<length xs]. P (xs ! i)] = Inr (filter (\<lambda>x. \<not> P x) xs)"
  using removeRetx_filter_from [of 0 xs P] by simp

lemma shifted_indices:
  "map (\<lambda>j. i + j) [j\<leftarrow>[0..<length (e # es)]. P ((e # es) ! j)] =
     (if P e then [i] else []) @ map (\<lambda>j. Suc i + j) [j\<leftarrow>[0..<length es]. P (es ! j)]"
proof -
  have "[0..<length (e # es)] = 0 # map Suc [0..<length es]"
    by (simp add: upt_conv_Cons map_Suc_upt del: upt_Suc)
  then show ?thesis by (simp add: filter_map comp_def del: upt_Suc)
qed

lemma map_plus_0 [simp]: "map ((+) (0 :: nat)) xs = xs"
  by (simp add: map_idI)

lemma queueAck_loop_eq:
  "\<exists>s r. queueAck_loop i es una del st =
     (del @ map (\<lambda>j. i + j) [j\<leftarrow>[0..<length es]. re_seq (es ! j) < una],
      st\<lparr>tcp_log := tcp_log st @ notices None (filter (\<lambda>e. re_seq e < una) es), tcp_srtt := s, tcp_rto := r\<rparr>)"
proof (induction es arbitrary: i del st)
  case Nil
  show ?case by (rule exI [of _ "tcp_srtt st"], rule exI [of _ "tcp_rto st"]) simp
next
  case (Cons e es)
  define st1 where "st1 = calculateRTO (now st - re_last e) (send_opt (re_errCh e) None st)"
  obtain s0 r0 where st1: "st1 = st\<lparr>tcp_log := tcp_log st @ (case re_errCh e of None \<Rightarrow> [] | Some c \<Rightarrow> [(c, None)]),
      tcp_srtt := s0, tcp_rto := r0\<rparr>"
    by (simp add: st1_def calculateRTO_def send_opt_log Let_def)
  show ?case
  proof (cases "re_seq e < una")
    case True
    from Cons.IH [of "i + 1" "del @ [i]" st1] obtain s r where IH:
      "queueAck_loop (i + 1) es una (del @ [i]) st1 =
        (del @ [i] @ map (\<lambda>j. Suc i + j) [j\<leftarrow>[0..<length es]. re_seq (es ! j) < una],
         st1\<lparr>tcp_log := tcp_log st1 @ notices None (filter (\<lambda>e. re_seq e < una) es), tcp_srtt := s, tcp_rto := r\<rparr>)"
      by auto
    show ?thesis
      unfolding shifted_indices [where P = "\<lambda>e. re_seq e < una" and i = i and e = e and es = es]
      by (rule exI [of _ s], rule exI [of _ r], insert True IH) (simp add: st1_def [symmetric], simp add: st1)
  next
    case False
    from Cons.IH [of "i + 1" del st] obtain s r where IH:
      "queueAck_loop (i + 1) es una del st =
        (del @ map (\<lambda>j. Suc i + j) [j\<leftarrow>[0..<length es]. re_seq (es ! j) < una],
         st\<lparr>tcp_log := tcp_log st @ notices None (filter (\<lambda>e. re_seq e < una) es), tcp_srtt := s, tcp_rto := r\<rparr>)"
      by auto
    show ?thesis
      unfolding shifted_indices [where P = "\<lambda>e. re_seq e < una" and i = i and e = e and es = es]
      by (rule exI [of _ s], rule exI [of _ r], insert False IH) simp
  qed
qed

text \<open>\<open>queueAck\<close> takes the entries whose sequence number is below \<open>SND.UNA\<close> out of the queue, in
  order, and tells the channel of each that all is well.\<close>

lemma queueAck_eq:
  "\<exists>s r. queueAck k st = (None, upd_pcb k (\<lambda>p. p\<lparr>tp_retxQueue :=
        filter (\<lambda>e. \<not> re_seq e < snd_una (pcb_at st k)) (tp_retxQueue (pcb_at st k))\<rparr>)
      (st\<lparr>tcp_log := tcp_log st @ notices None
            (filter (\<lambda>e. re_seq e < snd_una (pcb_at st k)) (tp_retxQueue (pcb_at st k))),
          tcp_srtt := s, tcp_rto := r\<rparr>))"
proof -
  define q where "q = tp_retxQueue (pcb_at st k)"
  define una where "una = snd_una (pcb_at st k)"
  obtain s r where loop: "queueAck_loop 0 q una [] st = ([j\<leftarrow>[0..<length q]. re_seq (q ! j) < una],
      st\<lparr>tcp_log := tcp_log st @ notices None (filter (\<lambda>e. re_seq e < una) q), tcp_srtt := s, tcp_rto := r\<rparr>)"
    using queueAck_loop_eq [of 0 q una "[]" st] by auto
  have rem: "removeRetx q [j\<leftarrow>[0..<length q]. re_seq (q ! j) < una] = Inr (filter (\<lambda>e. \<not> re_seq e < una) q)"
    by (rule removeRetx_filter)
  show ?thesis
    unfolding q_def [symmetric] una_def [symmetric]
    by (rule exI [of _ s], rule exI [of _ r], insert loop rem) (simp add: queueAck_def q_def una_def)
qed

section \<open>Signals\<close>

lemma queueFlush_loop_eq:
  "queueFlush_loop err es st = st\<lparr>tcp_log := tcp_log st @ notices (Some err) es\<rparr>"
  by (induction es arbitrary: st) (simp_all add: send_opt_log)

text \<open>\<open>signalErr\<close> tells every waiting call of the error and empties the queue and the request.\<close>

lemma signalErr_eq:
  assumes "k < length (tcp_store st)"
  shows "signalErr k msg st = upd_pcb k (\<lambda>p. p\<lparr>tp_retxQueue := [], tp_rcvCmd := rcv_cmd_zero\<rparr>)
    (st\<lparr>tcp_log := tcp_log st @ notices (Some (Err msg)) (tp_retxQueue (pcb_at st k)) @
       (case rc_errCh (tp_rcvCmd (pcb_at st k)) of None \<Rightarrow> [] | Some c \<Rightarrow> [(c, Some (Err msg))])\<rparr>)"
  using assms
  by (simp add: signalErr_def queueFlush_def queueFlush_loop_eq Let_def send_opt_log upd_pcb_def)

text \<open>An entry made for a call carries the channel of the call; the count of an entry in the queue is
  never raised.\<close>

definition entry_ok :: "retx_entry \<Rightarrow> bool" where
  "entry_ok e \<longleftrightarrow> (re_trigger e \<noteq> triggerNo \<longrightarrow> re_errCh e \<noteq> None) \<and> re_retxCount e = 0"

lemma signal_loop_eq:
  "\<forall>e \<in> set es. entry_ok e \<Longrightarrow> trigger \<noteq> triggerNo \<Longrightarrow>
     signal_loop i es trigger del st =
       (None, del @ map (\<lambda>j. i + j) [j\<leftarrow>[0..<length es]. re_trigger (es ! j) = trigger],
        st\<lparr>tcp_log := tcp_log st @ notices None (filter (\<lambda>e. re_trigger e = trigger) es)\<rparr>)"
proof (induction es arbitrary: i del st)
  case (Cons e es)
  show ?case
  proof (cases "re_trigger e = trigger")
    case True
    with Cons.prems obtain c where "re_errCh e = Some c" by (auto simp: entry_ok_def)
    with True Cons show ?thesis
      unfolding shifted_indices [where P = "\<lambda>e. re_trigger e = trigger" and i = i and e = e and es = es] by (simp add: chan_send_def)
  next
    case False
    with Cons show ?thesis
      unfolding shifted_indices [where P = "\<lambda>e. re_trigger e = trigger" and i = i and e = e and es = es] by simp
  qed
qed simp

text \<open>So the signals of \<open>OPEN\<close> and \<open>CLOSE\<close> never wait on a \<open>nil\<close> channel.\<close>

lemma signalCmd_eq:
  assumes "\<forall>e \<in> set (tp_retxQueue (pcb_at st k)). entry_ok e" "trigger = triggerOpen \<or> trigger = triggerClose"
  shows "signalCmd k trigger st = (None, upd_pcb k (\<lambda>p. p\<lparr>tp_retxQueue :=
        filter (\<lambda>e. re_trigger e \<noteq> trigger) (tp_retxQueue (pcb_at st k))\<rparr>)
      (st\<lparr>tcp_log := tcp_log st @ notices None
         (filter (\<lambda>e. re_trigger e = trigger) (tp_retxQueue (pcb_at st k)))\<rparr>))"
proof -
  define q where "q = tp_retxQueue (pcb_at st k)"
  have "trigger \<noteq> triggerNo" using assms(2) by (auto simp: tcp_triggers)
  with assms(1) have loop: "signal_loop 0 q trigger [] st =
      (None, [j\<leftarrow>[0..<length q]. re_trigger (q ! j) = trigger],
       st\<lparr>tcp_log := tcp_log st @ notices None (filter (\<lambda>e. re_trigger e = trigger) q)\<rparr>)"
    by (subst signal_loop_eq) (simp_all add: q_def)
  have "removeRetx q [j\<leftarrow>[0..<length q]. re_trigger (q ! j) = trigger] =
      Inr (filter (\<lambda>e. re_trigger e \<noteq> trigger) q)"
    by (rule removeRetx_filter)
  with loop assms(2) show ?thesis
    by (simp add: signalCmd_def q_def)
qed

section \<open>The estimate of the timeout\<close>

lemma calculateRTO_bounds:
  "rto_lbound \<le> tcp_rto (calculateRTO rtt st) \<and> tcp_rto (calculateRTO rtt st) \<le> rto_ubound"
  by (auto simp: calculateRTO_def Let_def rto_lbound_def rto_ubound_def)

section \<open>The table of connections\<close>

text \<open>Pointers in the table are valid and different and their local endpoints differ; the receive
  buffer of a connection has its size, and its queue's entries carry their channels.\<close>

definition pcb_ok :: "tcp_pcb \<Rightarrow> bool" where
  "pcb_ok p \<longleftrightarrow> length (tp_rxQueue p) = tcpBufferSize \<and> (\<forall>e \<in> set (tp_retxQueue p). entry_ok e)"

definition tcp_ok :: "'a tcp_state_scheme \<Rightarrow> bool" where
  "tcp_ok st \<longleftrightarrow>
     distinct (tcp_pcbs st) \<and> (\<forall>k \<in> set (tcp_pcbs st). k < length (tcp_store st)) \<and>
     (\<forall>k \<in> set (tcp_pcbs st). \<forall>l \<in> set (tcp_pcbs st).
        tp_local (pcb_at st k) = tp_local (pcb_at st l) \<longrightarrow> k = l) \<and>
     (\<forall>p \<in> set (tcp_store st). pcb_ok p)"

definition tcp_select :: "endpoint \<Rightarrow> 'a tcp_state_scheme \<Rightarrow> nat option" where
  "tcp_select e st =
     find (\<lambda>c. ep_addr (tp_local (pcb_at st c)) = ep_addr e \<and>
               ep_port (tp_local (pcb_at st c)) = ep_port e) (tcp_pcbs st)"

lemma endpoint_eq_iff: "(ep_addr (a :: endpoint) = ep_addr b \<and> ep_port a = ep_port b) = (a = b)"
  by (cases a; cases b) auto

lemma tcp_select_Some:
  "tcp_select e st = Some k \<Longrightarrow> k \<in> set (tcp_pcbs st) \<and> tp_local (pcb_at st k) = e"
  by (auto simp: tcp_select_def endpoint_eq_iff dest: find_Some_iff_mem)

lemma tcp_select_None:
  "tcp_select e st = None \<longleftrightarrow> (\<forall>k \<in> set (tcp_pcbs st). tp_local (pcb_at st k) \<noteq> e)"
  by (auto simp: tcp_select_def endpoint_eq_iff find_None_iff)

lemma tcp_select_unique:
  assumes "tcp_ok st" "k \<in> set (tcp_pcbs st)" "tp_local (pcb_at st k) = e"
  shows "tcp_select e st = Some k"
proof (cases "tcp_select e st")
  case None
  then show ?thesis using assms(2,3) unfolding tcp_select_None by blast
next
  case (Some j)
  with tcp_select_Some [OF Some] assms show ?thesis unfolding tcp_ok_def by metis
qed

lemma pcb_zero_ok: "pcb_ok (pcb_zero\<lparr>tp_state := s, tp_local := e\<rparr>)"
  by (simp add: pcb_ok_def pcb_zero_def)

lemma Newpcb_tcp_ok: "tcp_ok st \<Longrightarrow> tcp_ok (snd (Newpcb e st))"
  by (auto simp: tcp_ok_def Newpcb_def nth_append pcb_zero_ok)

lemma Newpcb_select:
  assumes "tcp_ok st"
  shows "tcp_select e' (snd (Newpcb e st)) =
    (if tcp_select e st = None \<and> e' = e then Some (length (tcp_store st)) else tcp_select e' st)"
proof (cases "tcp_select e st")
  case None
  have old: "find (\<lambda>c. tp_local ((tcp_store st @ [p]) ! c) = e') (tcp_pcbs st) =
      find (\<lambda>c. tp_local (pcb_at st c) = e') (tcp_pcbs st)" for p
    using assms by (intro find_cong) (auto simp: tcp_ok_def nth_append)
  have new: "snd (Newpcb e st) =
      st\<lparr>tcp_store := tcp_store st @ [pcb_zero\<lparr>tp_state := StClosed, tp_local := e\<rparr>],
         tcp_pcbs := tcp_pcbs st @ [length (tcp_store st)]\<rparr>"
    using None by (auto simp: Newpcb_def tcp_select_None)
  have "tcp_select e' (snd (Newpcb e st)) =
      (case tcp_select e' st of Some k \<Rightarrow> Some k | None \<Rightarrow> if e' = e then Some (length (tcp_store st)) else None)"
    by (simp add: new tcp_select_def endpoint_eq_iff find_append old split: option.split)
  with None show ?thesis by (simp split: option.split)
next
  case (Some k)
  from tcp_select_Some [OF this] show ?thesis by (auto simp: Newpcb_def Some)
qed

interpretation tcp_table: socket_table Newpcb tcp_select tcp_ok
proof (unfold_locales, goal_cases)
  case (1 s e)
  then show ?case by (rule Newpcb_tcp_ok)
next
  case (2 s e)
  then obtain k where "tcp_select e s = Some k" by auto
  from tcp_select_Some [OF this] show ?case by (auto simp: Newpcb_def)
next
  case (3 s e)
  then have "fst (Newpcb e s) = Inr (length (tcp_store s))"
    by (auto simp: Newpcb_def tcp_select_None)
  moreover have "tcp_select e (snd (Newpcb e s)) = Some (length (tcp_store s))"
    using 3 by (simp add: Newpcb_select)
  ultimately show ?case by (metis prod.collapse)
next
  case (4 s e' e)
  then show ?case by (auto simp: Newpcb_select)
next
  case (5 s e k e')
  then show ?case by (auto dest: tcp_select_Some)
qed

lemma Deletepcb_eq:
  "Deletepcb k st =
     (if k \<in> set (tcp_pcbs st) then (None, st\<lparr>tcp_pcbs := remove1 k (tcp_pcbs st)\<rparr>)
      else (Some (Err ''pcb not found, and cannot be deleted''), st))"
  using index_of_remove1 [of k "tcp_pcbs st"] index_of_None [of k "tcp_pcbs st"]
  by (auto simp: Deletepcb_def split: option.split)

lemma Deletepcb_tcp_ok: "tcp_ok st \<Longrightarrow> tcp_ok (snd (Deletepcb k st))"
  by (auto simp: tcp_ok_def Deletepcb_eq dest: notin_set_remove1)

end
