(* ===== verification/Tcp.thy ===== *)
theory Tcp
  imports TcpPcb
begin

text \<open>
  The protocol TCP: transmission, the receive handler and \<open>segmentArrives\<close> (\<open>pkg/tcp/protocol.go\<close>).
  \<open>resolve\<close> is the resolver \<open>ip.TxHandler\<close> calls; \<open>createISS\<close> is random, the number it gives is an
  argument \<open>iss\<close>.
\<close>

type_synonym 's resolve_fn = "nat \<Rightarrow> u32 \<Rightarrow> 's \<Rightarrow> (error + ether_addr) \<times> 's"

section \<open>Transmission\<close>

text \<open>The guard subtracts the size of the header where it means to add it.\<close>

definition tcp_TxHandler ::
    "'a ip_state_scheme resolve_fn \<Rightarrow> endpoint \<Rightarrow> endpoint \<Rightarrow> bytes \<Rightarrow> u32 \<Rightarrow> u32 \<Rightarrow> u8 \<Rightarrow> u16 \<Rightarrow> u16 \<Rightarrow>
     'a ip_state_scheme \<Rightarrow> error option \<times> 'a ip_state_scheme" where
  "tcp_TxHandler resolve src dst payload seq ack flag wnd up st =
     (if int (length payload) - int TcpHeaderSizeMin > int PayloadSizeMax
      then (Some (Err ''data size is too large for TCP payload''), st)
      else
       (let hdr = \<lparr>th_src = ep_port src, th_dst = ep_port dst, th_seq = seq, th_ack = ack,
                   th_offset = push_bit 4 (drop_bit 2 (of_nat TcpHeaderSizeMin)), th_flag = flag,
                   th_window = wnd, th_checksum = 0, th_urgent = up\<rparr>;
            (hdr', data) = tcp_header2data hdr payload (ep_addr src) (ep_addr dst)
        in ip_TxHandler resolve ProtoTCP data (ep_addr src) (ep_addr dst) st))"

definition TxHelperTCP ::
    "'a tcp_state_scheme resolve_fn \<Rightarrow> nat \<Rightarrow> u8 \<Rightarrow> bytes \<Rightarrow> u8 \<Rightarrow> nat option \<Rightarrow>
     'a tcp_state_scheme \<Rightarrow> error option \<times> 'a tcp_state_scheme" where
  "TxHelperTCP resolve k flag data trigger errCh st =
     (let p = pcb_at st k;
          seq = (if isSet flag SYN then tp_iss p else snd_nxt p)
      in case tcp_TxHandler resolve (tp_local p) (tp_foreign p) data seq (rcv_nxt p) flag
                (rcv_wnd p) (rcv_up p) st of
           (Some e, st1) \<Rightarrow> (Some e, st1)
         | (None, st1) \<Rightarrow>
             (None, if isSet flag (SYN OR FIN) \<or> length data > 0
                    then queueAdd k seq flag data trigger errCh st1 else st1))"

section \<open>Segments\<close>

record segment =
  sg_seq :: u32
  sg_ack :: u32
  sg_len :: u32
  sg_wnd :: u16
  sg_up :: u16

text \<open>\<open>copy(pcb.rxQueue[pcb.rxLen:], data)\<close>.\<close>

definition copy_at :: "nat \<Rightarrow> bytes \<Rightarrow> bytes \<Rightarrow> bytes" where
  "copy_at off data queue =
     (let n = min (length data) (length queue - off)
      in take off queue @ take n data @ drop (off + n) queue)"

text \<open>The state CLOSED.\<close>

definition seg_closed ::
    "'a tcp_state_scheme resolve_fn \<Rightarrow> nat \<Rightarrow> segment \<Rightarrow> u8 \<Rightarrow> 'a tcp_state_scheme \<Rightarrow>
     error option \<times> 'a tcp_state_scheme" where
  "seg_closed resolve k seg flag st =
     (if isSet flag RST then (None, st)
      else if \<not> isSet flag ACK
      then tcp_TxHandler resolve (tp_local (pcb_at st k)) (tp_foreign (pcb_at st k)) []
             0 (sg_seq seg + sg_len seg) (RST OR ACK) 0 0 st
      else tcp_TxHandler resolve (tp_local (pcb_at st k)) (tp_foreign (pcb_at st k)) []
             (sg_ack seg) 0 RST 0 0 st)"

text \<open>The state LISTEN.\<close>

definition seg_listen ::
    "'a tcp_state_scheme resolve_fn \<Rightarrow> u32 \<Rightarrow> nat \<Rightarrow> segment \<Rightarrow> u8 \<Rightarrow> bytes \<Rightarrow> u32 \<Rightarrow> endpoint \<Rightarrow>
     'a tcp_state_scheme \<Rightarrow> error option \<times> 'a tcp_state_scheme" where
  "seg_listen resolve iss k seg flag data dataLen foreign st =
     (if isSet flag RST then (None, st)
      else if isSet flag ACK
      then tcp_TxHandler resolve (tp_local (pcb_at st k)) (tp_foreign (pcb_at st k)) []
             (sg_ack seg) 0 RST 0 0 st
      else if isSet flag SYN
      then
       (let st1 = upd_pcb k (\<lambda>p. p\<lparr>tp_foreign := foreign, rcv_wnd := of_nat tcpBufferSize,
                     rcv_nxt := sg_seq seg + 1, tp_irs := sg_seq seg, tp_iss := iss,
                     snd_nxt := iss + 1, snd_una := iss\<rparr>) st;
            st2 = tcp_transition k StSYNReceived st1;
            st3 = upd_pcb k (\<lambda>p. p\<lparr>tp_rxQueue := copy_at (unat (tp_rxLen p)) data (tp_rxQueue p),
                     tp_rxLen := tp_rxLen p + ucast dataLen\<rparr>) st2
        in TxHelperTCP resolve k (SYN OR ACK) [] 0 None st3)
      else (None, st))"

text \<open>The state SYN-SENT.\<close>

definition seg_synsent ::
    "'a tcp_state_scheme resolve_fn \<Rightarrow> nat \<Rightarrow> segment \<Rightarrow> u8 \<Rightarrow> 'a tcp_state_scheme \<Rightarrow>
     error option \<times> 'a tcp_state_scheme" where
  "seg_synsent resolve k seg flag st =
     (let p = pcb_at st k
      in if isSet flag ACK \<and> (sg_ack seg \<le> tp_iss p \<or> sg_ack seg > snd_nxt p)
         then tcp_TxHandler resolve (tp_local p) (tp_foreign p) [] (sg_ack seg) 0 RST 0 0 st
         else
          (let acceptable = (isSet flag ACK \<and> snd_una p \<le> sg_ack seg \<and> sg_ack seg \<le> snd_nxt p)
           in if isSet flag RST
              then (if acceptable
                    then (None, tcp_transition k StClosed (signalErr k ''connection reset'' st))
                    else (None, st))
              else if isSet flag SYN
              then
               (let st1 = upd_pcb k (\<lambda>p. p\<lparr>rcv_nxt := sg_seq seg + 1, tp_irs := sg_seq seg\<rparr>) st
                in case (if acceptable
                         then queueAck k (upd_pcb k (\<lambda>p. p\<lparr>snd_una := sg_ack seg\<rparr>) st1)
                         else (None, st1)) of
                     (Some e, st2) \<Rightarrow> (Some e, st2)
                   | (None, st2) \<Rightarrow>
                       if snd_una (pcb_at st2 k) > tp_iss (pcb_at st2 k)
                       then
                        (let st3 = upd_pcb k (\<lambda>p. p\<lparr>snd_wnd := sg_wnd seg, snd_wl1 := sg_seq seg,
                                      snd_wl2 := sg_ack seg\<rparr>) (tcp_transition k StEstablished st2)
                         in case signalCmd k triggerOpen st3 of
                              (Some e, st4) \<Rightarrow> (Some e, st4)
                            | (None, st4) \<Rightarrow> TxHelperTCP resolve k ACK [] 0 None st4)
                       else TxHelperTCP resolve k (SYN OR ACK) [] 0 None
                              (tcp_transition k StSYNReceived st2))
              else (None, st)))"

text \<open>In the other states a segment passes through a list of checks; each returns from the handler or
  goes on to the next one.\<close>

datatype 's flow = Return "error option" 's | GoOn 's

fun flow_then :: "'s flow \<Rightarrow> ('s \<Rightarrow> 's flow) \<Rightarrow> 's flow" where
  "flow_then (Return e st) f = Return e st"
| "flow_then (GoOn st) f = f st"

fun flow_return :: "error option \<times> 's \<Rightarrow> 's flow" where
  "flow_return (e, st) = Return e st"

fun flow_end :: "'s flow \<Rightarrow> error option \<times> 's" where
  "flow_end (Return e st) = (e, st)"
| "flow_end (GoOn st) = (None, st)"

text \<open>First, the sequence number. In the second condition \<open>&&\<close> binds stronger than \<open>||\<close>.\<close>

definition seg_acceptable :: "tcp_pcb \<Rightarrow> segment \<Rightarrow> bool" where
  "seg_acceptable p seg =
     (let nxt = rcv_nxt p; right = rcv_nxt p + ucast (rcv_wnd p); seq = sg_seq seg; len = sg_len seg
      in if rcv_wnd p = 0
         then len = 0 \<and> seq = nxt
         else (len = 0 \<and> nxt \<le> seq \<and> seq < right) \<or>
              ((len > 0 \<and> nxt \<le> seq \<and> seq < right) \<or> (nxt \<le> seq + len - 1 \<and> seq + len - 1 < right)))"

definition seg_check_seq ::
    "'a tcp_state_scheme resolve_fn \<Rightarrow> nat \<Rightarrow> segment \<Rightarrow> u8 \<Rightarrow> 'a tcp_state_scheme \<Rightarrow>
     'a tcp_state_scheme flow" where
  "seg_check_seq resolve k seg flag st =
     (if \<not> seg_acceptable (pcb_at st k) seg
      then (if isSet flag RST then Return None st
            else flow_return (TxHelperTCP resolve k ACK [] 0 None st))
      else GoOn st)"

text \<open>Second, RST.\<close>

definition seg_check_rst :: "nat \<Rightarrow> u8 \<Rightarrow> 'a tcp_state_scheme \<Rightarrow> 'a tcp_state_scheme flow" where
  "seg_check_rst k flag st =
     (let s = tp_state (pcb_at st k)
      in if s = StSYNReceived
         then (if isSet flag RST
               then Return None (tcp_transition k StClosed (signalErr k ''connection refused'' st))
               else GoOn st)
         else if s \<in> {StEstablished, StFINWait1, StFINWait2, StCloseWait, StClosing, StLastACK, StTimeWait}
         then (if isSet flag RST
               then Return None (tcp_transition k StClosed (signalErr k ''connection reset'' st))
               else GoOn st)
         else GoOn st)"

text \<open>Fourth, SYN.\<close>

definition seg_check_syn ::
    "'a tcp_state_scheme resolve_fn \<Rightarrow> nat \<Rightarrow> u8 \<Rightarrow> 'a tcp_state_scheme \<Rightarrow> 'a tcp_state_scheme flow" where
  "seg_check_syn resolve k flag st =
     (if isSet flag SYN
      then flow_return (TxHelperTCP resolve k RST [] 0 None
             (tcp_transition k StClosed (signalErr k ''connection reset'' st)))
      else GoOn st)"

text \<open>Fifth, ACK: what ESTABLISHED and the states after it share, then the cases by state.\<close>

definition ack_advance ::
    "'a tcp_state_scheme resolve_fn \<Rightarrow> nat \<Rightarrow> segment \<Rightarrow> 'a tcp_state_scheme \<Rightarrow> 'a tcp_state_scheme flow" where
  "ack_advance resolve k seg st =
     (let p = pcb_at st k
      in if snd_una p < sg_ack seg \<and> sg_ack seg \<le> snd_nxt p
         then
          (case queueAck k (upd_pcb k (\<lambda>p. p\<lparr>snd_una := sg_ack seg\<rparr>) st) of
             (Some e, st1) \<Rightarrow> Return (Some e) st1
           | (None, st1) \<Rightarrow>
               GoOn (upd_pcb k (\<lambda>p.
                 if snd_wl1 p < sg_seq seg \<or> (snd_wl1 p = sg_seq seg \<and> snd_wl2 p \<le> sg_ack seg)
                 then p\<lparr>snd_wnd := sg_wnd seg, snd_wl1 := sg_seq seg, snd_wl2 := sg_ack seg\<rparr>
                 else p) st1))
         else if sg_ack seg < snd_una p then GoOn st
         else if sg_ack seg > snd_nxt p then flow_return (TxHelperTCP resolve k ACK [] 0 None st)
         else GoOn st)"

definition ack_by_state :: "nat \<Rightarrow> segment \<Rightarrow> 'a tcp_state_scheme \<Rightarrow> 'a tcp_state_scheme flow" where
  "ack_by_state k seg st =
     (let p = pcb_at st k
      in case tp_state p of
           StFINWait1 \<Rightarrow> GoOn (if sg_ack seg = snd_nxt p then tcp_transition k StFINWait2 st else st)
         | StFINWait2 \<Rightarrow>
             (if tp_retxQueue p = []
              then (case signalCmd k triggerClose st of
                      (Some e, st1) \<Rightarrow> Return (Some e) st1
                    | (None, st1) \<Rightarrow> GoOn st1)
              else GoOn st)
         | StClosing \<Rightarrow>
             GoOn (if sg_ack seg = snd_nxt p
                   then upd_pcb k (\<lambda>p. p\<lparr>tp_lastTxTime := now st\<rparr>) (tcp_transition k StTimeWait st)
                   else st)
         | _ \<Rightarrow> GoOn st)"

definition seg_check_ack ::
    "'a tcp_state_scheme resolve_fn \<Rightarrow> nat \<Rightarrow> segment \<Rightarrow> u8 \<Rightarrow> 'a tcp_state_scheme \<Rightarrow>
     'a tcp_state_scheme flow" where
  "seg_check_ack resolve k seg flag st =
     (let p = pcb_at st k; common = (\<lambda>st. flow_then (ack_advance resolve k seg st) (ack_by_state k seg))
      in if \<not> isSet flag ACK then Return None st
         else case tp_state p of
           StSYNReceived \<Rightarrow>
             (if snd_una p \<le> sg_ack seg \<and> sg_ack seg \<le> snd_nxt p
              then common (tcp_transition k StEstablished st)
              else flow_return (tcp_TxHandler resolve (tp_local p) (tp_foreign p) [] (sg_ack seg) 0 RST 0 0 st))
         | StLastACK \<Rightarrow>
             Return None (if sg_ack seg = snd_nxt p
                          then tcp_transition k StClosed (signalErr k ''connection closed'' st) else st)
         | StTimeWait \<Rightarrow>
             Return None (if isSet flag FIN then upd_pcb k (\<lambda>p. p\<lparr>tp_lastTxTime := now st\<rparr>) st else st)
         | StListen \<Rightarrow> GoOn st
         | StSYNSent \<Rightarrow> GoOn st
         | StClosed \<Rightarrow> GoOn st
         | _ \<Rightarrow> common st)"

text \<open>Sixth, URG, whose condition asks for RST.\<close>

definition seg_check_urg :: "nat \<Rightarrow> segment \<Rightarrow> u8 \<Rightarrow> 'a tcp_state_scheme \<Rightarrow> 'a tcp_state_scheme flow" where
  "seg_check_urg k seg flag st =
     GoOn (if tp_state (pcb_at st k) \<in> {StEstablished, StFINWait1, StFINWait2} \<and> isSet flag RST
           then upd_pcb k (\<lambda>p. p\<lparr>rcv_up := Max16 (rcv_up p) (sg_up seg)\<rparr>) st else st)"

text \<open>Seventh, the text.\<close>

definition seg_text ::
    "'a tcp_state_scheme resolve_fn \<Rightarrow> nat \<Rightarrow> segment \<Rightarrow> bytes \<Rightarrow> u32 \<Rightarrow> 'a tcp_state_scheme \<Rightarrow>
     'a tcp_state_scheme flow" where
  "seg_text resolve k seg data dataLen st =
     (if tp_state (pcb_at st k) \<in> {StEstablished, StFINWait1, StFINWait2} \<and> dataLen > 0
      then
       (let st1 = upd_pcb k (\<lambda>p. p\<lparr>tp_rxQueue := copy_at (unat (tp_rxLen p)) data (tp_rxQueue p),
                     tp_rxLen := tp_rxLen p + ucast dataLen,
                     rcv_nxt := sg_seq seg + sg_len seg,
                     rcv_wnd := rcv_wnd p - ucast dataLen\<rparr>) st
        in (case signalCmd k triggerReceive st1 of
              (Some e, st2) \<Rightarrow> Return (Some e) st2
            | (None, st2) \<Rightarrow> flow_return (TxHelperTCP resolve k ACK [] 0 None st2)))
      else GoOn st)"

text \<open>Eighth, FIN.\<close>

definition seg_fin ::
    "'a tcp_state_scheme resolve_fn \<Rightarrow> nat \<Rightarrow> segment \<Rightarrow> u8 \<Rightarrow> 'a tcp_state_scheme \<Rightarrow>
     'a tcp_state_scheme flow" where
  "seg_fin resolve k seg flag st =
     (if tp_state (pcb_at st k) \<in> {StClosed, StListen, StSYNSent} then Return None st
      else if isSet flag FIN
      then
       (case signalCmd k triggerReceive st of
          (Some e, st1) \<Rightarrow> Return (Some e) st1
        | (None, st1) \<Rightarrow>
            (let st2 = upd_pcb k (\<lambda>p. p\<lparr>rcv_nxt := sg_seq seg + 1\<rparr>) st1;
                 p = pcb_at st2 k;
                 timewait = (\<lambda>st. upd_pcb k (\<lambda>p. p\<lparr>tp_lastTxTime := now st\<rparr>) (tcp_transition k StTimeWait st));
                 ack = (\<lambda>st. flow_return (TxHelperTCP resolve k ACK [] 0 None st))
             in case tp_state p of
                  StSYNReceived \<Rightarrow> ack (tcp_transition k StCloseWait st2)
                | StEstablished \<Rightarrow> ack (tcp_transition k StCloseWait st2)
                | StFINWait1 \<Rightarrow>
                    ack (if sg_ack seg = snd_nxt p then timewait st2 else tcp_transition k StClosing st2)
                | StFINWait2 \<Rightarrow> ack (timewait st2)
                | StTimeWait \<Rightarrow> ack (upd_pcb k (\<lambda>p. p\<lparr>tp_lastTxTime := now st2\<rparr>) st2)
                | StCloseWait \<Rightarrow> ack st2
                | StClosing \<Rightarrow> ack st2
                | StLastACK \<Rightarrow> ack st2
                | _ \<Rightarrow> GoOn st2))
      else GoOn st)"

definition seg_default ::
    "'a tcp_state_scheme resolve_fn \<Rightarrow> nat \<Rightarrow> segment \<Rightarrow> u8 \<Rightarrow> bytes \<Rightarrow> u32 \<Rightarrow> 'a tcp_state_scheme \<Rightarrow>
     error option \<times> 'a tcp_state_scheme" where
  "seg_default resolve k seg flag data dataLen st =
     flow_end
      (flow_then (flow_then (flow_then (flow_then (flow_then (flow_then
         (seg_check_seq resolve k seg flag st)
         (seg_check_rst k flag))
         (seg_check_syn resolve k flag))
         (seg_check_ack resolve k seg flag))
         (seg_check_urg k seg flag))
         (seg_text resolve k seg data dataLen))
         (seg_fin resolve k seg flag))"

definition segmentArrives ::
    "'a tcp_state_scheme resolve_fn \<Rightarrow> u32 \<Rightarrow> nat \<Rightarrow> segment \<Rightarrow> u8 \<Rightarrow> bytes \<Rightarrow> u32 \<Rightarrow> endpoint \<Rightarrow>
     'a tcp_state_scheme \<Rightarrow> error option \<times> 'a tcp_state_scheme" where
  "segmentArrives resolve iss k seg flag data dataLen foreign st =
     (case tp_state (pcb_at st k) of
        StClosed \<Rightarrow> seg_closed resolve k seg flag st
      | StListen \<Rightarrow> seg_listen resolve iss k seg flag data dataLen foreign st
      | StSYNSent \<Rightarrow> seg_synsent resolve k seg flag st
      | _ \<Rightarrow> seg_default resolve k seg flag data dataLen st)"

text \<open>\<open>hdrLen\<close> and \<open>hdrLen - HeaderSizeMin\<close> are computed in eight bits; a slice bound beyond the
  payload panics.\<close>

definition tcp_RxHandler ::
    "'a tcp_state_scheme resolve_fn \<Rightarrow> u32 \<Rightarrow> slice \<Rightarrow> u32 \<Rightarrow> u32 \<Rightarrow> nat \<Rightarrow> 'a tcp_state_scheme \<Rightarrow>
     error option \<times> 'a tcp_state_scheme" where
  "tcp_RxHandler resolve iss sl src dst i st =
     (let data = slice_bytes st sl
      in case tcp_data2header data src dst of
           Inl e \<Rightarrow> (Some e, st)
         | Inr (hdr, payload) \<Rightarrow>
             (case find (\<lambda>c. ep_addr (tp_local (pcb_at st c)) = dst \<and>
                             ep_port (tp_local (pcb_at st c)) = th_dst hdr) (tcp_pcbs st) of
                None \<Rightarrow> (Some (Err ''TCP socket not found''), st)
              | Some k \<Rightarrow>
                 (let hdrLen = push_bit 2 (drop_bit 4 (th_offset hdr)) :: u8;
                      dataLen = of_nat (length data) - ucast hdrLen :: u32;
                      seg = \<lparr>sg_seq = th_seq hdr, sg_ack = th_ack hdr,
                             sg_len = (if isSet (th_flag hdr) (SYN OR FIN) then dataLen + 1 else dataLen),
                             sg_wnd = th_window hdr, sg_up = th_urgent hdr\<rparr>;
                      foreign = \<lparr>ep_addr = src, ep_port = th_src hdr\<rparr>;
                      from = unat (hdrLen - of_nat TcpHeaderSizeMin)
                  in if length payload < from then (Some Panic, st)
                     else segmentArrives resolve iss k seg (th_flag hdr) (drop from payload) dataLen
                            foreign st)))"

definition tcp_Init :: "'a ip_state_scheme \<Rightarrow> error option \<times> 'a ip_state_scheme" where
  "tcp_Init st = ip_ProtoRegister TcpProto st"

section \<open>The layer below\<close>

text \<open>What TCP relies on when it sends: connections, log and user memory, and the clock, are not
  touched by \<open>ip.TxHandler\<close>.\<close>

locale tcp_layer = upper_layer resolve udp_state.more
  for resolve :: "'a tcp_state_scheme resolve_fn" +
  assumes resolve_now: "now (snd (resolve i pa st)) = now st"

lemma tcp_more:
  assumes "udp_state.more (s' :: 'a tcp_state_scheme) = udp_state.more s"
  shows "tcp_store s' = tcp_store s" "tcp_pcbs s' = tcp_pcbs s" "tcp_srtt s' = tcp_srtt s"
    "tcp_rto s' = tcp_rto s" "tcp_log s' = tcp_log s" "tcp_bufs s' = tcp_bufs s" "tcp_ints s' = tcp_ints s"
  using assms by (cases s; cases s'; simp)+

interpretation arp_tcp: tcp_layer arp_Resolve
proof (unfold_locales, goal_cases)
  case (3 i pa st)
  have "arp_state.more (snd (arp_Resolve i pa st)) = arp_state.more st"
    by (rule arp_upper.resolve_upper)
  then show ?case by (cases st; cases "snd (arp_Resolve i pa st)"; simp)
next
  case (4 i pa st)
  have send: "now (snd (arp_send op tha tpa dst i st)) = now st" for op tha tpa dst i
    and st :: "'b arp_state_scheme"
  proof -
    have "now (snd (DeviceOutput d data t dst st)) = now st" for d data t dst
      using DeviceOutput_updates [of d data t dst st] by auto
    then show ?thesis by (auto simp: arp_send_def Let_def split: option.split device.split)
  qed
  show ?case
    by (simp add: arp_Resolve_def arp_Request_def Let_def send split: option.split sum.split)
qed simp_all

text \<open>The entry \<open>TxHelperTCP\<close> makes.\<close>

definition helper_entry :: "tcp_pcb \<Rightarrow> int \<Rightarrow> u8 \<Rightarrow> bytes \<Rightarrow> u8 \<Rightarrow> nat option \<Rightarrow> retx_entry" where
  "helper_entry p t flag data trigger errCh =
     \<lparr>re_data = data, re_seq = (if isSet flag SYN then tp_iss p else snd_nxt p), re_flag = flag,
      re_first = t, re_last = t, re_retxCount = 0, re_errCh = errCh, re_trigger = trigger\<rparr>"

context tcp_layer begin

lemma tx_now: "now (snd (ip_TxHandler resolve proto data src dst st)) = now st"
proof -
  have out: "now (snd (DeviceOutput d data t dst st)) = now st" for d data t dst and st :: "'b tcp_state_scheme"
    using DeviceOutput_updates [of d data t dst st] by auto
  have "now (snd (ip_output resolve i d nexthop packet st)) = now st" for i d nexthop packet st
  proof -
    obtain r st1 where "resolve i nexthop st = (r, st1)" by force
    then show ?thesis
      using resolve_now [of i nexthop st] by (cases r) (simp_all add: ip_output_def out)
  qed
  then show ?thesis
    by (auto simp: ip_TxHandler_def generateId_def Let_def split: sum.split option.split prod.split)
qed

lemma tcp_tx_more: "udp_state.more (snd (tcp_TxHandler resolve src dst payload seq ack flag wnd up st)) = udp_state.more st"
  by (simp add: tcp_TxHandler_def Let_def case_prod_beta TxHandler_upper)

lemma tcp_tx_fields [simp]:
  "tcp_store (snd (tcp_TxHandler resolve src dst payload seq ack flag wnd up st)) = tcp_store st"
  "tcp_pcbs (snd (tcp_TxHandler resolve src dst payload seq ack flag wnd up st)) = tcp_pcbs st"
  "tcp_log (snd (tcp_TxHandler resolve src dst payload seq ack flag wnd up st)) = tcp_log st"
  "tcp_bufs (snd (tcp_TxHandler resolve src dst payload seq ack flag wnd up st)) = tcp_bufs st"
  "tcp_ints (snd (tcp_TxHandler resolve src dst payload seq ack flag wnd up st)) = tcp_ints st"
  "now (snd (tcp_TxHandler resolve src dst payload seq ack flag wnd up st)) = now st"
  using tcp_more [OF tcp_tx_more]
  by (simp_all add: tcp_TxHandler_def Let_def case_prod_beta tx_now)

text \<open>\<open>TxHelperTCP\<close> changes at most the queue of its connection, and that only when it has sent.\<close>

lemma TxHelper_pcb:
  assumes "k < length (tcp_store st)"
  shows "pcb_at (snd (TxHelperTCP resolve k flag data trigger errCh st)) k =
    (if fst (TxHelperTCP resolve k flag data trigger errCh st) = None \<and> (isSet flag (SYN OR FIN) \<or> data \<noteq> [])
     then (pcb_at st k)\<lparr>tp_retxQueue := tp_retxQueue (pcb_at st k) @
            [helper_entry (pcb_at st k) (now st) flag data trigger errCh]\<rparr>
     else pcb_at st k)"
proof -
  obtain r st1 where tx: "tcp_TxHandler resolve (tp_local (pcb_at st k)) (tp_foreign (pcb_at st k)) data
      (if isSet flag SYN then tp_iss (pcb_at st k) else snd_nxt (pcb_at st k)) (rcv_nxt (pcb_at st k)) flag
      (rcv_wnd (pcb_at st k)) (rcv_up (pcb_at st k)) st = (r, st1)" by force
  then have "tcp_store st1 = tcp_store st" "now st1 = now st"
    using tcp_tx_fields by (metis snd_conv)+
  with tx assms show ?thesis
    by (cases r) (auto simp: TxHelperTCP_def Let_def queueAdd_def helper_entry_def)
qed

lemma TxHelper_fields [simp]:
  "length (tcp_store (snd (TxHelperTCP resolve k flag data trigger errCh st))) = length (tcp_store st)"
  "tcp_pcbs (snd (TxHelperTCP resolve k flag data trigger errCh st)) = tcp_pcbs st"
  "tcp_log (snd (TxHelperTCP resolve k flag data trigger errCh st)) = tcp_log st"
  "tcp_bufs (snd (TxHelperTCP resolve k flag data trigger errCh st)) = tcp_bufs st"
  "tcp_ints (snd (TxHelperTCP resolve k flag data trigger errCh st)) = tcp_ints st"
  "now (snd (TxHelperTCP resolve k flag data trigger errCh st)) = now st"
  "j \<noteq> k \<Longrightarrow> pcb_at (snd (TxHelperTCP resolve k flag data trigger errCh st)) j = pcb_at st j"
proof -
  obtain r st1 where tx: "tcp_TxHandler resolve (tp_local (pcb_at st k)) (tp_foreign (pcb_at st k)) data
      (if isSet flag SYN then tp_iss (pcb_at st k) else snd_nxt (pcb_at st k)) (rcv_nxt (pcb_at st k)) flag
      (rcv_wnd (pcb_at st k)) (rcv_up (pcb_at st k)) st = (r, st1)" by force
  then have "tcp_store st1 = tcp_store st" "tcp_pcbs st1 = tcp_pcbs st" "tcp_log st1 = tcp_log st"
    "tcp_bufs st1 = tcp_bufs st" "tcp_ints st1 = tcp_ints st" "now st1 = now st"
    using tcp_tx_fields by (metis snd_conv)+
  with tx show
    "length (tcp_store (snd (TxHelperTCP resolve k flag data trigger errCh st))) = length (tcp_store st)"
    "tcp_pcbs (snd (TxHelperTCP resolve k flag data trigger errCh st)) = tcp_pcbs st"
    "tcp_log (snd (TxHelperTCP resolve k flag data trigger errCh st)) = tcp_log st"
    "tcp_bufs (snd (TxHelperTCP resolve k flag data trigger errCh st)) = tcp_bufs st"
    "tcp_ints (snd (TxHelperTCP resolve k flag data trigger errCh st)) = tcp_ints st"
    "now (snd (TxHelperTCP resolve k flag data trigger errCh st)) = now st"
    "j \<noteq> k \<Longrightarrow> pcb_at (snd (TxHelperTCP resolve k flag data trigger errCh st)) j = pcb_at st j"
    by (cases r; simp add: TxHelperTCP_def Let_def queueAdd_def)+
qed

end

end
