(* ===== verification/TcpUser.thy ===== *)
theory TcpUser
  imports Tcp
begin

text \<open>
  The calls of TCP's user, \<open>OPEN\<close>, \<open>SEND\<close>, \<open>RECEIVE\<close>, \<open>CLOSE\<close>, \<open>ABORT\<close> (\<open>pkg/tcp/pcb.go\<close>), and one
  round of the timer (\<open>pkg/tcp/timer.go\<close>). The user's channel \<open>errCh\<close> is a number; \<open>wait\<close> is what
  the rest of the stack does to the state during the 20 milliseconds between two tries.
\<close>

section \<open>Calls\<close>

text \<open>The loop of at most three tries, as \<open>OPEN\<close>, \<open>SEND\<close> and \<open>CLOSE\<close> have it.\<close>

fun try_send ::
    "nat \<Rightarrow> 'a tcp_state_scheme resolve_fn \<Rightarrow> ('a tcp_state_scheme \<Rightarrow> 'a tcp_state_scheme) \<Rightarrow>
     nat \<Rightarrow> u8 \<Rightarrow> bytes \<Rightarrow> u8 \<Rightarrow> nat \<Rightarrow> error option \<Rightarrow> 'a tcp_state_scheme \<Rightarrow>
     error option \<times> 'a tcp_state_scheme" where
  "try_send 0 resolve wait k flag data trigger errCh err st = (err, st)"
| "try_send (Suc n) resolve wait k flag data trigger errCh err st =
     (case TxHelperTCP resolve k flag data trigger (Some errCh) st of
        (Some e, st1) \<Rightarrow>
          if stops (Some e) then (Some e, st1)
          else try_send n resolve wait k flag data trigger errCh (Some e) (wait st1)
      | (None, st1) \<Rightarrow> (None, st1))"

text \<open>The error the tries end with goes to the user's channel, if the call still runs.\<close>

definition report :: "nat \<Rightarrow> error \<Rightarrow> 'a tcp_state_scheme \<Rightarrow> 'a tcp_state_scheme" where
  "report errCh e st = (if stops (Some e) then st else chan_send errCh (Some e) st)"

definition tcp_open_active ::
    "'a tcp_state_scheme resolve_fn \<Rightarrow> ('a tcp_state_scheme \<Rightarrow> 'a tcp_state_scheme) \<Rightarrow> u32 \<Rightarrow>
     nat \<Rightarrow> nat \<Rightarrow> endpoint \<Rightarrow> int \<Rightarrow> 'a tcp_state_scheme \<Rightarrow> 'a tcp_state_scheme" where
  "tcp_open_active resolve wait iss k errCh foreign timeout st =
     (if ep_addr foreign = AddrAny
      then chan_send errCh (Some (Err ''foreign socket unspecified'')) st
      else
       (let st1 = upd_pcb k (\<lambda>p. p\<lparr>tp_timeout := timeout, tp_foreign := foreign, tp_iss := iss,
                     snd_una := iss, snd_nxt := iss + 1\<rparr>) st
        in case try_send 3 resolve wait k SYN [] triggerOpen errCh None st1 of
             (None, st2) \<Rightarrow> tcp_transition k StSYNSent st2
           | (Some e, st2) \<Rightarrow> report errCh e st2))"

definition tcp_Open ::
    "'a tcp_state_scheme resolve_fn \<Rightarrow> ('a tcp_state_scheme \<Rightarrow> 'a tcp_state_scheme) \<Rightarrow> u32 \<Rightarrow>
     nat \<Rightarrow> nat \<Rightarrow> endpoint \<Rightarrow> bool \<Rightarrow> int \<Rightarrow> 'a tcp_state_scheme \<Rightarrow> 'a tcp_state_scheme" where
  "tcp_Open resolve wait iss k errCh foreign isActive timeout st =
     (case tp_state (pcb_at st k) of
        StClosed \<Rightarrow>
          (if \<not> isActive
           then chan_send errCh None
                  (tcp_transition k StListen (upd_pcb k (\<lambda>p. p\<lparr>tp_timeout := timeout\<rparr>) st))
           else tcp_open_active resolve wait iss k errCh foreign timeout st)
      | StListen \<Rightarrow>
          (if \<not> isActive
           then chan_send errCh None (upd_pcb k (\<lambda>p. p\<lparr>tp_timeout := timeout\<rparr>) st)
           else tcp_open_active resolve wait iss k errCh foreign timeout st)
      | _ \<Rightarrow> chan_send errCh (Some (Err ''connection already exists'')) st)"

text \<open>\<open>SEND\<close> reports data beyond the window and sends it all the same: there is no \<open>return\<close>.\<close>

definition tcp_Send ::
    "'a tcp_state_scheme resolve_fn \<Rightarrow> ('a tcp_state_scheme \<Rightarrow> 'a tcp_state_scheme) \<Rightarrow>
     nat \<Rightarrow> nat \<Rightarrow> bytes \<Rightarrow> 'a tcp_state_scheme \<Rightarrow> 'a tcp_state_scheme" where
  "tcp_Send resolve wait k errCh data st =
     (let s = tp_state (pcb_at st k)
      in if s \<in> {StClosed, StListen, StSYNSent, StSYNReceived}
         then chan_send errCh (Some (Err ''connection does not exist'')) st
         else if s \<in> {StEstablished, StCloseWait}
         then
          (let st1 = (if length data > unat (snd_wnd (pcb_at st k))
                      then chan_send errCh (Some (Err ''insufficient resources'')) st else st)
           in case try_send 3 resolve wait k ACK data triggerSend errCh None st1 of
                (None, st2) \<Rightarrow> upd_pcb k (\<lambda>p. p\<lparr>snd_nxt := snd_nxt p + of_nat (length data)\<rparr>) st2
              | (Some e, st2) \<Rightarrow> report errCh e st2)
         else chan_send errCh (Some (Err ''connection closing'')) st)"

text \<open>\<open>buf\<close> and \<open>n\<close> are cells of the user's memory. The part that ESTABLISHED and CLOSE-WAIT share
  tells whether the request was taken.\<close>

definition receive_request ::
    "nat \<Rightarrow> nat \<Rightarrow> nat \<Rightarrow> nat \<Rightarrow> 'a tcp_state_scheme \<Rightarrow> bool \<times> 'a tcp_state_scheme" where
  "receive_request k errCh buf n st =
     (if rc_errCh (tp_rcvCmd (pcb_at st k)) \<noteq> None
      then (False, chan_send errCh (Some (Err ''RECEIVE was already called and data haven't come yet'')) st)
      else (True, snd (signalCmd k triggerReceive
              (upd_pcb k (\<lambda>p. p\<lparr>tp_rcvCmd := \<lparr>rc_n = n, rc_data = buf, rc_errCh = Some errCh\<rparr>\<rparr>) st))))"

definition tcp_Receive ::
    "nat \<Rightarrow> nat \<Rightarrow> nat \<Rightarrow> nat \<Rightarrow> 'a tcp_state_scheme \<Rightarrow> 'a tcp_state_scheme" where
  "tcp_Receive k errCh buf n st =
     (let s = tp_state (pcb_at st k)
      in if s \<in> {StClosed, StListen, StSYNSent, StSYNReceived}
         then chan_send errCh (Some (Err ''connection does not exist'')) st
         else if s \<in> {StEstablished, StFINWait1, StFINWait2}
         then snd (receive_request k errCh buf n st)
         else if s = StCloseWait
         then (case receive_request k errCh buf n st of
                 (False, st1) \<Rightarrow> st1
               | (True, st1) \<Rightarrow>
                   if rc_errCh (tp_rcvCmd (pcb_at st1 k)) \<noteq> None
                   then chan_send errCh (Some (Err ''no remaning data''))
                          (upd_pcb k (\<lambda>p. p\<lparr>tp_rcvCmd := rcv_cmd_zero\<rparr>) st1)
                   else st1)
         else chan_send errCh (Some (Err ''connection closing'')) st)"

text \<open>The FIN of \<open>CLOSE\<close>, with the state it leads to.\<close>

definition close_fin ::
    "'a tcp_state_scheme resolve_fn \<Rightarrow> ('a tcp_state_scheme \<Rightarrow> 'a tcp_state_scheme) \<Rightarrow>
     nat \<Rightarrow> nat \<Rightarrow> pcb_state \<Rightarrow> 'a tcp_state_scheme \<Rightarrow> 'a tcp_state_scheme" where
  "close_fin resolve wait k errCh s st =
     (case try_send 3 resolve wait k (ACK OR FIN) [] triggerClose errCh None st of
        (None, st1) \<Rightarrow> upd_pcb k (\<lambda>p. p\<lparr>snd_nxt := snd_nxt p + 1\<rparr>) (tcp_transition k s st1)
      | (Some e, st1) \<Rightarrow> report errCh e st1)"

definition tcp_Close ::
    "'a tcp_state_scheme resolve_fn \<Rightarrow> ('a tcp_state_scheme \<Rightarrow> 'a tcp_state_scheme) \<Rightarrow>
     nat \<Rightarrow> nat \<Rightarrow> 'a tcp_state_scheme \<Rightarrow> 'a tcp_state_scheme" where
  "tcp_Close resolve wait k errCh st =
     (case tp_state (pcb_at st k) of
        StClosed \<Rightarrow> chan_send errCh (Some (Err ''connection does not exist'')) st
      | StListen \<Rightarrow> chan_send errCh None (tcp_transition k StClosed (signalErr k ''closing'' st))
      | StSYNSent \<Rightarrow> chan_send errCh None (tcp_transition k StClosed (signalErr k ''closing'' st))
      | StSYNReceived \<Rightarrow> close_fin resolve wait k errCh StFINWait1 st
      | StEstablished \<Rightarrow> close_fin resolve wait k errCh StFINWait1 st
      | StCloseWait \<Rightarrow> close_fin resolve wait k errCh StLastACK st
      | _ \<Rightarrow> chan_send errCh (Some (Err ''connection closing'')) st)"

definition tcp_Abort ::
    "'a tcp_state_scheme resolve_fn \<Rightarrow> nat \<Rightarrow> 'a tcp_state_scheme \<Rightarrow>
     error option \<times> 'a tcp_state_scheme" where
  "tcp_Abort resolve k st =
     (let s = tp_state (pcb_at st k)
      in if s = StClosed then (Some (Err ''connection does not exist''), st)
         else if s \<in> {StListen, StSYNSent}
         then (None, tcp_transition k StClosed (signalErr k ''connection reset'' st))
         else if s \<in> {StSYNReceived, StEstablished, StFINWait1, StFINWait2, StCloseWait}
         then (let st1 = tcp_transition k StClosed (signalErr k ''connection reset'' st); p = pcb_at st1 k
               in tcp_TxHandler resolve (tp_local p) (tp_foreign p) [] (snd_nxt p) 0 RST 0 0 st1)
         else (None, tcp_transition k StClosed st))"

section \<open>The timer\<close>

text \<open>The loop over the retransmission queue. \<open>entry\<close> is a copy: the count and the time written to it
  are lost. An expired user timeout leaves the loop. An error of \<open>TxHandler\<close> is logged only.\<close>

fun timer_entries ::
    "'a tcp_state_scheme resolve_fn \<Rightarrow> nat \<Rightarrow> nat \<Rightarrow> retx_entry list \<Rightarrow> nat list \<Rightarrow> 'a tcp_state_scheme \<Rightarrow>
     error option \<times> nat list \<times> 'a tcp_state_scheme" where
  "timer_entries resolve k i [] del st = (None, del, st)"
| "timer_entries resolve k i (entry # es) del st =
     (if re_first entry + tp_timeout (pcb_at st k) < now st
      then (None, del, tcp_transition k StClosed (signalErr k ''connection aborted due to user timeout'' st))
      else if re_last entry + tcp_rto st * 2 ^ unat (re_retxCount entry) < now st
      then
       (let entry = entry\<lparr>re_retxCount := re_retxCount entry + 1\<rparr>
        in if re_retxCount entry \<ge> maxRetxCount
           then timer_entries resolve k (i + 1) es (del @ [i])
                  (send_opt (re_errCh entry)
                    (Some (Err ''retransmission time is over than limit,network may be not connected'')) st)
           else
            (case tcp_TxHandler resolve (tp_local (pcb_at st k)) (tp_foreign (pcb_at st k))
                    (re_data entry) (re_seq entry) (rcv_nxt (pcb_at st k)) (re_flag entry)
                    (snd_wnd (pcb_at st k)) 0 st of
               (r, st1) \<Rightarrow>
                 if stops r then (r, del, st1) else timer_entries resolve k (i + 1) es del st1))
      else timer_entries resolve k (i + 1) es del st)"

definition timer_pcb ::
    "'a tcp_state_scheme resolve_fn \<Rightarrow> nat \<Rightarrow> 'a tcp_state_scheme \<Rightarrow> error option \<times> 'a tcp_state_scheme" where
  "timer_pcb resolve k st =
     (if tp_state (pcb_at st k) = StTimeWait \<and> tp_lastTxTime (pcb_at st k) + MSL < now st
      then (None, tcp_transition k StClosed (signalErr k ''connection aborted due to user timeout'' st))
      else
       (case queueAck k st of
          (Some e, st1) \<Rightarrow> (Some e, st1)
        | (None, st1) \<Rightarrow>
            (case timer_entries resolve k 0 (tp_retxQueue (pcb_at st1 k)) [] st1 of
               (Some e, del, st2) \<Rightarrow> (Some e, st2)
             | (None, del, st2) \<Rightarrow>
                 (case removeRetx (tp_retxQueue (pcb_at st2 k)) del of
                    Inl e \<Rightarrow> (Some e, st2)
                  | Inr q \<Rightarrow> (None, upd_pcb k (\<lambda>p. p\<lparr>tp_retxQueue := q\<rparr>) st2)))))"

fun timer_loop ::
    "'a tcp_state_scheme resolve_fn \<Rightarrow> nat list \<Rightarrow> 'a tcp_state_scheme \<Rightarrow>
     error option \<times> 'a tcp_state_scheme" where
  "timer_loop resolve [] st = (None, st)"
| "timer_loop resolve (k # ks) st =
     (case timer_pcb resolve k st of
        (Some e, st1) \<Rightarrow> (Some e, st1)
      | (None, st1) \<Rightarrow> timer_loop resolve ks st1)"

definition tcpTimer ::
    "'a tcp_state_scheme resolve_fn \<Rightarrow> 'a tcp_state_scheme \<Rightarrow> error option \<times> 'a tcp_state_scheme" where
  "tcpTimer resolve st = timer_loop resolve (tcp_pcbs st) st"

end
