(* ===== verification/TcpInvariant.thy ===== *)
theory TcpInvariant
  imports TcpUser
begin

text \<open>
  The invariant of TCP: what every step of a connection, every call of the user and every round of
  the timer keeps.
\<close>

section \<open>What every step keeps\<close>

text \<open>\<open>tcp_to k st st'\<close>: from a state where connection \<open>k\<close> is well formed, \<open>st'\<close> is one where it still
  is and where nothing of the other connections changed.\<close>

definition tcp_frame :: "nat \<Rightarrow> 'a tcp_state_scheme \<Rightarrow> 'a tcp_state_scheme \<Rightarrow> bool" where
  "tcp_frame k st st' \<longleftrightarrow>
     length (tcp_store st') = length (tcp_store st) \<and> tcp_pcbs st' = tcp_pcbs st \<and>
     (\<forall>j. j \<noteq> k \<longrightarrow> pcb_at st' j = pcb_at st j) \<and> tp_local (pcb_at st' k) = tp_local (pcb_at st k)"

definition tcp_to :: "nat \<Rightarrow> 'a tcp_state_scheme \<Rightarrow> 'a tcp_state_scheme \<Rightarrow> bool" where
  "tcp_to k st st' \<longleftrightarrow>
     (k < length (tcp_store st) \<and> pcb_ok (pcb_at st k) \<longrightarrow> tcp_frame k st st' \<and> pcb_ok (pcb_at st' k))"

lemma tcp_to_refl [simp, intro]: "tcp_to k st st"
  by (simp add: tcp_to_def tcp_frame_def)

lemma tcp_to_trans [trans]: "tcp_to k a b \<Longrightarrow> tcp_to k b c \<Longrightarrow> tcp_to k a c"
  by (auto simp: tcp_to_def tcp_frame_def)

lemma tcp_to_upd:
  assumes "\<And>p. p = pcb_at st k \<Longrightarrow> pcb_ok p \<Longrightarrow> pcb_ok (f p) \<and> tp_local (f p) = tp_local p"
  shows "tcp_to k st (upd_pcb k f st)"
  using assms by (auto simp: tcp_to_def tcp_frame_def)

lemma tcp_to_store:
  assumes "tcp_store st' = tcp_store st" "tcp_pcbs st' = tcp_pcbs st"
  shows "tcp_to k st st'"
  using assms by (auto simp: tcp_to_def tcp_frame_def)

lemma tcp_to_chan_send [simp, intro]: "tcp_to k st (chan_send c m st)"
  by (rule tcp_to_store) simp_all

lemma tcp_to_transition [simp, intro]: "tcp_to k st (tcp_transition k s st)"
  unfolding tcp_transition_def by (rule tcp_to_upd) (simp add: pcb_ok_def)

lemma tcp_to_queueAck [intro]: "tcp_to k st (snd (queueAck k st))"
proof -
  obtain s r where "snd (queueAck k st) = upd_pcb k (\<lambda>p. p\<lparr>tp_retxQueue :=
        filter (\<lambda>e. \<not> re_seq e < snd_una (pcb_at st k)) (tp_retxQueue (pcb_at st k))\<rparr>)
      (st\<lparr>tcp_log := tcp_log st @ notices None
            (filter (\<lambda>e. re_seq e < snd_una (pcb_at st k)) (tp_retxQueue (pcb_at st k))),
          tcp_srtt := s, tcp_rto := r\<rparr>)"
    using queueAck_eq [of k st] by auto
  then show ?thesis by (auto simp: tcp_to_def tcp_frame_def pcb_ok_def)
qed

lemma tcp_to_signalErr [intro]: "tcp_to k st (signalErr k msg st)"
  by (auto simp: tcp_to_def tcp_frame_def pcb_ok_def signalErr_eq)

lemma tcp_to_stop [simp, intro]: "tcp_to k st (tcp_transition k x (signalErr k msg st))"
  by (rule tcp_to_trans [OF tcp_to_signalErr tcp_to_transition])

lemma signal_receive_pcb [simp]:
  assumes "k < length (tcp_store st)"
  shows "length (tp_rxQueue (pcb_at (signal_receive k st) k)) = length (tp_rxQueue (pcb_at st k))"
    and "tp_retxQueue (pcb_at (signal_receive k st) k) = tp_retxQueue (pcb_at st k)"
    and "tp_local (pcb_at (signal_receive k st) k) = tp_local (pcb_at st k)"
    and "tp_state (pcb_at (signal_receive k st) k) = tp_state (pcb_at st k)"
    and "snd_nxt (pcb_at (signal_receive k st) k) = snd_nxt (pcb_at st k)"
    and "rcv_nxt (pcb_at (signal_receive k st) k) = rcv_nxt (pcb_at st k)"
  using assms by (simp_all add: signal_receive_def Let_def split: option.split)

lemma signal_receive_frame [simp]:
  "length (tcp_store (signal_receive k st)) = length (tcp_store st)"
  "tcp_pcbs (signal_receive k st) = tcp_pcbs st"
  "j \<noteq> k \<Longrightarrow> pcb_at (signal_receive k st) j = pcb_at st j"
  "now (signal_receive k st) = now st"
  by (simp_all add: signal_receive_def Let_def split: option.split)

lemma signalCmd_receive [simp]: "signalCmd k triggerReceive st = (None, signal_receive k st)"
  by (simp add: signalCmd_def tcp_triggers)

lemma tcp_to_signal_receive [intro]: "tcp_to k st (signal_receive k st)"
  by (auto simp: tcp_to_def tcp_frame_def pcb_ok_def)

lemma tcp_to_signalCmd [intro]: "tcp_to k st (snd (signalCmd k trigger st))"
proof (cases "trigger = triggerOpen \<or> trigger = triggerClose")
  case True
  then show ?thesis
    by (auto simp: tcp_to_def tcp_frame_def pcb_ok_def signalCmd_eq)
next
  case False
  then show ?thesis using tcp_to_signal_receive by (auto simp: signalCmd_def)
qed

lemma tcp_to_result:
  "f st = (r, st') \<Longrightarrow> tcp_to k st (snd (f st)) \<Longrightarrow> tcp_to k st st'"
  by simp

fun flow_state :: "'s flow \<Rightarrow> 's" where
  "flow_state (Return e st) = st"
| "flow_state (GoOn st) = st"

lemma flow_then_to:
  assumes "tcp_to k st (flow_state fl)" "\<And>s. tcp_to k s (flow_state (f s))"
  shows "tcp_to k st (flow_state (flow_then fl f))"
  using assms by (cases fl) (auto intro: tcp_to_trans)

lemma flow_state_return [simp]: "flow_state (flow_return r) = snd r"
  by (cases r) simp

lemma flow_end_state [simp]: "snd (flow_end fl) = flow_state fl"
  by (cases fl) simp_all

context tcp_layer begin

lemma tcp_to_TxHandler [simp, intro]:
  "tcp_to k st (snd (tcp_TxHandler resolve src dst payload seq ack flag wnd up st))"
  by (rule tcp_to_store) simp_all

lemma tcp_to_TxHelper:
  assumes "trigger \<noteq> triggerNo \<Longrightarrow> errCh \<noteq> None"
  shows "tcp_to k st (snd (TxHelperTCP resolve k flag data trigger errCh st))"
  using assms by (auto simp: tcp_to_def tcp_frame_def TxHelper_pcb pcb_ok_def helper_entry_def entry_ok_def)

lemma tcp_to_TxHelper0 [simp, intro]: "tcp_to k st (snd (TxHelperTCP resolve k flag data 0 None st))"
  by (rule tcp_to_TxHelper) (simp add: tcp_triggers)

lemma seg_closed_to: "tcp_to k st (snd (seg_closed resolve k seg flag st))"
  by (simp add: seg_closed_def)

lemma length_copy_at [simp]: "off \<le> length q \<Longrightarrow> length (copy_at off d q) = length q"
  by (simp add: copy_at_def Let_def)

lemma copy_at_pcb_ok:
  assumes "pcb_ok p"
  shows "length (copy_at (unat (tp_rxLen p)) d (tp_rxQueue p)) = tcpBufferSize"
proof -
  have "unat (tp_rxLen p) < 65536" by (rule unat_u16_less)
  then have "unat (tp_rxLen p) \<le> length (tp_rxQueue p)"
    using assms unfolding pcb_ok_def tcpBufferSize_def by linarith
  with assms show ?thesis by (simp add: pcb_ok_def)
qed

lemma seg_listen_to: "tcp_to k st (snd (seg_listen resolve iss k seg flag data dataLen foreign st))"
proof -
  define f :: "tcp_pcb \<Rightarrow> tcp_pcb" where "f p = p\<lparr>tp_foreign := foreign, rcv_wnd := of_nat tcpBufferSize,
                     rcv_nxt := sg_seq seg + 1, tp_irs := sg_seq seg, tp_iss := iss,
                     snd_nxt := iss + 1, snd_una := iss\<rparr>" for p :: tcp_pcb
  define g :: "tcp_pcb \<Rightarrow> tcp_pcb" where "g p = p\<lparr>tp_rxQueue := copy_at (unat (tp_rxLen p)) data (tp_rxQueue p),
                     tp_rxLen := tp_rxLen p + ucast dataLen\<rparr>" for p :: tcp_pcb
  have "tcp_to k st (upd_pcb k f st)"
    by (rule tcp_to_upd) (simp add: f_def pcb_ok_def)
  also have "tcp_to k (upd_pcb k f st) (tcp_transition k StSYNReceived (upd_pcb k f st))" ..
  also have "tcp_to k (tcp_transition k StSYNReceived (upd_pcb k f st))
      (upd_pcb k g (tcp_transition k StSYNReceived (upd_pcb k f st)))"
    by (rule tcp_to_upd) (use copy_at_pcb_ok in \<open>auto simp: g_def pcb_ok_def\<close>)
  also have "tcp_to k (upd_pcb k g (tcp_transition k StSYNReceived (upd_pcb k f st)))
      (snd (TxHelperTCP resolve k (SYN OR ACK) [] 0 None (upd_pcb k g (tcp_transition k StSYNReceived (upd_pcb k f st)))))" ..
  finally show ?thesis
    unfolding seg_listen_def Let_def f_def g_def by simp
qed

lemma seg_check_seq_to: "tcp_to k st (flow_state (seg_check_seq resolve k seg flag st))"
  by (simp add: seg_check_seq_def)

lemma seg_check_rst_to: "tcp_to k st (flow_state (seg_check_rst k flag st))"
  by (auto simp: seg_check_rst_def Let_def intro: tcp_to_trans [OF tcp_to_signalErr tcp_to_transition])

lemma seg_check_syn_to: "tcp_to k st (flow_state (seg_check_syn resolve k flag st))"
  using tcp_to_trans [OF tcp_to_trans [OF tcp_to_signalErr tcp_to_transition] tcp_to_TxHelper0]
  by (simp add: seg_check_syn_def)

lemma ack_advance_to: "tcp_to k st (flow_state (ack_advance resolve k seg st))"
proof -
  define u where "u = upd_pcb k (\<lambda>p. p\<lparr>snd_una := sg_ack seg\<rparr>) st"
  define w :: "tcp_pcb \<Rightarrow> tcp_pcb" where "w p = (if snd_wl1 p < sg_seq seg \<or> (snd_wl1 p = sg_seq seg \<and> snd_wl2 p \<le> sg_ack seg)
                 then p\<lparr>snd_wnd := sg_wnd seg, snd_wl1 := sg_seq seg, snd_wl2 := sg_ack seg\<rparr> else p)" for p :: tcp_pcb
  obtain r st1 where q: "queueAck k u = (r, st1)" by force
  have "tcp_to k st u" unfolding u_def by (rule tcp_to_upd) (simp add: pcb_ok_def)
  also have "tcp_to k u st1" using tcp_to_queueAck [of k u] q by simp
  finally have 1: "tcp_to k st st1" .
  also have "tcp_to k st1 (upd_pcb k w st1)" by (rule tcp_to_upd) (simp add: w_def pcb_ok_def)
  finally have 2: "tcp_to k st (upd_pcb k w st1)" .
  show ?thesis
    using 1 2 q unfolding ack_advance_def Let_def u_def [symmetric] w_def [symmetric]
    by (simp split: option.split)
qed

lemma upd_time_to [simp]: "tcp_to k st (upd_pcb k (\<lambda>p. p\<lparr>tp_lastTxTime := t\<rparr>) st)"
  by (rule tcp_to_upd) (simp add: pcb_ok_def)

lemma ack_by_state_to: "tcp_to k st (flow_state (ack_by_state k seg st))"
proof -
  have "tcp_to k st st'" if "signalCmd k triggerClose st = (r, st')" for r st'
    using tcp_to_signalCmd [of k st triggerClose] that by simp
  then show ?thesis
    by (auto simp: ack_by_state_def Let_def intro: tcp_to_trans [OF tcp_to_transition upd_time_to]
        split: pcb_state.split option.split prod.split)
qed

lemma seg_check_ack_to: "tcp_to k st (flow_state (seg_check_ack resolve k seg flag st))"
proof -
  have common: "tcp_to k s (flow_state (flow_then (ack_advance resolve k seg s) (ack_by_state k seg)))" for s
    by (rule flow_then_to [OF ack_advance_to ack_by_state_to])
  show ?thesis
    unfolding seg_check_ack_def Let_def
    by (auto intro: common tcp_to_trans [OF tcp_to_transition common]
        tcp_to_trans [OF tcp_to_signalErr tcp_to_transition] split: pcb_state.split)
qed

lemma seg_check_urg_to: "tcp_to k st (flow_state (seg_check_urg k seg flag st))"
  by (auto simp: seg_check_urg_def pcb_ok_def intro!: tcp_to_upd)

lemma seg_text_to: "tcp_to k st (flow_state (seg_text resolve k seg data dataLen st))"
proof -
  define g :: "tcp_pcb \<Rightarrow> tcp_pcb" where "g p = p\<lparr>tp_rxQueue := copy_at (unat (tp_rxLen p)) data (tp_rxQueue p),
                     tp_rxLen := tp_rxLen p + ucast dataLen, rcv_nxt := sg_seq seg + sg_len seg,
                     rcv_wnd := rcv_wnd p - ucast dataLen\<rparr>" for p :: tcp_pcb
  have "tcp_to k st (upd_pcb k g st)"
    by (rule tcp_to_upd) (use copy_at_pcb_ok in \<open>auto simp: g_def pcb_ok_def\<close>)
  also have "tcp_to k (upd_pcb k g st) (signal_receive k (upd_pcb k g st))" ..
  also have "tcp_to k (signal_receive k (upd_pcb k g st))
      (snd (TxHelperTCP resolve k ACK [] 0 None (signal_receive k (upd_pcb k g st))))" ..
  finally show ?thesis
    by (simp add: seg_text_def Let_def g_def [abs_def])
qed

lemma seg_fin_to: "tcp_to k st (flow_state (seg_fin resolve k seg flag st))"
proof -
  define st2 where "st2 = upd_pcb k (\<lambda>p. p\<lparr>rcv_nxt := sg_seq seg + 1\<rparr>) (signal_receive k st)"
  have "tcp_to k st (signal_receive k st)" ..
  also have "tcp_to k (signal_receive k st) st2"
    unfolding st2_def by (rule tcp_to_upd) (simp add: pcb_ok_def)
  finally have 2: "tcp_to k st st2" .
  have tx: "tcp_to k st (snd (TxHelperTCP resolve k ACK [] 0 None s))" if "tcp_to k st2 s" for s
    using tcp_to_trans [OF tcp_to_trans [OF 2 that] tcp_to_TxHelper0] .
  have tw: "tcp_to k s (upd_pcb k (\<lambda>p. p\<lparr>tp_lastTxTime := now s\<rparr>) (tcp_transition k StTimeWait s))" for s
    by (rule tcp_to_trans [OF tcp_to_transition upd_time_to])
  show ?thesis
    unfolding seg_fin_def Let_def signalCmd_receive prod.case option.case st2_def [symmetric]
    using 2 by (auto intro!: tx tw split: pcb_state.split)
qed

lemma seg_default_to: "tcp_to k st (snd (seg_default resolve k seg flag data dataLen st))"
  unfolding seg_default_def flow_end_state
  by (intro flow_then_to seg_check_seq_to seg_check_rst_to seg_check_syn_to seg_check_ack_to
      seg_check_urg_to seg_text_to seg_fin_to)

lemma seg_synsent_to: "tcp_to k st (snd (seg_synsent resolve k seg flag st))"
proof -
  define a where "a = upd_pcb k (\<lambda>p. p\<lparr>rcv_nxt := sg_seq seg + 1, tp_irs := sg_seq seg\<rparr>) st"
  have a: "tcp_to k st a" unfolding a_def by (rule tcp_to_upd) (simp add: pcb_ok_def)
  define acc where "acc = (isSet flag ACK \<and> snd_una (pcb_at st k) \<le> sg_ack seg \<and> sg_ack seg \<le> snd_nxt (pcb_at st k))"
  obtain r b where b: "(if acc then queueAck k (upd_pcb k (\<lambda>p. p\<lparr>snd_una := sg_ack seg\<rparr>) a) else (None, a)) = (r, b)"
    by force
  have "tcp_to k a (upd_pcb k (\<lambda>p. p\<lparr>snd_una := sg_ack seg\<rparr>) a)"
    by (rule tcp_to_upd) (simp add: pcb_ok_def)
  from tcp_to_trans [OF this tcp_to_queueAck] b have "tcp_to k a b"
    by (auto split: if_splits dest!: arg_cong [where f = snd])
  with a have ab: "tcp_to k st b" by (rule tcp_to_trans)
  define c where "c = upd_pcb k (\<lambda>p. p\<lparr>snd_wnd := sg_wnd seg, snd_wl1 := sg_seq seg, snd_wl2 := sg_ack seg\<rparr>)
      (tcp_transition k StEstablished b)"
  have "tcp_to k (tcp_transition k StEstablished b) c"
    unfolding c_def by (rule tcp_to_upd) (simp add: pcb_ok_def)
  then have c: "tcp_to k st c" using tcp_to_trans [OF ab tcp_to_transition] tcp_to_trans by blast
  obtain r' d where d: "signalCmd k triggerOpen c = (r', d)" by force
  then have "tcp_to k c d" using tcp_to_signalCmd [of k c triggerOpen] by simp
  with c have d': "tcp_to k st d" by (rule tcp_to_trans)
  note ends = tcp_to_trans [OF d' tcp_to_TxHelper0]
    tcp_to_trans [OF tcp_to_trans [OF ab tcp_to_transition] tcp_to_TxHelper0]
    tcp_to_trans [OF tcp_to_signalErr tcp_to_transition]
  show ?thesis
    unfolding seg_synsent_def Let_def a_def [symmetric] acc_def [symmetric] b prod.case
    by (cases r; cases r') (simp_all add: ab ends d' d c_def [symmetric])
qed

lemma segmentArrives_to: "tcp_to k st (snd (segmentArrives resolve iss k seg flag data dataLen foreign st))"
  by (simp add: segmentArrives_def seg_closed_to seg_listen_to seg_synsent_to seg_default_to split: pcb_state.split)

end

section \<open>The calls and the timer\<close>

lemma report_fields [simp]: "tcp_store (report c e st) = tcp_store st" "tcp_pcbs (report c e st) = tcp_pcbs st"
  by (simp_all add: report_def)

context tcp_layer begin

lemma try_send_to:
  assumes "trigger \<noteq> triggerNo" "\<And>s. tcp_store (wait s) = tcp_store s \<and> tcp_pcbs (wait s) = tcp_pcbs s"
  shows "tcp_to k st (snd (try_send n resolve wait k flag data trigger errCh err st))"
proof (induction n arbitrary: err st)
  case (Suc n)
  obtain r st1 where tx: "TxHelperTCP resolve k flag data trigger (Some errCh) st = (r, st1)" by force
  then have 1: "tcp_to k st st1"
    using tcp_to_TxHelper [of trigger "Some errCh" k st flag data] by simp
  have "tcp_to k st1 (wait st1)" using assms(2) by (intro tcp_to_store) auto
  with 1 have 2: "tcp_to k st (wait st1)" by (rule tcp_to_trans)
  show ?case
    using 1 tcp_to_trans [OF 2 Suc.IH] by (cases r) (simp_all add: tx)
qed simp

lemma tcp_to_chan: "tcp_to k st s \<Longrightarrow> tcp_to k st (chan_send c m s)"
  by (rule tcp_to_trans [OF _ tcp_to_chan_send])

lemma tcp_to_report: "tcp_to k st s \<Longrightarrow> tcp_to k st (report c e s)"
  by (simp add: report_def tcp_to_chan)

lemma tcp_to_trans_upd:
  assumes "tcp_to k st s" "\<And>p. pcb_ok p \<Longrightarrow> pcb_ok (f p) \<and> tp_local (f p) = tp_local p"
  shows "tcp_to k st (upd_pcb k f s)"
  using assms by (intro tcp_to_trans [OF assms(1) tcp_to_upd]) auto

lemma tcp_to_trans_transition: "tcp_to k st s \<Longrightarrow> tcp_to k st (tcp_transition k x s)"
  by (rule tcp_to_trans [OF _ tcp_to_transition])

lemma tcp_to_trans_signalErr: "tcp_to k st s \<Longrightarrow> tcp_to k st (signalErr k msg s)"
  by (rule tcp_to_trans [OF _ tcp_to_signalErr])

lemmas tcp_to_intros = tcp_to_chan tcp_to_report tcp_to_trans_upd tcp_to_trans_transition tcp_to_trans_signalErr

lemma tcp_open_active_to:
  assumes "\<And>s. tcp_store (wait s) = tcp_store s \<and> tcp_pcbs (wait s) = tcp_pcbs s"
  shows "tcp_to k st (tcp_open_active resolve wait iss k errCh foreign timeout st)"
proof -
  define s1 where "s1 = upd_pcb k (\<lambda>p. p\<lparr>tp_timeout := timeout, tp_foreign := foreign, tp_iss := iss,
                     snd_una := iss, snd_nxt := iss + 1\<rparr>) st"
  have 1: "tcp_to k st s1" unfolding s1_def by (rule tcp_to_upd) (simp add: pcb_ok_def)
  obtain r s2 where tx: "try_send 3 resolve wait k SYN [] triggerOpen errCh None s1 = (r, s2)" by force
  then have "tcp_to k s1 s2"
    using try_send_to [of triggerOpen wait k s1 3 SYN "[]" errCh None] assms by (simp add: tcp_triggers)
  with 1 have 2: "tcp_to k st s2" by (rule tcp_to_trans)
  show ?thesis
    unfolding tcp_open_active_def Let_def s1_def [symmetric]
    by (cases r) (auto simp: tx intro: tcp_to_intros 2)
qed

lemma tcp_Open_to:
  assumes "\<And>s. tcp_store (wait s) = tcp_store s \<and> tcp_pcbs (wait s) = tcp_pcbs s"
  shows "tcp_to k st (tcp_Open resolve wait iss k errCh foreign isActive timeout st)"
  using tcp_open_active_to [OF assms]
  by (auto simp: tcp_Open_def pcb_ok_def intro!: tcp_to_intros split: pcb_state.split)

lemma tcp_Send_to:
  assumes "\<And>s. tcp_store (wait s) = tcp_store s \<and> tcp_pcbs (wait s) = tcp_pcbs s"
  shows "tcp_to k st (tcp_Send resolve wait k errCh data st)"
proof -
  define s1 where "s1 = (if length data > unat (snd_wnd (pcb_at st k))
                      then chan_send errCh (Some (Err ''insufficient resources'')) st else st)"
  have 1: "tcp_to k st s1" by (simp add: s1_def)
  obtain r s2 where tx: "try_send 3 resolve wait k ACK data triggerSend errCh None s1 = (r, s2)" by force
  then have "tcp_to k s1 s2"
    using try_send_to [of triggerSend wait k s1 3 ACK data errCh None] assms by (simp add: tcp_triggers)
  with 1 have 2: "tcp_to k st s2" by (rule tcp_to_trans)
  show ?thesis
    unfolding tcp_Send_def Let_def s1_def [symmetric]
    by (cases r) (auto simp: tx pcb_ok_def intro!: tcp_to_intros 2)
qed

lemma close_fin_to:
  assumes "\<And>s. tcp_store (wait s) = tcp_store s \<and> tcp_pcbs (wait s) = tcp_pcbs s"
  shows "tcp_to k st (close_fin resolve wait k errCh x st)"
proof -
  obtain r s2 where tx: "try_send 3 resolve wait k (ACK OR FIN) [] triggerClose errCh None st = (r, s2)" by force
  then have "tcp_to k st s2"
    using try_send_to [of triggerClose wait k st 3 "ACK OR FIN" "[]" errCh None] assms
    by (simp add: tcp_triggers)
  then show ?thesis
    unfolding close_fin_def by (cases r) (auto simp: tx pcb_ok_def intro!: tcp_to_intros)
qed

lemma tcp_Close_to:
  assumes "\<And>s. tcp_store (wait s) = tcp_store s \<and> tcp_pcbs (wait s) = tcp_pcbs s"
  shows "tcp_to k st (tcp_Close resolve wait k errCh st)"
  using close_fin_to [OF assms]
  by (auto simp: tcp_Close_def intro!: tcp_to_intros split: pcb_state.split)

lemma receive_request_to: "tcp_to k st (snd (receive_request k errCh buf n st))"
proof -
  have "tcp_to k st (signal_receive k (upd_pcb k (\<lambda>p. p\<lparr>tp_rcvCmd := c\<rparr>) st))" for c
    by (rule tcp_to_trans [OF tcp_to_upd tcp_to_signal_receive]) (simp add: pcb_ok_def)
  then show ?thesis by (simp add: receive_request_def)
qed

lemma tcp_Receive_to: "tcp_to k st (tcp_Receive k errCh buf n st)"
proof -
  obtain r s1 where req: "receive_request k errCh buf n st = (r, s1)" by force
  then have 1: "tcp_to k st s1" using receive_request_to [of k st errCh buf n] by simp
  show ?thesis
    unfolding tcp_Receive_def Let_def
    by (cases r) (auto simp: req pcb_ok_def intro!: tcp_to_intros 1)
qed

lemma tcp_Abort_to: "tcp_to k st (snd (tcp_Abort resolve k st))"
  using tcp_to_trans [OF tcp_to_trans [OF tcp_to_signalErr tcp_to_transition] tcp_to_TxHandler]
  by (auto simp: tcp_Abort_def Let_def intro!: tcp_to_intros)

text \<open>A round of the timer never takes an entry out for its count: the count of the copy reaches 1,
  the limit is 3.\<close>

lemma timer_entries_to:
  assumes "\<forall>e \<in> set es. re_retxCount e = 0"
  shows "fst (snd (timer_entries resolve k i es del st)) = del \<and>
    tcp_to k st (snd (snd (timer_entries resolve k i es del st)))"
  using assms
proof (induction es arbitrary: i st)
  case (Cons e es)
  obtain r s1 where tx: "tcp_TxHandler resolve (tp_local (pcb_at st k)) (tp_foreign (pcb_at st k))
                     (re_data e) (re_seq e) (rcv_nxt (pcb_at st k)) (re_flag e)
                     (snd_wnd (pcb_at st k)) 0 st = (r, s1)" by force
  then have 1: "tcp_to k st s1" by (metis snd_conv tcp_to_TxHandler)
  have IH: "fst (snd (timer_entries resolve k j es del s)) = del \<and>
      tcp_to k s (snd (snd (timer_entries resolve k j es del s)))" for j s
    using Cons by simp
  have "\<not> maxRetxCount \<le> (1 :: u8)" by (simp add: maxRetxCount_def word_le_nat_alt)
  then show ?case
    using Cons.prems IH 1 tcp_to_trans [OF 1] by (simp add: tx)
qed simp

end

section \<open>The invariant\<close>

lemma tcp_ok_to:
  assumes "tcp_ok st" "k < length (tcp_store st)" "tcp_to k st st'"
  shows "tcp_ok st'"
proof -
  have fr: "tcp_frame k st st'" and ok: "pcb_ok (pcb_at st' k)"
    using assms by (auto simp: tcp_to_def tcp_ok_def)
  have loc: "tp_local (pcb_at st' j) = tp_local (pcb_at st j)" for j
    using fr by (cases "j = k") (auto simp: tcp_frame_def)
  have "pcb_ok (pcb_at st' j)" if "j < length (tcp_store st')" for j
    using that fr ok assms(1) by (cases "j = k") (auto simp: tcp_frame_def tcp_ok_def)
  then show ?thesis
    using assms(1) fr loc by (auto simp: tcp_ok_def tcp_frame_def in_set_conv_nth)
qed

context tcp_layer begin

lemma timer_pcb_to: "tcp_to k st (snd (timer_pcb resolve k st))"
proof (cases "k < length (tcp_store st) \<and> pcb_ok (pcb_at st k)")
  case True
  obtain r st1 where q: "queueAck k st = (r, st1)" by force
  then have 1: "tcp_to k st st1" using tcp_to_queueAck [of k st] by simp
  have r: "r = None" using queueAck_eq [of k st] q by auto
  have ok: "\<forall>e \<in> set (tp_retxQueue (pcb_at st1 k)). re_retxCount e = 0"
    using 1 True by (auto simp: tcp_to_def pcb_ok_def entry_ok_def)
  obtain r2 del st2 where e: "timer_entries resolve k 0 (tp_retxQueue (pcb_at st1 k)) [] st1 = (r2, del, st2)"
    by (metis prod.exhaust)
  with timer_entries_to [OF ok, of k 0 "[]" st1] have 2: "del = []" "tcp_to k st1 st2" by auto
  have 3: "tcp_to k st2 (upd_pcb k (\<lambda>p. p\<lparr>tp_retxQueue := tp_retxQueue (pcb_at st2 k)\<rparr>) st2)"
    by (rule tcp_to_upd) simp
  show ?thesis
    using tcp_to_trans [OF 1 2(2)] tcp_to_trans [OF tcp_to_trans [OF 1 2(2)] 3]
    by (cases r2) (simp_all add: timer_pcb_def q r e 2(1) removeRetx_def)
qed (auto simp: tcp_to_def)

text \<open>The deletion behind the loop never fails: what a round returns is what stopped the loop.\<close>

lemma timer_pcb_error:
  assumes "k < length (tcp_store st)" "pcb_ok (pcb_at st k)"
  shows "fst (timer_pcb resolve k st) = None \<or>
    (\<exists>st1 es. queueAck k st = (None, st1) \<and>
       fst (timer_pcb resolve k st) = fst (timer_entries resolve k 0 es [] st1))"
proof -
  obtain r st1 where q: "queueAck k st = (r, st1)" by force
  then have 1: "tcp_to k st st1" using tcp_to_queueAck [of k st] by simp
  have r: "r = None" using queueAck_eq [of k st] q by auto
  have ok: "\<forall>e \<in> set (tp_retxQueue (pcb_at st1 k)). re_retxCount e = 0"
    using 1 assms by (auto simp: tcp_to_def pcb_ok_def entry_ok_def)
  obtain r2 del st2 where e: "timer_entries resolve k 0 (tp_retxQueue (pcb_at st1 k)) [] st1 = (r2, del, st2)"
    by (metis prod.exhaust)
  with timer_entries_to [OF ok, of k 0 "[]" st1] have "del = []" by auto
  then have "timer_pcb resolve k st = (r2, snd (timer_pcb resolve k st)) \<or> fst (timer_pcb resolve k st) = None"
    using q r e by (cases r2) (simp_all add: timer_pcb_def removeRetx_def)
  with q r e show ?thesis by (metis fst_conv)
qed

lemma timer_loop_ok:
  assumes "tcp_ok st" "set ks \<subseteq> set (tcp_pcbs st)"
  shows "tcp_ok (snd (timer_loop resolve ks st))"
  using assms
proof (induction ks arbitrary: st)
  case (Cons k ks)
  obtain r st1 where t: "timer_pcb resolve k st = (r, st1)" by force
  have k: "k < length (tcp_store st)" "pcb_ok (pcb_at st k)"
    using Cons.prems by (auto simp: tcp_ok_def)
  have to: "tcp_to k st st1" using timer_pcb_to [of k st] t by simp
  have "tcp_ok st1" by (rule tcp_ok_to [OF Cons.prems(1) k(1) to])
  moreover have "tcp_pcbs st1 = tcp_pcbs st"
    using to k by (simp add: tcp_to_def tcp_frame_def)
  ultimately show ?case using Cons t by (cases r) simp_all
qed simp

lemma tcpTimer_ok: "tcp_ok st \<Longrightarrow> tcp_ok (snd (tcpTimer resolve st))"
  unfolding tcpTimer_def by (rule timer_loop_ok) simp_all

lemma tcp_RxHandler_ok:
  assumes "tcp_ok st"
  shows "tcp_ok (snd (tcp_RxHandler resolve iss sl src dst i st))"
proof -
  have "tcp_ok (snd (segmentArrives resolve iss k seg flag data dataLen foreign st))"
    if "find P (tcp_pcbs st) = Some k" for P k seg flag data dataLen foreign
  proof (rule tcp_ok_to [OF assms _ segmentArrives_to])
    from find_Some_iff_mem [OF that] assms show "k < length (tcp_store st)" by (simp add: tcp_ok_def)
  qed
  with assms show ?thesis
    by (simp add: tcp_RxHandler_def Let_def split: sum.split prod.split option.split)
qed

end

section \<open>Properties\<close>

text \<open>C8. The table of connections stays well formed under every step: the receive handler on any
  bytes, every call of the user, a round of the timer, the making and the deletion of connections.
  Local endpoints stay distinct, no two connections share a pointer, buffers keep their size and no
  entry loses the channel of its call; so no signal waits on a \<open>nil\<close> channel.\<close>

theorem tcp_ok_operations:
  assumes "tcp_ok st" "k < length (tcp_store st)"
    and "\<And>s. tcp_store (wait s) = tcp_store s \<and> tcp_pcbs (wait s) = tcp_pcbs s"
  shows "tcp_ok (snd (tcp_RxHandler arp_Resolve iss sl src dst i st)) \<and>
    tcp_ok (tcp_Open arp_Resolve wait iss k errCh foreign isActive timeout st) \<and>
    tcp_ok (tcp_Send arp_Resolve wait k errCh data st) \<and>
    tcp_ok (tcp_Receive k errCh buf n st) \<and>
    tcp_ok (tcp_Close arp_Resolve wait k errCh st) \<and>
    tcp_ok (snd (tcp_Abort arp_Resolve k st)) \<and>
    tcp_ok (snd (Newpcb foreign st)) \<and> tcp_ok (snd (Deletepcb k st)) \<and>
    tcp_ok (snd (tcpTimer arp_Resolve st)) \<and>
    fst (signalCmd k trigger st) = None"
proof (intro conjI)
  note to = tcp_ok_to [OF assms(1,2)]
  show "tcp_ok (snd (tcp_RxHandler arp_Resolve iss sl src dst i st))"
    by (rule arp_tcp.tcp_RxHandler_ok [OF assms(1)])
  show "tcp_ok (tcp_Open arp_Resolve wait iss k errCh foreign isActive timeout st)"
    by (rule to [OF arp_tcp.tcp_Open_to [OF assms(3)]])
  show "tcp_ok (tcp_Send arp_Resolve wait k errCh data st)"
    by (rule to [OF arp_tcp.tcp_Send_to [OF assms(3)]])
  show "tcp_ok (tcp_Receive k errCh buf n st)"
    by (rule to [OF arp_tcp.tcp_Receive_to])
  show "tcp_ok (tcp_Close arp_Resolve wait k errCh st)"
    by (rule to [OF arp_tcp.tcp_Close_to [OF assms(3)]])
  show "tcp_ok (snd (tcp_Abort arp_Resolve k st))"
    by (rule to [OF arp_tcp.tcp_Abort_to])
  show "tcp_ok (snd (Newpcb foreign st))" "tcp_ok (snd (Deletepcb k st))"
    using Newpcb_tcp_ok Deletepcb_tcp_ok assms(1) by blast+
  show "tcp_ok (snd (tcpTimer arp_Resolve st))" by (rule arp_tcp.tcpTimer_ok [OF assms(1)])
  have "pcb_ok (pcb_at st k)" using assms(1,2) by (simp add: tcp_ok_def)
  then show "fst (signalCmd k trigger st) = None"
    using signalCmd_eq [of st k trigger] by (auto simp: pcb_ok_def signalCmd_def [of k trigger])
qed

definition tcp_demo :: tcp_state where
  "tcp_demo = \<lparr>devices = [Null \<lparr>null_name = ''null0'', null_flags = 1\<rparr>], interfaces = [],
     ifaces = [\<lparr>if_dev = Some 0, if_unicast = 7, if_netmask = 0, if_broadcast = 7\<rparr>], protos = [],
     protoBuffers = [], now = 0,
     routes = [\<lparr>rt_network = 0, rt_netmask = 0, rt_nexthop = 0, rt_Iface = 0\<rparr>], ip_id = 0, ip_protos = [],
     caches = [], udp_store = [], udp_pcbs = [],
     tcp_store = [pcb_zero\<lparr>tp_local := \<lparr>ep_addr = 7, ep_port = 80\<rparr>\<rparr>], tcp_pcbs = [0],
     tcp_srtt = 10000000000, tcp_rto = 10000000000, tcp_log = [], tcp_bufs = [], tcp_ints = []\<rparr>"

lemma tcp_demo_ok: "tcp_ok tcp_demo"
  by (simp add: tcp_ok_def tcp_demo_def pcb_ok_def pcb_zero_def)

theorem tcp_ok_operations_witness:
  "tcp_ok (tcp_Open arp_Resolve id 5 0 9 \<lparr>ep_addr = 8, ep_port = 80\<rparr> True 100 tcp_demo) \<and>
   fst (signalCmd 0 triggerClose tcp_demo) = None"
proof -
  have "0 < length (tcp_store tcp_demo)" by (simp add: tcp_demo_def)
  from tcp_ok_operations [OF tcp_demo_ok this, of id] show ?thesis by simp
qed

end
