(* ===== verification/TcpBelow.thy ===== *)
theory TcpBelow
  imports TcpInvariant
begin

text \<open>
  What the operations of TCP keep of the layers below them. A condition \<open>P\<close> on the state that says
  nothing of TCP's own variables and that \<open>ip.TxHandler\<close> keeps is kept by every operation of TCP, and
  when \<open>ip.TxHandler\<close> never panics under \<open>P\<close>, no operation of TCP does, but for the slice of a
  segment's options. The whole stack's invariant is one such condition.
\<close>

text \<open>The outcome of a step that ends in good order: no panic, and \<open>P\<close> of the state.\<close>

definition sound :: "('s \<Rightarrow> bool) \<Rightarrow> error option \<times> 's \<Rightarrow> bool" where
  "sound P r \<longleftrightarrow> fst r \<noteq> Some Panic \<and> P (snd r)"

lemma sound_pair [simp]: "sound P (e, st) \<longleftrightarrow> e \<noteq> Some Panic \<and> P st"
  by (simp add: sound_def)

lemma sound_case:
  assumes "sound P r" "\<And>e s. e \<noteq> Panic \<Longrightarrow> P s \<Longrightarrow> sound P (f e s)" "\<And>s. P s \<Longrightarrow> sound P (g s)"
  shows "sound P (case r of (None, s) \<Rightarrow> g s | (Some e, s) \<Rightarrow> f e s)"
  using assms by (auto simp: sound_def split: prod.split option.split)

lemma sound_flow_then:
  assumes "sound P (flow_end f)" "\<And>s. P s \<Longrightarrow> sound P (flow_end (g s))"
  shows "sound P (flow_end (flow_then f g))"
  using assms by (cases f) simp_all

lemma sound_flow_return [simp]: "flow_end (flow_return r) = r"
  by (cases r) simp

lemma sound_flow_case:
  assumes "sound P r" "\<And>e s. e \<noteq> Panic \<Longrightarrow> P s \<Longrightarrow> sound P (flow_end (f e s))"
    and "\<And>s. P s \<Longrightarrow> sound P (flow_end (g s))"
  shows "sound P (flow_end (case r of (None, s) \<Rightarrow> g s | (Some e, s) \<Rightarrow> f e s))"
  using assms by (auto simp: sound_def split: prod.split option.split)

text \<open>The signals of TCP never panic, whatever the queue holds.\<close>

lemma signal_loop_indices:
  "signal_loop i es trigger del st = (None, del', st') \<Longrightarrow>
     del' = del @ map (\<lambda>j. i + j) [j\<leftarrow>[0..<length es]. re_trigger (es ! j) = trigger]"
proof (induction es arbitrary: i del st)
  case (Cons e es)
  note up = shifted_indices [where P = "\<lambda>e. re_trigger e = trigger" and i = i and e = e and es = es]
  show ?case
  proof (cases "re_trigger e = trigger")
    case True
    with Cons.prems obtain c where
      "signal_loop (Suc i) es trigger (del @ [i]) (chan_send c None st) = (None, del', st')"
      by (auto split: option.splits)
    from Cons.IH [OF this] True show ?thesis unfolding up by simp
  next
    case False
    with Cons.prems have "signal_loop (Suc i) es trigger del st = (None, del', st')" by simp
    from Cons.IH [OF this] False show ?thesis unfolding up by simp
  qed
qed simp

lemma signal_loop_error: "signal_loop i es trigger del st = (Some e, del', st') \<Longrightarrow> e = Blocked"
  by (induction es arbitrary: i del st) (auto split: if_splits option.splits)

lemma signal_loop_log: "\<exists>l. snd (snd (signal_loop i es trigger del st)) = st\<lparr>tcp_log := l\<rparr>"
proof (induction es arbitrary: i del st)
  case Nil
  show ?case by (rule exI [of _ "tcp_log st"]) simp
next
  case (Cons e es)
  have c: "chan_send c None st = st\<lparr>tcp_log := tcp_log st @ [(c, None)]\<rparr>" for c
    by (simp add: chan_send_def)
  obtain l where l: "snd (snd (signal_loop (i + 1) es trigger del st)) = st\<lparr>tcp_log := l\<rparr>"
    using Cons.IH by blast
  obtain l' where l': "snd (snd (signal_loop (i + 1) es trigger (del @ [i])
      (chan_send (the (re_errCh e)) None st))) = (chan_send (the (re_errCh e)) None st)\<lparr>tcp_log := l'\<rparr>"
    using Cons.IH by blast
  show ?case
  proof (cases "re_trigger e = trigger \<and> re_errCh e = None")
    case True
    then show ?thesis by (intro exI [of _ "tcp_log st"]) simp
  next
    case False
    then show ?thesis
      using l l' by (intro exI [of _ "if re_trigger e = trigger then l' else l"]) (auto simp: c)
  qed
qed

locale below_tcp = tcp_layer resolve for resolve :: "'a tcp_state_scheme resolve_fn" +
  fixes P :: "'a tcp_state_scheme \<Rightarrow> bool"
  assumes P_store: "P (st\<lparr>tcp_store := ps\<rparr>) = P st"
    and P_pcbs: "P (st\<lparr>tcp_pcbs := ks\<rparr>) = P st"
    and P_rto: "P (st\<lparr>tcp_srtt := s, tcp_rto := r\<rparr>) = P st"
    and P_log: "P (st\<lparr>tcp_log := l\<rparr>) = P st"
    and P_memory: "P (st\<lparr>tcp_bufs := bs, tcp_ints := ns\<rparr>) = P st"
    and tx_sound: "P st \<Longrightarrow> sound P (ip_TxHandler resolve proto data src dst st)"
begin

lemmas P_fields [simp] = P_store P_pcbs P_rto P_log P_memory

lemma P_elementary [simp]:
  "P (upd_pcb k f st) = P st" "P (tcp_transition k s st) = P st" "P (chan_send c m st) = P st"
  "P (send_opt ch m st) = P st" "P (calculateRTO rtt st) = P st" "P (queueAdd k seq flag data trigger errCh st) = P st"
  by (simp_all add: upd_pcb_def tcp_transition_def chan_send_def send_opt_log calculateRTO_def Let_def queueAdd_def)

lemma P_signalErr [simp]: "P (signalErr k msg st) = P st"
  by (simp add: signalErr_def queueFlush_def queueFlush_loop_eq Let_def)

lemma P_signal_receive [simp]: "P (signal_receive k st) = P st"
proof -
  have "P (chan_send c m (st\<lparr>tcp_bufs := bs, tcp_ints := ns\<rparr>)) = P st" for c m bs ns
    by simp
  then show ?thesis by (simp add: signal_receive_def Let_def split: option.split)
qed

lemma queueAck_sound [intro!]: "P st \<Longrightarrow> sound P (queueAck k st)"
  using queueAck_eq [of k st] by auto

lemma signalCmd_sound [intro!]:
  assumes "P st"
  shows "sound P (signalCmd k trigger st)"
proof (cases "trigger = triggerOpen \<or> trigger = triggerClose")
  case True
  obtain r del st1 where loop: "signal_loop 0 (tp_retxQueue (pcb_at st k)) trigger [] st = (r, del, st1)"
    by (metis prod_cases3)
  then obtain l where st1: "st1 = st\<lparr>tcp_log := l\<rparr>"
    using signal_loop_log [of 0 "tp_retxQueue (pcb_at st k)" trigger "[]" st] by auto
  show ?thesis
  proof (cases r)
    case None
    then have "del = [j\<leftarrow>[0..<length (tp_retxQueue (pcb_at st k))]. re_trigger (tp_retxQueue (pcb_at st k) ! j) = trigger]"
      using signal_loop_indices loop by fastforce
    then show ?thesis
      using True None loop st1 assms
      by (simp add: signalCmd_def removeRetx_filter [where P = "\<lambda>e. re_trigger e = trigger"])
  next
    case (Some e)
    have "e = Blocked" using signal_loop_error [OF loop [unfolded Some]] .
    with Some show ?thesis using True loop st1 assms by (auto simp: signalCmd_def)
  qed
qed (use assms in \<open>simp add: signalCmd_def\<close>)

lemma tcp_tx_sound [intro!]: "P st \<Longrightarrow> sound P (tcp_TxHandler resolve src dst data seq ack flag wnd up st)"
  by (auto simp: tcp_TxHandler_def Let_def tx_sound split: prod.split)

lemma TxHelper_sound [intro!]: "P st \<Longrightarrow> sound P (TxHelperTCP resolve k flag data trigger errCh st)"
  unfolding TxHelperTCP_def Let_def by (rule sound_case [OF tcp_tx_sound]) auto

section \<open>Segments\<close>

lemma seg_closed_sound: "P st \<Longrightarrow> sound P (seg_closed resolve k seg flag st)"
  by (auto simp: seg_closed_def)

lemma seg_listen_sound: "P st \<Longrightarrow> sound P (seg_listen resolve iss k seg flag data dataLen foreign st)"
  by (auto simp: seg_listen_def Let_def)

lemma seg_synsent_sound: "P st \<Longrightarrow> sound P (seg_synsent resolve k seg flag st)"
  unfolding seg_synsent_def Let_def
  by (auto intro!: sound_case queueAck_sound signalCmd_sound)

lemma ack_advance_sound: "P st \<Longrightarrow> sound P (flow_end (ack_advance resolve k seg st))"
  unfolding ack_advance_def Let_def
  by (auto intro!: sound_flow_case queueAck_sound)

lemma ack_by_state_sound: "P st \<Longrightarrow> sound P (flow_end (ack_by_state k seg st))"
  unfolding ack_by_state_def Let_def
  by (auto intro!: sound_flow_case signalCmd_sound split: pcb_state.split)

lemma seg_check_seq_sound: "P st \<Longrightarrow> sound P (flow_end (seg_check_seq resolve k seg flag st))"
  by (auto simp: seg_check_seq_def)

lemma seg_check_rst_sound: "P st \<Longrightarrow> sound P (flow_end (seg_check_rst k flag st))"
  by (auto simp: seg_check_rst_def Let_def)

lemma seg_check_syn_sound: "P st \<Longrightarrow> sound P (flow_end (seg_check_syn resolve k flag st))"
  by (auto simp: seg_check_syn_def)

lemma seg_check_ack_sound: "P st \<Longrightarrow> sound P (flow_end (seg_check_ack resolve k seg flag st))"
  unfolding seg_check_ack_def Let_def
  by (auto intro!: sound_flow_then ack_advance_sound ack_by_state_sound split: pcb_state.split)

lemma seg_check_urg_sound: "P st \<Longrightarrow> sound P (flow_end (seg_check_urg k seg flag st))"
  by (simp add: seg_check_urg_def)

lemma seg_text_sound: "P st \<Longrightarrow> sound P (flow_end (seg_text resolve k seg data dataLen st))"
  unfolding seg_text_def Let_def
  by (auto intro!: sound_flow_case signalCmd_sound)

lemma seg_fin_sound: "P st \<Longrightarrow> sound P (flow_end (seg_fin resolve k seg flag st))"
  unfolding seg_fin_def Let_def
  by (auto intro!: sound_flow_case signalCmd_sound split: pcb_state.split)

lemma segmentArrives_sound: "P st \<Longrightarrow> sound P (segmentArrives resolve iss k seg flag data dataLen foreign st)"
  unfolding segmentArrives_def seg_default_def
  by (auto intro!: seg_closed_sound seg_listen_sound seg_synsent_sound sound_flow_then seg_check_seq_sound
      seg_check_rst_sound seg_check_syn_sound seg_check_ack_sound seg_check_urg_sound seg_text_sound
      seg_fin_sound split: pcb_state.split)

text \<open>The receive handler panics only where it cuts off the options of a segment.\<close>

lemma RxHandler_sound:
  assumes "P st"
  shows "P (snd (tcp_RxHandler resolve iss sl src dst i st))"
    and "fst (tcp_RxHandler resolve iss sl src dst i st) = Some Panic \<Longrightarrow>
      \<exists>hdr payload. tcp_data2header (slice_bytes st sl) src dst = Inr (hdr, payload) \<and>
        length payload < unat (push_bit 2 (drop_bit 4 (th_offset hdr)) - of_nat TcpHeaderSizeMin :: u8)"
proof -
  have "tcp_data2header (slice_bytes st sl) src dst \<noteq> Inl Panic"
    by (simp add: tcp_data2header_def Let_def)
  then show "P (snd (tcp_RxHandler resolve iss sl src dst i st))"
    and "fst (tcp_RxHandler resolve iss sl src dst i st) = Some Panic \<Longrightarrow>
      \<exists>hdr payload. tcp_data2header (slice_bytes st sl) src dst = Inr (hdr, payload) \<and>
        length payload < unat (push_bit 2 (drop_bit 4 (th_offset hdr)) - of_nat TcpHeaderSizeMin :: u8)"
    using assms segmentArrives_sound
    by (auto simp: tcp_RxHandler_def Let_def sound_def split: sum.splits option.splits if_splits)
qed

section \<open>Calls of the user\<close>

lemma try_send_sound:
  "P st \<Longrightarrow> (\<And>s. P s \<Longrightarrow> P (wait s)) \<Longrightarrow> err \<noteq> Some Panic \<Longrightarrow>
     sound P (try_send n resolve wait k flag data trigger errCh err st)"
proof (induction n arbitrary: err st)
  case (Suc n)
  show ?case
    unfolding try_send.simps
    by (rule sound_case) (use Suc in \<open>auto\<close>)
qed simp

lemma report_P [simp]: "P (report c e st) = P st"
  by (simp add: report_def)

lemma P_after_tries:
  assumes "P st" "\<And>s. P s \<Longrightarrow> P (wait s)" "\<And>s. P s \<Longrightarrow> P (g s)" "\<And>e s. P s \<Longrightarrow> P (f e s)"
  shows "P (case try_send n resolve wait k flag data trigger errCh None st of
    (None, s) \<Rightarrow> g s | (Some e, s) \<Rightarrow> f e s)"
  using try_send_sound [of st wait None n k flag data trigger errCh] assms
  by (auto simp: sound_def split: prod.split option.split)

lemma tcp_open_active_P:
  assumes "P st" "\<And>s. P s \<Longrightarrow> P (wait s)"
  shows "P (tcp_open_active resolve wait iss k errCh foreign timeout st)"
proof -
  have "P (case try_send 3 resolve wait k SYN [] triggerOpen errCh None s of
      (None, st2) \<Rightarrow> tcp_transition k StSYNSent st2 | (Some e, st2) \<Rightarrow> report errCh e st2)"
    if "P s" for s
    by (rule P_after_tries) (use that assms in simp_all)
  then show ?thesis using assms(1) by (simp add: tcp_open_active_def Let_def)
qed

lemma tcp_Open_P:
  assumes "P st" "\<And>s. P s \<Longrightarrow> P (wait s)"
  shows "P (tcp_Open resolve wait iss k errCh foreign isActive timeout st)"
  using tcp_open_active_P [OF assms] assms(1) by (simp add: tcp_Open_def split: pcb_state.split)

lemma tcp_Send_P:
  assumes "P st" "\<And>s. P s \<Longrightarrow> P (wait s)"
  shows "P (tcp_Send resolve wait k errCh data st)"
proof -
  have "P (case try_send 3 resolve wait k ACK data triggerSend errCh None s of
      (None, st2) \<Rightarrow> upd_pcb k (\<lambda>p. p\<lparr>snd_nxt := snd_nxt p + of_nat (length data)\<rparr>) st2
    | (Some e, st2) \<Rightarrow> report errCh e st2)" if "P s" for s
    by (rule P_after_tries) (use that assms in simp_all)
  then show ?thesis using assms(1) by (simp add: tcp_Send_def Let_def)
qed

lemma tcp_Receive_P: "P st \<Longrightarrow> P (tcp_Receive k errCh buf n st)"
  using signalCmd_sound
  by (auto simp: tcp_Receive_def receive_request_def Let_def sound_def split: prod.split bool.split)

lemma tcp_Close_P:
  assumes "P st" "\<And>s. P s \<Longrightarrow> P (wait s)"
  shows "P (tcp_Close resolve wait k errCh st)"
proof -
  have "P (close_fin resolve wait k errCh s st)" for s
    unfolding close_fin_def by (rule P_after_tries) (use assms in simp_all)
  then show ?thesis using assms(1) by (simp add: tcp_Close_def split: pcb_state.split)
qed

lemma tcp_Abort_sound: "P st \<Longrightarrow> sound P (tcp_Abort resolve k st)"
  by (auto simp: tcp_Abort_def Let_def)

lemma Newpcb_P: "P st \<Longrightarrow> P (snd (Newpcb e st))"
proof -
  assume "P st"
  moreover have "P (st\<lparr>tcp_store := ps, tcp_pcbs := ks\<rparr>) = P st" for ps ks by simp
  ultimately show ?thesis by (simp add: Newpcb_def del: P_fields)
qed

lemma Deletepcb_P: "P st \<Longrightarrow> P (snd (Deletepcb k st))"
  by (simp add: Deletepcb_def split: option.split)

section \<open>The timer\<close>

lemma timer_entries_sound:
  "P st \<Longrightarrow> fst (timer_entries resolve k i es del st) \<noteq> Some Panic \<and>
     P (snd (snd (timer_entries resolve k i es del st)))"
proof (induction es arbitrary: i del st)
  case (Cons e es)
  obtain r s1 where tx: "tcp_TxHandler resolve (tp_local (pcb_at st k)) (tp_foreign (pcb_at st k))
                     (re_data e) (re_seq e) (rcv_nxt (pcb_at st k)) (re_flag e)
                     (snd_wnd (pcb_at st k)) 0 st = (r, s1)" by force
  then have "r \<noteq> Some Panic \<and> P s1" using tcp_tx_sound [OF Cons.prems] by (metis sound_pair)
  with Cons show ?case by (simp add: Let_def tx)
qed simp

lemma timer_pcb_P:
  assumes "P st"
  shows "P (snd (timer_pcb resolve k st))"
proof -
  obtain r st1 where a: "queueAck k st = (r, st1)" by force
  then have 1: "P st1" using queueAck_sound [OF assms, of k] by simp
  obtain r2 del st2 where t: "timer_entries resolve k 0 (tp_retxQueue (pcb_at st1 k)) [] st1 = (r2, del, st2)"
    by (metis prod.exhaust)
  then have "P st2" using timer_entries_sound [OF 1, of k 0 "tp_retxQueue (pcb_at st1 k)" "[]"] by simp
  with 1 assms show ?thesis by (simp add: timer_pcb_def a t split: option.split sum.split)
qed

lemma timer_pcb_no_panic:
  assumes "P st" "k < length (tcp_store st)" "pcb_ok (pcb_at st k)"
  shows "fst (timer_pcb resolve k st) \<noteq> Some Panic"
  using timer_pcb_error [OF assms(2,3)]
proof (elim disjE exE conjE)
  fix st1 es
  assume "queueAck k st = (None, st1)"
    and e: "fst (timer_pcb resolve k st) = fst (timer_entries resolve k 0 es [] st1)"
  with queueAck_sound [OF assms(1), of k] have "P st1" by simp
  with e timer_entries_sound show ?thesis by simp
qed simp

lemma timer_loop_P: "P st \<Longrightarrow> P (snd (timer_loop resolve ks st))"
proof (induction ks arbitrary: st)
  case (Cons k ks)
  obtain r st1 where t: "timer_pcb resolve k st = (r, st1)" by force
  then have "P st1" using timer_pcb_P [OF Cons.prems, of k] by simp
  with Cons.IH t show ?case by (simp split: option.split)
qed simp

lemma timer_loop_no_panic:
  assumes "P st" "tcp_ok st" "set ks \<subseteq> set (tcp_pcbs st)"
  shows "fst (timer_loop resolve ks st) \<noteq> Some Panic"
  using assms
proof (induction ks arbitrary: st)
  case (Cons k ks)
  obtain r st1 where t: "timer_pcb resolve k st = (r, st1)" by force
  have k: "k < length (tcp_store st)" "pcb_ok (pcb_at st k)" using Cons.prems by (auto simp: tcp_ok_def)
  have to: "tcp_to k st st1" using timer_pcb_to [of k st] t by simp
  have "tcp_ok st1" by (rule tcp_ok_to [OF Cons.prems(2) k(1) to])
  moreover have "tcp_pcbs st1 = tcp_pcbs st" using to k by (simp add: tcp_to_def tcp_frame_def)
  moreover have "P st1" using timer_pcb_P [OF Cons.prems(1), of k] t by simp
  moreover have "r \<noteq> Some Panic" using timer_pcb_no_panic [OF Cons.prems(1) k] t by simp
  ultimately show ?case using Cons.prems(3) Cons.IH [of st1] t by (cases r) simp_all
qed simp

lemma tcpTimer_P: "P st \<Longrightarrow> P (snd (tcpTimer resolve st))"
  by (simp add: tcpTimer_def timer_loop_P)

lemma tcpTimer_no_panic: "P st \<Longrightarrow> tcp_ok st \<Longrightarrow> fst (tcpTimer resolve st) \<noteq> Some Panic"
  by (simp add: tcpTimer_def timer_loop_no_panic)

end

end
