(* ===== verification/TcpStates.thy ===== *)
theory TcpStates
  imports TcpInvariant
begin

text \<open>
  TCP's state machine: the arrows of the diagram a segment may cause, and what a connection that was
  opened actively can never do.
\<close>

section \<open>What the queues and signals leave alone\<close>

text \<open>The control block without its queue and its pending request. Sending, acknowledging, and
  signalling touch nothing else.\<close>

definition tcp_core :: "tcp_pcb \<Rightarrow> tcp_pcb" where
  "tcp_core p = p\<lparr>tp_retxQueue := [], tp_rcvCmd := rcv_cmd_zero\<rparr>"

lemma tcp_core_fields:
  assumes "tcp_core p = tcp_core q"
  shows "tp_state p = tp_state q" "tp_local p = tp_local q" "tp_foreign p = tp_foreign q"
    "snd_una p = snd_una q" "snd_nxt p = snd_nxt q" "snd_wnd p = snd_wnd q" "snd_wl1 p = snd_wl1 q"
    "snd_wl2 p = snd_wl2 q" "tp_iss p = tp_iss q" "rcv_nxt p = rcv_nxt q" "rcv_wnd p = rcv_wnd q"
    "rcv_up p = rcv_up q" "tp_irs p = tp_irs q" "tp_rxQueue p = tp_rxQueue q" "tp_rxLen p = tp_rxLen q"
    "tp_timeout p = tp_timeout q" "tp_lastTxTime p = tp_lastTxTime q"
  using assms by (cases p; cases q; simp add: tcp_core_def)+

lemma queueAck_core:
  assumes "k < length (tcp_store st)"
  shows "tcp_core (pcb_at (snd (queueAck k st)) k) = tcp_core (pcb_at st k)"
    and "length (tcp_store (snd (queueAck k st))) = length (tcp_store st)"
    and "fst (queueAck k st) = None"
    and "tp_rcvCmd (pcb_at (snd (queueAck k st)) k) = tp_rcvCmd (pcb_at st k)"
    and "tp_retxQueue (pcb_at (snd (queueAck k st)) k) =
      filter (\<lambda>e. \<not> re_seq e < snd_una (pcb_at st k)) (tp_retxQueue (pcb_at st k))"
  using queueAck_eq [of k st] assms by (auto simp: tcp_core_def)

lemma signalErr_core:
  assumes "k < length (tcp_store st)"
  shows "tcp_core (pcb_at (signalErr k msg st) k) = tcp_core (pcb_at st k)"
    and "length (tcp_store (signalErr k msg st)) = length (tcp_store st)"
  using assms by (simp_all add: signalErr_eq tcp_core_def)

lemma signal_loop_store: "tcp_store (snd (snd (signal_loop i es trigger del st))) = tcp_store st"
  by (induction es arbitrary: i del st) (auto split: option.split)

lemma signalCmd_core:
  assumes "k < length (tcp_store st)" "trigger = triggerOpen \<or> trigger = triggerClose"
  shows "tcp_core (pcb_at (snd (signalCmd k trigger st)) k) = tcp_core (pcb_at st k)"
    and "length (tcp_store (snd (signalCmd k trigger st))) = length (tcp_store st)"
proof -
  obtain r del st1 where l: "signal_loop 0 (tp_retxQueue (pcb_at st k)) trigger [] st = (r, del, st1)"
    by (metis prod_cases3)
  then have s: "tcp_store st1 = tcp_store st"
    using signal_loop_store [of 0 "tp_retxQueue (pcb_at st k)" trigger "[]" st] by simp
  show "tcp_core (pcb_at (snd (signalCmd k trigger st)) k) = tcp_core (pcb_at st k)"
    and "length (tcp_store (snd (signalCmd k trigger st))) = length (tcp_store st)"
    using assms s l by (auto simp: signalCmd_def tcp_core_def split: option.split sum.split)
qed

lemma signal_receive_empty [simp]: "tp_rxLen (pcb_at st k) = 0 \<Longrightarrow> signal_receive k st = st"
  by (simp add: signal_receive_def Let_def split: option.split)

lemmas queueAck_fields [simp] = tcp_core_fields [OF queueAck_core(1)] queueAck_core(2,3)
lemmas signalErr_fields [simp] = tcp_core_fields [OF signalErr_core(1)] signalErr_core(2)
lemmas signalCmd_fields [simp] = tcp_core_fields [OF signalCmd_core(1)] signalCmd_core(2)

context tcp_layer begin

lemma TxHelper_core:
  assumes "k < length (tcp_store st)"
  shows "tcp_core (pcb_at (snd (TxHelperTCP resolve k flag data trigger errCh st)) k) = tcp_core (pcb_at st k)"
  using assms by (simp add: TxHelper_pcb tcp_core_def)

lemmas TxHelper_core_fields [simp] = tcp_core_fields [OF TxHelper_core]

end

section \<open>States\<close>

text \<open>The arrows of RFC 793's diagram that a segment may cause, with the flags it must carry.\<close>

inductive seg_edge :: "u8 \<Rightarrow> pcb_state \<Rightarrow> pcb_state \<Rightarrow> bool" for flag where
  listen_syn: "isSet flag SYN \<Longrightarrow> \<not> isSet flag ACK \<Longrightarrow> \<not> isSet flag RST \<Longrightarrow>
    seg_edge flag StListen StSYNReceived"
| synsent_syn: "isSet flag SYN \<Longrightarrow> \<not> isSet flag RST \<Longrightarrow> seg_edge flag StSYNSent StSYNReceived"
| synsent_synack: "isSet flag SYN \<Longrightarrow> \<not> isSet flag RST \<Longrightarrow> seg_edge flag StSYNSent StEstablished"
| synsent_refused: "isSet flag RST \<Longrightarrow> isSet flag ACK \<Longrightarrow> seg_edge flag StSYNSent StClosed"
| reset: "isSet flag RST \<or> isSet flag SYN \<Longrightarrow> s \<notin> {StClosed, StListen, StSYNSent} \<Longrightarrow> seg_edge flag s StClosed"
| acked_syn: "isSet flag ACK \<Longrightarrow> seg_edge flag StSYNReceived StEstablished"
| acked_fin1: "isSet flag ACK \<Longrightarrow> seg_edge flag StFINWait1 StFINWait2"
| acked_closing: "isSet flag ACK \<Longrightarrow> seg_edge flag StClosing StTimeWait"
| acked_last: "isSet flag ACK \<Longrightarrow> seg_edge flag StLastACK StClosed"
| fin_established: "isSet flag FIN \<Longrightarrow> isSet flag ACK \<Longrightarrow> seg_edge flag StEstablished StCloseWait"
| fin_fin1: "isSet flag FIN \<Longrightarrow> isSet flag ACK \<Longrightarrow> seg_edge flag StFINWait1 StClosing"
| fin_fin1_acked: "isSet flag FIN \<Longrightarrow> isSet flag ACK \<Longrightarrow> seg_edge flag StFINWait1 StTimeWait"
| fin_fin2: "isSet flag FIN \<Longrightarrow> isSet flag ACK \<Longrightarrow> seg_edge flag StFINWait2 StTimeWait"

inductive_cases seg_edge_Closed: "seg_edge flag StClosed s"
inductive_simps seg_edge_from:
  "seg_edge flag StClosed s" "seg_edge flag StListen s" "seg_edge flag StSYNSent s"
  "seg_edge flag StSYNReceived s" "seg_edge flag StEstablished s" "seg_edge flag StFINWait1 s"
  "seg_edge flag StFINWait2 s" "seg_edge flag StCloseWait s" "seg_edge flag StClosing s"
  "seg_edge flag StLastACK s" "seg_edge flag StTimeWait s"

text \<open>At most one arrow, and at most two.\<close>

definition seg_edge1 :: "u8 \<Rightarrow> pcb_state \<Rightarrow> pcb_state \<Rightarrow> bool" where
  "seg_edge1 flag s s' \<longleftrightarrow> s' = s \<or> seg_edge flag s s'"

definition seg_edge2 :: "u8 \<Rightarrow> pcb_state \<Rightarrow> pcb_state \<Rightarrow> bool" where
  "seg_edge2 flag s s' \<longleftrightarrow> (\<exists>m. seg_edge1 flag s m \<and> seg_edge1 flag m s')"

abbreviation state_of :: "nat \<Rightarrow> 'a tcp_state_scheme \<Rightarrow> pcb_state" where
  "state_of k st \<equiv> tp_state (pcb_at st k)"

definition sync_states :: "pcb_state set" where
  "sync_states = {StSYNReceived, StEstablished, StFINWait1, StFINWait2, StCloseWait, StClosing, StLastACK, StTimeWait}"

lemma sync_states_iff: "s \<in> sync_states \<longleftrightarrow> s \<notin> {StClosed, StListen, StSYNSent}"
  by (cases s) (simp_all add: sync_states_def)

lemma flow_then_urg: "\<not> isSet flag RST \<Longrightarrow> flow_then fl (seg_check_urg k seg flag) = fl"
  by (cases fl) (simp_all add: seg_check_urg_def)

definition rcv_same :: "tcp_pcb \<Rightarrow> tcp_pcb \<Rightarrow> bool" where
  "rcv_same p q \<longleftrightarrow> rcv_nxt q = rcv_nxt p \<and> rcv_wnd q = rcv_wnd p \<and> tp_rxLen q = tp_rxLen p \<and>
     tp_rxQueue q = tp_rxQueue p \<and> tp_rcvCmd q = tp_rcvCmd p"

context tcp_layer begin

lemma seg_closed_state: "state_of k (snd (seg_closed resolve k seg flag st)) = state_of k st"
  by (simp add: seg_closed_def)

lemma seg_listen_state:
  assumes "k < length (tcp_store st)" "state_of k st = StListen"
  shows "seg_edge1 flag StListen (state_of k (snd (seg_listen resolve iss k seg flag data dataLen foreign st)))"
  using assms by (simp add: seg_listen_def Let_def seg_edge1_def seg_edge_from)

lemma seg_synsent_state:
  assumes k: "k < length (tcp_store st)" and "state_of k st = StSYNSent"
  shows "seg_edge1 flag StSYNSent (state_of k (snd (seg_synsent resolve k seg flag st)))"
proof -
  define a where "a = upd_pcb k (\<lambda>p. p\<lparr>rcv_nxt := sg_seq seg + 1, tp_irs := sg_seq seg\<rparr>) st"
  define acc where "acc = (isSet flag ACK \<and> snd_una (pcb_at st k) \<le> sg_ack seg \<and> sg_ack seg \<le> snd_nxt (pcb_at st k))"
  obtain r b where b: "(if acc then queueAck k (upd_pcb k (\<lambda>p. p\<lparr>snd_una := sg_ack seg\<rparr>) a) else (None, a)) = (r, b)"
    by force
  then have b': "b = snd (if acc then queueAck k (upd_pcb k (\<lambda>p. p\<lparr>snd_una := sg_ack seg\<rparr>) a) else (None, a))"
    and r: "r = None"
    using k by (auto simp: a_def split: if_splits dest: arg_cong [where f = fst])
  have len: "length (tcp_store b) = length (tcp_store st)"
    unfolding b' a_def using k by simp
  define c where "c = upd_pcb k (\<lambda>p. p\<lparr>snd_wnd := sg_wnd seg, snd_wl1 := sg_seq seg, snd_wl2 := sg_ack seg\<rparr>)
      (tcp_transition k StEstablished b)"
  obtain r' d where d: "signalCmd k triggerOpen c = (r', d)" by force
  then have "state_of k d = StEstablished" "length (tcp_store d) = length (tcp_store st)"
    using signalCmd_fields(1,18) [of k c triggerOpen] k len by (simp_all add: c_def)
  then show ?thesis
    unfolding seg_synsent_def Let_def a_def [symmetric] acc_def [symmetric] b prod.case r option.case
    using assms len d
    by (cases r') (auto simp: c_def [symmetric] seg_edge1_def seg_edge_from acc_def)
qed

text \<open>The four ways through the first checks.\<close>

lemma seg_default_refused:
  "\<not> seg_acceptable (pcb_at st k) seg \<Longrightarrow> seg_default resolve k seg flag data dataLen st =
     (if isSet flag RST then (None, st) else TxHelperTCP resolve k ACK [] 0 None st)"
  by (cases "TxHelperTCP resolve k ACK [] 0 None st") (simp add: seg_default_def seg_check_seq_def)

lemma seg_default_rst:
  "seg_acceptable (pcb_at st k) seg \<Longrightarrow> state_of k st \<in> sync_states \<Longrightarrow> isSet flag RST \<Longrightarrow>
     seg_default resolve k seg flag data dataLen st =
       (None, tcp_transition k StClosed (signalErr k
          (if state_of k st = StSYNReceived then ''connection refused'' else ''connection reset'') st))"
  by (auto simp: seg_default_def seg_check_seq_def seg_check_rst_def sync_states_def Let_def)

lemma seg_default_syn:
  "seg_acceptable (pcb_at st k) seg \<Longrightarrow> \<not> isSet flag RST \<Longrightarrow> isSet flag SYN \<Longrightarrow>
     seg_default resolve k seg flag data dataLen st =
       TxHelperTCP resolve k RST [] 0 None (tcp_transition k StClosed (signalErr k ''connection reset'' st))"
  by (cases "TxHelperTCP resolve k RST [] 0 None (tcp_transition k StClosed (signalErr k ''connection reset'' st))")
     (simp add: seg_default_def seg_check_seq_def seg_check_rst_def seg_check_syn_def Let_def)

lemma seg_default_ack:
  "seg_acceptable (pcb_at st k) seg \<Longrightarrow> \<not> isSet flag RST \<Longrightarrow> \<not> isSet flag SYN \<Longrightarrow>
     seg_default resolve k seg flag data dataLen st =
       flow_end (flow_then (flow_then (seg_check_ack resolve k seg flag st)
         (seg_text resolve k seg data dataLen)) (seg_fin resolve k seg flag))"
  by (simp add: seg_default_def seg_check_seq_def seg_check_rst_def seg_check_syn_def Let_def flow_then_urg)

text \<open>The ACK step: its state change, and what it leaves of the receive side.\<close>

lemma ack_advance_spec:
  assumes k: "k < length (tcp_store st)"
  shows "length (tcp_store (flow_state (ack_advance resolve k seg st))) = length (tcp_store st) \<and>
    state_of k (flow_state (ack_advance resolve k seg st)) = state_of k st \<and>
    snd_nxt (pcb_at (flow_state (ack_advance resolve k seg st)) k) = snd_nxt (pcb_at st k) \<and>
    rcv_same (pcb_at st k) (pcb_at (flow_state (ack_advance resolve k seg st)) k)"
proof -
  define u where "u = upd_pcb k (\<lambda>p. p\<lparr>snd_una := sg_ack seg\<rparr>) st"
  obtain r st1 where q: "queueAck k u = (r, st1)" by force
  have u: "k < length (tcp_store u)" "pcb_at u k = (pcb_at st k)\<lparr>snd_una := sg_ack seg\<rparr>"
    "length (tcp_store u) = length (tcp_store st)" using k by (simp_all add: u_def)
  have st1: "length (tcp_store st1) = length (tcp_store st)" "state_of k st1 = state_of k st"
    "snd_nxt (pcb_at st1 k) = snd_nxt (pcb_at st k)" "rcv_same (pcb_at st k) (pcb_at st1 k)"
    using queueAck_fields [OF u(1)] queueAck_core(4) [OF u(1)] u q by (simp_all add: rcv_same_def)
  have tx: "rcv_same (pcb_at st k) (pcb_at (snd (TxHelperTCP resolve k ACK [] 0 None st)) k)"
    using k by (simp add: rcv_same_def) (simp add: TxHelper_pcb)
  show ?thesis
    unfolding ack_advance_def Let_def u_def [symmetric] q
    using k st1 tx by (cases r) (auto simp: rcv_same_def)
qed

lemma ack_by_state_spec:
  assumes k: "k < length (tcp_store st)"
  shows "length (tcp_store (flow_state (ack_by_state k seg st))) = length (tcp_store st) \<and>
    (state_of k (flow_state (ack_by_state k seg st)) = state_of k st \<or>
     state_of k st = StFINWait1 \<and> state_of k (flow_state (ack_by_state k seg st)) = StFINWait2 \<or>
     state_of k st = StClosing \<and> state_of k (flow_state (ack_by_state k seg st)) = StTimeWait) \<and>
    rcv_wnd (pcb_at (flow_state (ack_by_state k seg st)) k) = rcv_wnd (pcb_at st k) \<and>
    rcv_nxt (pcb_at (flow_state (ack_by_state k seg st)) k) = rcv_nxt (pcb_at st k) \<and>
    tp_rxLen (pcb_at (flow_state (ack_by_state k seg st)) k) = tp_rxLen (pcb_at st k)"
proof -
  obtain r st1 where s: "signalCmd k triggerClose st = (r, st1)" by force
  then have "length (tcp_store st1) = length (tcp_store st)" "state_of k st1 = state_of k st"
    "rcv_wnd (pcb_at st1 k) = rcv_wnd (pcb_at st k)" "rcv_nxt (pcb_at st1 k) = rcv_nxt (pcb_at st k)"
    "tp_rxLen (pcb_at st1 k) = tp_rxLen (pcb_at st k)"
    using signalCmd_fields [OF k, of triggerClose] by simp_all
  with s k show ?thesis
    by (cases r) (auto simp: ack_by_state_def Let_def split: pcb_state.split)
qed

lemma ack_common_spec:
  assumes k: "k < length (tcp_store st)"
    and fl_def: "fl = flow_then (ack_advance resolve k seg st) (ack_by_state k seg)"
  shows "length (tcp_store (flow_state fl)) = length (tcp_store st) \<and>
    (state_of k (flow_state fl) = state_of k st \<or>
     state_of k st = StFINWait1 \<and> state_of k (flow_state fl) = StFINWait2 \<or>
     state_of k st = StClosing \<and> state_of k (flow_state fl) = StTimeWait) \<and>
    rcv_wnd (pcb_at (flow_state fl) k) = rcv_wnd (pcb_at st k) \<and>
    rcv_nxt (pcb_at (flow_state fl) k) = rcv_nxt (pcb_at st k) \<and>
    tp_rxLen (pcb_at (flow_state fl) k) = tp_rxLen (pcb_at st k)"
proof (cases "ack_advance resolve k seg st")
  case (Return e s)
  then show ?thesis using ack_advance_spec [OF k, of seg] by (simp add: fl_def rcv_same_def)
next
  case (GoOn s)
  then have s: "length (tcp_store s) = length (tcp_store st)" "state_of k s = state_of k st"
    "rcv_same (pcb_at st k) (pcb_at s k)"
    using ack_advance_spec [OF k, of seg] by simp_all
  then have "k < length (tcp_store s)" using k by simp
  from ack_by_state_spec [OF this, of seg] s show ?thesis
    unfolding fl_def GoOn flow_then.simps rcv_same_def by simp
qed

lemma seg_check_ack_spec:
  assumes k: "k < length (tcp_store st)" and s: "state_of k st \<in> sync_states"
    and fl_def: "fl = seg_check_ack resolve k seg flag st"
  shows "length (tcp_store (flow_state fl)) = length (tcp_store st)"
    and "seg_edge1 flag (state_of k st) (state_of k (flow_state fl)) \<or>
      state_of k st = StSYNReceived \<and> isSet flag ACK \<and> state_of k (flow_state fl) = StEstablished"
    and "rcv_wnd (pcb_at (flow_state fl) k) = rcv_wnd (pcb_at st k)"
    and "tp_rxLen (pcb_at (flow_state fl) k) = tp_rxLen (pcb_at st k)"
    and "fl = GoOn st' \<Longrightarrow> isSet flag ACK \<and> state_of k st' \<in>
      {StEstablished, StFINWait1, StFINWait2, StCloseWait, StClosing, StTimeWait}"
proof -
  have k': "k < length (tcp_store (tcp_transition k StEstablished st))" using k by simp
  note spec = ack_common_spec [OF k refl, of seg]
  note spec' = ack_common_spec [OF k' refl, of seg]
  have cases: "state_of k st \<in> {StSYNReceived, StEstablished, StFINWait1, StFINWait2, StCloseWait, StClosing,
      StLastACK, StTimeWait}" using s by (simp add: sync_states_def)
  define common where "common s = flow_then (ack_advance resolve k seg s) (ack_by_state k seg)" for s
  have fl: "fl = (if \<not> isSet flag ACK then Return None st
      else if state_of k st = StSYNReceived
      then (if snd_una (pcb_at st k) \<le> sg_ack seg \<and> sg_ack seg \<le> snd_nxt (pcb_at st k)
            then common (tcp_transition k StEstablished st)
            else flow_return (tcp_TxHandler resolve (tp_local (pcb_at st k)) (tp_foreign (pcb_at st k)) []
              (sg_ack seg) 0 RST 0 0 st))
      else if state_of k st = StLastACK
      then Return None (if sg_ack seg = snd_nxt (pcb_at st k)
             then tcp_transition k StClosed (signalErr k ''connection closed'' st) else st)
      else if state_of k st = StTimeWait
      then Return None (if isSet flag FIN then upd_pcb k (\<lambda>p. p\<lparr>tp_lastTxTime := now st\<rparr>) st else st)
      else common st)"
    using cases unfolding fl_def seg_check_ack_def Let_def common_def by (elim insertE) simp_all
  note com = spec [folded common_def] spec' [folded common_def]
  show "length (tcp_store (flow_state fl)) = length (tcp_store st)"
    "rcv_wnd (pcb_at (flow_state fl) k) = rcv_wnd (pcb_at st k)"
    "tp_rxLen (pcb_at (flow_state fl) k) = tp_rxLen (pcb_at st k)"
    using k com by (simp_all add: fl)
  show "seg_edge1 flag (state_of k st) (state_of k (flow_state fl)) \<or>
      state_of k st = StSYNReceived \<and> isSet flag ACK \<and> state_of k (flow_state fl) = StEstablished"
    using k com by (auto simp: fl seg_edge1_def seg_edge_from)
  show "isSet flag ACK \<and> state_of k st' \<in>
      {StEstablished, StFINWait1, StFINWait2, StCloseWait, StClosing, StTimeWait}" if "fl = GoOn st'"
  proof -
    have not_return: "flow_return r \<noteq> GoOn st'" for r :: "error option \<times> 'a tcp_state_scheme" by (cases r) simp
    have ack: "isSet flag ACK"
      using that by (auto simp: fl split: if_splits)
    moreover have "state_of k st = StSYNReceived \<and> common (tcp_transition k StEstablished st) = GoOn st' \<or>
        state_of k st \<in> {StEstablished, StFINWait1, StFINWait2, StCloseWait, StClosing} \<and> common st = GoOn st'"
      using that cases ack not_return unfolding fl by (simp split: if_splits)
    ultimately show ?thesis
    proof (elim disjE conjE)
      assume "common (tcp_transition k StEstablished st) = GoOn st'"
      then have "flow_state (common (tcp_transition k StEstablished st)) = st'" by simp
      with com(2) k ack show ?thesis by auto
    next
      assume "common st = GoOn st'" and c: "state_of k st \<in> {StEstablished, StFINWait1, StFINWait2, StCloseWait, StClosing}"
      then have "flow_state (common st) = st'" by simp
      with com(1) c ack show ?thesis by auto
    qed
  qed
qed

lemma seg_text_state:
  assumes "k < length (tcp_store st)"
  shows "state_of k (flow_state (seg_text resolve k seg data dataLen st)) = state_of k st"
    and "seg_text resolve k seg data dataLen st = GoOn st' \<Longrightarrow> st' = st"
proof -
  show "state_of k (flow_state (seg_text resolve k seg data dataLen st)) = state_of k st"
    using assms by (simp add: seg_text_def Let_def)
  show "st' = st" if "seg_text resolve k seg data dataLen st = GoOn st'"
  proof -
    have "flow_return r \<noteq> GoOn st'" for r :: "error option \<times> 'a tcp_state_scheme" by (cases r) simp
    with that show ?thesis by (auto simp: seg_text_def Let_def split: if_splits)
  qed
qed

lemma seg_fin_state:
  assumes "k < length (tcp_store st)" "isSet flag ACK"
    and "state_of k st \<in> {StEstablished, StFINWait1, StFINWait2, StCloseWait, StClosing, StTimeWait}"
  shows "seg_edge1 flag (state_of k st) (state_of k (flow_state (seg_fin resolve k seg flag st)))"
  using assms by (auto simp: seg_fin_def Let_def seg_edge1_def seg_edge_from)

lemma seg_default_state:
  assumes k: "k < length (tcp_store st)" and s: "state_of k st \<in> sync_states"
  shows "seg_edge2 flag (state_of k st) (state_of k (snd (seg_default resolve k seg flag data dataLen st)))"
proof -
  have stay: "seg_edge1 flag x x" for x by (simp add: seg_edge1_def)
  have one: "seg_edge1 flag x y \<Longrightarrow> seg_edge2 flag x y" for x y using stay by (auto simp: seg_edge2_def)
  consider "\<not> seg_acceptable (pcb_at st k) seg"
    | "seg_acceptable (pcb_at st k) seg" "isSet flag RST"
    | "seg_acceptable (pcb_at st k) seg" "\<not> isSet flag RST" "isSet flag SYN"
    | "seg_acceptable (pcb_at st k) seg" "\<not> isSet flag RST" "\<not> isSet flag SYN" by blast
  then show ?thesis
  proof cases
    case 1
    with k show ?thesis by (simp add: seg_default_refused one stay)
  next
    case 2
    have "seg_edge1 flag (state_of k st) StClosed"
      using 2 s by (auto simp: seg_edge1_def sync_states_iff intro: seg_edge.reset)
    with 2 k s show ?thesis by (simp add: seg_default_rst one)
  next
    case 3
    have "seg_edge1 flag (state_of k st) StClosed"
      using 3 s by (auto simp: seg_edge1_def sync_states_iff intro: seg_edge.reset)
    with 3 k show ?thesis by (simp add: seg_default_syn one)
  next
    case 4
    have syn: "seg_edge1 flag StSYNReceived StEstablished" if "isSet flag ACK"
      using that by (simp add: seg_edge1_def seg_edge_from)
    note ack = seg_check_ack_spec [OF k s refl, where seg = seg and flag = flag]
    then have e1: "seg_edge1 flag (state_of k st) (state_of k (flow_state (seg_check_ack resolve k seg flag st)))"
      using syn by metis
    show ?thesis
    proof (cases "seg_check_ack resolve k seg flag st")
      case (Return e st1)
      with e1 show ?thesis by (simp add: seg_default_ack [OF 4] one)
    next
      case (GoOn st1)
      then have k1: "k < length (tcp_store st1)" using ack(1) k by simp
      have s1: "isSet flag ACK" "state_of k st1 \<in>
          {StEstablished, StFINWait1, StFINWait2, StCloseWait, StClosing, StTimeWait}"
        using ack(5) [OF GoOn] by blast+
      show ?thesis
      proof (cases "seg_text resolve k seg data dataLen st1")
        case (Return e st2)
        with e1 GoOn seg_text_state(1) [OF k1, of seg data dataLen] show ?thesis
          by (simp add: seg_default_ack [OF 4] one)
      next
        case (GoOn st2)
        then have "st2 = st1" by (rule seg_text_state(2) [OF k1])
        with e1 GoOn seg_fin_state [OF k1 s1, of seg] \<open>seg_check_ack resolve k seg flag st = GoOn st1\<close>
        show ?thesis by (auto simp: seg_default_ack [OF 4] seg_edge2_def)
      qed
    qed
  qed
qed

lemma segmentArrives_state:
  assumes "k < length (tcp_store st)"
  shows "seg_edge2 flag (state_of k st)
    (state_of k (snd (segmentArrives resolve iss k seg flag data dataLen foreign st)))"
proof -
  have one: "seg_edge1 flag x y \<Longrightarrow> seg_edge2 flag x y" for x y by (auto simp: seg_edge2_def seg_edge1_def)
  have stay: "seg_edge2 flag x x" for x by (auto simp: seg_edge2_def seg_edge1_def)
  show ?thesis
  proof (cases "state_of k st \<in> sync_states")
    case True
    then have "snd (segmentArrives resolve iss k seg flag data dataLen foreign st) =
        snd (seg_default resolve k seg flag data dataLen st)"
      by (auto simp: segmentArrives_def sync_states_def)
    with seg_default_state [OF assms True] show ?thesis by simp
  next
    case False
    then consider "state_of k st = StClosed" | "state_of k st = StListen" | "state_of k st = StSYNSent"
      unfolding sync_states_iff by auto
    then show ?thesis
    proof cases
      case 1
      with seg_closed_state [of k seg flag st] stay show ?thesis by (simp add: segmentArrives_def)
    next
      case 2
      with seg_listen_state [OF assms 2, of flag iss seg data dataLen foreign] show ?thesis
        by (simp add: segmentArrives_def one)
    next
      case 3
      with seg_synsent_state [OF assms 3, of flag seg] show ?thesis by (simp add: segmentArrives_def one)
    qed
  qed
qed

end

section \<open>Connections without a receive window\<close>

text \<open>An active \<open>OPEN\<close> never sets \<open>RCV.WND\<close>, which stays 0.\<close>

definition deaf :: "tcp_pcb \<Rightarrow> bool" where
  "deaf p \<longleftrightarrow> rcv_wnd p = 0 \<and> tp_rxLen p = 0 \<and>
     tp_state p \<in> {StSYNSent, StSYNReceived, StEstablished, StFINWait1, StFINWait2, StClosed}"

text \<open>A segment's length counts its text and its FIN.\<close>

definition seg_counts :: "segment \<Rightarrow> u8 \<Rightarrow> u32 \<Rightarrow> bool" where
  "seg_counts seg flag dataLen \<longleftrightarrow> (dataLen \<noteq> 0 \<or> isSet flag FIN \<longrightarrow> sg_len seg \<noteq> 0)"

lemma tcp_core_deaf: "tcp_core p = tcp_core q \<Longrightarrow> deaf p = deaf q"
  using tcp_core_fields [of p q] by (simp add: deaf_def)

context tcp_layer begin

lemma seg_synsent_rcv:
  assumes k: "k < length (tcp_store st)"
  shows "rcv_wnd (pcb_at (snd (seg_synsent resolve k seg flag st)) k) = rcv_wnd (pcb_at st k) \<and>
    tp_rxLen (pcb_at (snd (seg_synsent resolve k seg flag st)) k) = tp_rxLen (pcb_at st k)"
proof -
  define a where "a = upd_pcb k (\<lambda>p. p\<lparr>rcv_nxt := sg_seq seg + 1, tp_irs := sg_seq seg\<rparr>) st"
  define acc where "acc = (isSet flag ACK \<and> snd_una (pcb_at st k) \<le> sg_ack seg \<and> sg_ack seg \<le> snd_nxt (pcb_at st k))"
  obtain r b where b: "(if acc then queueAck k (upd_pcb k (\<lambda>p. p\<lparr>snd_una := sg_ack seg\<rparr>) a) else (None, a)) = (r, b)"
    by force
  then have b': "b = snd (if acc then queueAck k (upd_pcb k (\<lambda>p. p\<lparr>snd_una := sg_ack seg\<rparr>) a) else (None, a))"
    by simp
  have len: "length (tcp_store b) = length (tcp_store st)"
    "rcv_wnd (pcb_at b k) = rcv_wnd (pcb_at st k)" "tp_rxLen (pcb_at b k) = tp_rxLen (pcb_at st k)"
    unfolding b' a_def using k by simp_all
  define c where "c = upd_pcb k (\<lambda>p. p\<lparr>snd_wnd := sg_wnd seg, snd_wl1 := sg_seq seg, snd_wl2 := sg_ack seg\<rparr>)
      (tcp_transition k StEstablished b)"
  obtain r' d where d: "signalCmd k triggerOpen c = (r', d)" by force
  then have "rcv_wnd (pcb_at d k) = rcv_wnd (pcb_at st k)" "tp_rxLen (pcb_at d k) = tp_rxLen (pcb_at st k)"
    "length (tcp_store d) = length (tcp_store st)"
    using signalCmd_fields [of k c triggerOpen] k len by (simp_all add: c_def)
  then show ?thesis
    unfolding seg_synsent_def Let_def a_def [symmetric] acc_def [symmetric] b prod.case
    using k len d by (cases r; cases r') (simp_all add: c_def [symmetric])
qed

lemma seg_default_deaf:
  assumes k: "k < length (tcp_store st)" and d: "deaf (pcb_at st k)" "state_of k st \<in> sync_states"
    and c: "seg_counts seg flag dataLen"
  shows "deaf (pcb_at (snd (seg_default resolve k seg flag data dataLen st)) k)"
proof -
  have wnd: "rcv_wnd (pcb_at st k) = 0" "tp_rxLen (pcb_at st k) = 0" using d by (simp_all add: deaf_def)
  consider "\<not> seg_acceptable (pcb_at st k) seg"
    | "seg_acceptable (pcb_at st k) seg" "isSet flag RST"
    | "seg_acceptable (pcb_at st k) seg" "\<not> isSet flag RST" "isSet flag SYN"
    | "seg_acceptable (pcb_at st k) seg" "\<not> isSet flag RST" "\<not> isSet flag SYN" by blast
  then show ?thesis
  proof cases
    case 1
    have "deaf (pcb_at (snd (TxHelperTCP resolve k ACK [] 0 None st)) k)"
      using tcp_core_deaf [OF TxHelper_core [OF k]] d(1) by blast
    with 1 d(1) show ?thesis by (simp add: seg_default_refused)
  next
    case 2
    with k d wnd show ?thesis by (simp add: seg_default_rst deaf_def)
  next
    case 3
    with k wnd show ?thesis by (simp add: seg_default_syn deaf_def)
  next
    case 4
    have len: "sg_len seg = 0" using 4(1) wnd(1) by (simp add: seg_acceptable_def Let_def)
    then have none: "dataLen = 0" "\<not> isSet flag FIN" using c by (auto simp: seg_counts_def)
    have "snd (seg_default resolve k seg flag data dataLen st) = flow_state (seg_check_ack resolve k seg flag st)"
      using none by (cases "seg_check_ack resolve k seg flag st")
        (simp_all add: seg_default_ack [OF 4] seg_text_def seg_fin_def)
    moreover note spec = seg_check_ack_spec [OF k d(2) refl, where seg = seg and flag = flag]
    moreover have "state_of k (flow_state (seg_check_ack resolve k seg flag st)) \<in>
        {StSYNReceived, StEstablished, StFINWait1, StFINWait2, StClosed}"
      using spec(2) d none(2) 4 by (auto simp: deaf_def seg_edge1_def seg_edge_from sync_states_iff)
    ultimately show ?thesis using wnd by (simp add: deaf_def)
  qed
qed

lemma segmentArrives_deaf:
  assumes k: "k < length (tcp_store st)" and d: "deaf (pcb_at st k)" and c: "seg_counts seg flag dataLen"
  shows "deaf (pcb_at (snd (segmentArrives resolve iss k seg flag data dataLen foreign st)) k)"
proof (cases "state_of k st \<in> sync_states")
  case True
  then have "snd (segmentArrives resolve iss k seg flag data dataLen foreign st) =
        snd (seg_default resolve k seg flag data dataLen st)"
    by (auto simp: segmentArrives_def sync_states_def)
  with seg_default_deaf [OF k d True c] show ?thesis by simp
next
  case False
  with d consider "state_of k st = StClosed" | "state_of k st = StSYNSent"
    unfolding sync_states_iff deaf_def by auto
  then show ?thesis
  proof cases
    case 1
    then have "snd (segmentArrives resolve iss k seg flag data dataLen foreign st) =
        snd (seg_closed resolve k seg flag st)" by (simp add: segmentArrives_def)
    with d show ?thesis by (simp add: seg_closed_def)
  next
    case 2
    have "seg_edge1 flag StSYNSent (state_of k (snd (seg_synsent resolve k seg flag st)))"
      by (rule seg_synsent_state [OF k 2])
    with 2 d seg_synsent_rcv [OF k, of seg flag] show ?thesis
      by (auto simp: segmentArrives_def deaf_def seg_edge1_def seg_edge_from)
  qed
qed

lemma try_send_core:
  assumes "k < length (tcp_store st)" "\<And>s. tcp_store (wait s) = tcp_store s \<and> tcp_pcbs (wait s) = tcp_pcbs s"
  shows "tcp_core (pcb_at (snd (try_send n resolve wait k flag data trigger errCh err st)) k) = tcp_core (pcb_at st k) \<and>
    length (tcp_store (snd (try_send n resolve wait k flag data trigger errCh err st))) = length (tcp_store st)"
  using assms(1)
proof (induction n arbitrary: err st)
  case (Suc n)
  obtain r st1 where tx: "TxHelperTCP resolve k flag data trigger (Some errCh) st = (r, st1)" by force
  have s1: "tcp_core (pcb_at st1 k) = tcp_core (pcb_at st k)" "length (tcp_store st1) = length (tcp_store st)"
    using TxHelper_core [OF Suc.prems, of flag data trigger "Some errCh"]
      TxHelper_fields(1) [of k flag data trigger "Some errCh" st] by (simp_all add: tx)
  show ?case
    using s1 Suc assms(2) by (cases r) (simp_all add: tx)
qed simp

lemma tcp_Send_deaf:
  assumes "k < length (tcp_store st)" "deaf (pcb_at st k)"
    and w: "\<And>s. tcp_store (wait s) = tcp_store s \<and> tcp_pcbs (wait s) = tcp_pcbs s"
  shows "deaf (pcb_at (tcp_Send resolve wait k errCh data st) k)"
proof -
  define s1 where "s1 = (if length data > unat (snd_wnd (pcb_at st k))
                      then chan_send errCh (Some (Err ''insufficient resources'')) st else st)"
  have s1: "tcp_store s1 = tcp_store st" by (simp add: s1_def)
  then have k1: "k < length (tcp_store s1)" using assms(1) by simp
  obtain r s2 where tx: "try_send 3 resolve wait k ACK data triggerSend errCh None s1 = (r, s2)" by force
  then have s2: "tcp_core (pcb_at s2 k) = tcp_core (pcb_at s1 k)" "length (tcp_store s2) = length (tcp_store s1)"
    using try_send_core [OF k1 w, of 3 ACK data triggerSend errCh None] by simp_all
  have "deaf (pcb_at s2 k)" "k < length (tcp_store s2)"
    using tcp_core_deaf [OF s2(1)] s2(2) s1 assms(1,2) by simp_all
  then show ?thesis
    unfolding tcp_Send_def Let_def s1_def [symmetric]
    using assms by (cases r) (auto simp: tx deaf_def)
qed

lemma close_fin_deaf:
  assumes "k < length (tcp_store st)" "deaf (pcb_at st k)"
    and w: "\<And>s. tcp_store (wait s) = tcp_store s \<and> tcp_pcbs (wait s) = tcp_pcbs s"
  shows "deaf (pcb_at (close_fin resolve wait k errCh StFINWait1 st) k)"
proof -
  obtain r s2 where tx: "try_send 3 resolve wait k (ACK OR FIN) [] triggerClose errCh None st = (r, s2)" by force
  then have s2: "tcp_core (pcb_at s2 k) = tcp_core (pcb_at st k)" "length (tcp_store s2) = length (tcp_store st)"
    using try_send_core [OF assms(1) w, of 3 "ACK OR FIN" "[]" triggerClose errCh None] by simp_all
  have "deaf (pcb_at s2 k)" "k < length (tcp_store s2)"
    using tcp_core_deaf [OF s2(1)] s2(2) assms(1,2) by simp_all
  then show ?thesis
    unfolding close_fin_def by (cases r) (auto simp: tx deaf_def)
qed

lemma tcp_Close_deaf:
  assumes "k < length (tcp_store st)" "deaf (pcb_at st k)"
    and w: "\<And>s. tcp_store (wait s) = tcp_store s \<and> tcp_pcbs (wait s) = tcp_pcbs s"
  shows "deaf (pcb_at (tcp_Close resolve wait k errCh st) k)"
  using close_fin_deaf [OF assms, of errCh] assms(1,2)
  by (cases "state_of k st") (auto simp: tcp_Close_def deaf_def)

lemma tcp_Receive_deaf:
  assumes "k < length (tcp_store st)" "deaf (pcb_at st k)"
  shows "deaf (pcb_at (tcp_Receive k errCh buf n st) k)"
  using assms by (auto simp: tcp_Receive_def receive_request_def deaf_def Let_def)

lemma tcp_Abort_deaf:
  assumes "k < length (tcp_store st)" "deaf (pcb_at st k)"
  shows "deaf (pcb_at (snd (tcp_Abort resolve k st)) k)"
  using assms by (auto simp: tcp_Abort_def deaf_def Let_def)

lemma timer_entries_deaf:
  assumes "k < length (tcp_store st)" "deaf (pcb_at st k)"
  shows "deaf (pcb_at (snd (snd (timer_entries resolve k i es del st))) k) \<and>
    length (tcp_store (snd (snd (timer_entries resolve k i es del st)))) = length (tcp_store st)"
  using assms
proof (induction es arbitrary: i del st)
  case (Cons e es)
  have "tcp_store (send_opt ch m s) = tcp_store s" for ch m and s :: "'a tcp_state_scheme"
    by (simp add: send_opt_log)
  moreover obtain r s1 where tx: "tcp_TxHandler resolve (tp_local (pcb_at st k)) (tp_foreign (pcb_at st k))
                     (re_data e) (re_seq e) (rcv_nxt (pcb_at st k)) (re_flag e)
                     (snd_wnd (pcb_at st k)) 0 st = (r, s1)" by force
  moreover from tx have "tcp_store s1 = tcp_store st" by (metis snd_conv tcp_tx_fields(1))
  ultimately show ?case using Cons by (simp add: deaf_def Let_def)
qed simp

lemma timer_pcb_deaf:
  assumes "k < length (tcp_store st)" "deaf (pcb_at st k)"
  shows "deaf (pcb_at (snd (timer_pcb resolve k st)) k)"
proof -
  obtain r st1 where q: "queueAck k st = (r, st1)" by force
  then have s1: "deaf (pcb_at st1 k)" "k < length (tcp_store st1)" "r = None"
    using tcp_core_deaf [OF queueAck_core(1) [OF assms(1)]] queueAck_core(2,3) [OF assms(1)] assms by auto
  obtain r2 del st2 where e: "timer_entries resolve k 0 (tp_retxQueue (pcb_at st1 k)) [] st1 = (r2, del, st2)"
    by (metis prod.exhaust)
  then have "deaf (pcb_at st2 k)" "k < length (tcp_store st2)"
    using timer_entries_deaf [OF s1(2,1), of 0 "tp_retxQueue (pcb_at st1 k)" "[]"] s1(2) by auto
  then show ?thesis
    using assms by (cases r2) (simp_all add: timer_pcb_def q s1(3) e split: sum.split, (simp add: deaf_def)+)
qed

end

end
