(* ===== verification/TcpRun.thy ===== *)
theory TcpRun
  imports TcpStates
begin

text \<open>
  Runs of TCP: the steps that the receive handler, the user, the timer and the layers below take, and
  what holds of a connection along every sequence of them.
\<close>

section \<open>The receive handler as a step of one connection\<close>

text \<open>The receive handler changes nothing, or lets the segment arrive at the connection it selects. The
  length of that segment counts text and FIN, since a length of \<open>-1\<close> goes with a panic.\<close>

lemma unat_ucast_u8: "unat (ucast (x :: u8) :: u32) = unat x"
  by transfer simp

context tcp_layer begin

lemma tcp_Rx_cases:
  assumes "tcp_ok st"
  obtains (idle) "snd (tcp_RxHandler resolve iss sl src dst i st) = st"
  | (arrives) k hdr payload seg data dataLen foreign where
      "tcp_data2header (slice_bytes st sl) src dst = Inr (hdr, payload)"
      "k \<in> set (tcp_pcbs st)" "tp_local (pcb_at st k) = \<lparr>ep_addr = dst, ep_port = th_dst hdr\<rparr>"
      "tcp_RxHandler resolve iss sl src dst i st =
         segmentArrives resolve iss k seg (th_flag hdr) data dataLen foreign st"
      "length (slice_bytes st sl) < 65536 \<Longrightarrow> seg_counts seg (th_flag hdr) dataLen"
proof (cases "tcp_data2header (slice_bytes st sl) src dst")
  case (Inl e)
  then show ?thesis by (intro idle) (simp add: tcp_RxHandler_def)
next
  case (Inr hp)
  obtain hdr payload where hp: "hp = (hdr, payload)" by (cases hp)
  show ?thesis
  proof (cases "tcp_select \<lparr>ep_addr = dst, ep_port = th_dst hdr\<rparr> st")
    case None
    then show ?thesis by (intro idle) (simp add: tcp_RxHandler_def Inr hp tcp_select_def)
  next
    case (Some k)
    define n where "n = length (slice_bytes st sl)"
    define hdrLen :: u8 where "hdrLen = push_bit 2 (drop_bit 4 (th_offset hdr))"
    define dataLen :: u32 where "dataLen = of_nat n - ucast hdrLen"
    define skip where "skip = unat (hdrLen - of_nat TcpHeaderSizeMin)"
    define seg where "seg = \<lparr>sg_seq = th_seq hdr, sg_ack = th_ack hdr,
        sg_len = (if isSet (th_flag hdr) (SYN OR FIN) then dataLen + 1 else dataLen),
        sg_wnd = th_window hdr, sg_up = th_urgent hdr\<rparr>"
    have rx: "tcp_RxHandler resolve iss sl src dst i st =
        (if length payload < skip then (Some Panic, st)
         else segmentArrives resolve iss k seg (th_flag hdr) (drop skip payload) dataLen
                \<lparr>ep_addr = src, ep_port = th_src hdr\<rparr> st)"
      using Some by (simp add: tcp_RxHandler_def Inr hp tcp_select_def Let_def seg_def dataLen_def skip_def
          hdrLen_def n_def)
    show ?thesis
    proof (cases "length payload < skip")
      case True
      with rx show ?thesis by (intro idle) simp
    next
      case False
      have n: "length payload = n - 20" "20 \<le> n"
        using Inr hp by (auto simp: tcp_data2header_def n_def TcpHeaderSizeMin_def Let_def split: if_splits)
      have "seg_counts seg (th_flag hdr) dataLen" if small: "n < 65536"
      proof -
        have "dataLen + 1 \<noteq> 0"
        proof
          assume "dataLen + 1 = 0"
          then have "(of_nat n + 1 :: u32) - ucast hdrLen = 0" by (simp only: dataLen_def diff_add_eq)
          then have "of_nat (n + 1) = (ucast hdrLen :: u32)" by (simp add: add.commute)
          then have "unat (of_nat (n + 1) :: u32) = unat (ucast hdrLen :: u32)" by (rule arg_cong)
          moreover have "unat (of_nat (n + 1) :: u32) = n + 1" unfolding unat_of_nat using small by simp
          moreover have "unat (ucast hdrLen :: u32) = unat hdrLen" by (simp add: unat_ucast_u8)
          ultimately have "n + 1 = unat hdrLen" by simp
          moreover then have "skip = unat hdrLen - 20"
            using n(2) by (simp add: skip_def TcpHeaderSizeMin_def unat_sub word_le_nat_alt)
          ultimately show False using False n by simp
        qed
        moreover have "isSet (th_flag hdr) (SYN OR FIN)" if "isSet (th_flag hdr) FIN"
        proof -
          have "th_flag hdr AND FIN = (th_flag hdr AND (SYN OR FIN)) AND FIN"
            by (simp add: and.assoc SYN_def FIN_def)
          with that show ?thesis by (auto simp: isSet_def word_gt_0)
        qed
        ultimately show ?thesis by (auto simp: seg_counts_def seg_def)
      qed
      with tcp_select_Some [OF Some] rx False Inr hp show ?thesis
        by (intro arrives [of hdr payload k seg "drop skip payload" dataLen]) (simp_all add: n_def)
    qed
  qed
qed

end
section \<open>Runs\<close>

text \<open>\<open>tcp_step k\<close> are the steps of the stack with every call of the user, but an \<open>OPEN\<close> of connection
  \<open>k\<close>. \<open>wait\<close> is what the layers below do while a call sleeps with the mutex of TCP locked; the last
  step is theirs.\<close>

definition waits :: "('a tcp_state_scheme \<Rightarrow> 'a tcp_state_scheme) \<Rightarrow> bool" where
  "waits wait \<longleftrightarrow> (\<forall>s. tcp_store (wait s) = tcp_store s \<and> tcp_pcbs (wait s) = tcp_pcbs s)"

inductive tcp_step :: "nat \<Rightarrow> 'a tcp_state_scheme \<Rightarrow> 'a tcp_state_scheme \<Rightarrow> bool" for k where
  rx: "length (slice_bytes st sl) < 65536 \<Longrightarrow>
    tcp_step k st (snd (tcp_RxHandler arp_Resolve iss sl src dst i st))"
| opens: "j \<noteq> k \<Longrightarrow> j < length (tcp_store st) \<Longrightarrow> waits wait \<Longrightarrow>
    tcp_step k st (tcp_Open arp_Resolve wait iss j errCh foreign isActive timeout st)"
| send: "j < length (tcp_store st) \<Longrightarrow> waits wait \<Longrightarrow>
    tcp_step k st (tcp_Send arp_Resolve wait j errCh data st)"
| receive: "j < length (tcp_store st) \<Longrightarrow> tcp_step k st (tcp_Receive j errCh buf n st)"
| close: "j < length (tcp_store st) \<Longrightarrow> waits wait \<Longrightarrow>
    tcp_step k st (tcp_Close arp_Resolve wait j errCh st)"
| abort: "j < length (tcp_store st) \<Longrightarrow> tcp_step k st (snd (tcp_Abort arp_Resolve j st))"
| timer: "tcp_step k st (snd (tcpTimer arp_Resolve st))"
| new: "tcp_step k st (snd (Newpcb e st))"
| delete: "tcp_step k st (snd (Deletepcb j st))"
| below: "tcp_store st' = tcp_store st \<Longrightarrow> tcp_pcbs st' = tcp_pcbs st \<Longrightarrow> tcp_step k st st'"

text \<open>What a run keeps of an actively opened connection.\<close>

definition deaf_at :: "nat \<Rightarrow> 'a tcp_state_scheme \<Rightarrow> bool" where
  "deaf_at k st \<longleftrightarrow> tcp_ok st \<and> k < length (tcp_store st) \<and> deaf (pcb_at st k)"

lemma deaf_at_to:
  assumes "deaf_at k st" "j < length (tcp_store st)" "tcp_to j st st'" "j = k \<Longrightarrow> deaf (pcb_at st' k)"
  shows "deaf_at k st'"
proof -
  have fr: "tcp_frame j st st'"
    using assms(1,2,3) by (auto simp: deaf_at_def tcp_to_def tcp_ok_def)
  moreover have "tcp_ok st'" using assms(1-3) tcp_ok_to by (auto simp: deaf_at_def)
  ultimately show ?thesis
    using assms(1,4) by (cases "j = k") (auto simp: deaf_at_def tcp_frame_def)
qed

lemma waitsD: "waits wait \<Longrightarrow> tcp_store (wait s) = tcp_store s \<and> tcp_pcbs (wait s) = tcp_pcbs s"
  by (simp add: waits_def)

context tcp_layer begin

lemma timer_loop_deaf:
  assumes "deaf_at k st" "set ks \<subseteq> set (tcp_pcbs st)"
  shows "deaf_at k (snd (timer_loop resolve ks st))"
  using assms
proof (induction ks arbitrary: st)
  case (Cons j ks)
  obtain r st1 where t: "timer_pcb resolve j st = (r, st1)" by force
  have ok: "tcp_ok st" "k < length (tcp_store st)" using Cons.prems by (simp_all add: deaf_at_def)
  have j: "j < length (tcp_store st)" "pcb_ok (pcb_at st j)"
    using Cons.prems ok by (auto simp: tcp_ok_def)
  have to: "tcp_to j st st1" using timer_pcb_to [of j st] t by simp
  have "deaf (pcb_at st1 k)" if "j = k"
    using timer_pcb_deaf [OF ok(2)] Cons.prems(1) t that by (auto simp: deaf_at_def dest: arg_cong [where f = snd])
  with deaf_at_to [OF Cons.prems(1) j(1) to] have 1: "deaf_at k st1" by blast
  moreover have "tcp_pcbs st1 = tcp_pcbs st" using to j by (simp add: tcp_to_def tcp_frame_def)
  ultimately show ?case using Cons t by (cases r) auto
qed simp

lemma tcp_Rx_deaf:
  assumes d: "deaf_at k st" and n: "length (slice_bytes st sl) < 65536"
  shows "deaf_at k (snd (tcp_RxHandler resolve iss sl src dst i st))"
proof -
  have ok: "tcp_ok st" using d by (simp add: deaf_at_def)
  show ?thesis
  proof (rule tcp_Rx_cases [OF ok, of iss sl src dst i], goal_cases)
    case 1
    with d show ?case by simp
  next
    case (2 j hdr payload seg data dataLen foreign)
    have "j < length (tcp_store st)" using ok 2(2) by (auto simp: tcp_ok_def)
    then show ?case
      unfolding 2(4)
      by (rule deaf_at_to [OF d _ segmentArrives_to])
         (use d 2(5) [OF n] segmentArrives_deaf in \<open>auto simp: deaf_at_def\<close>)
  qed
qed

end

lemma tcp_step_deaf: "tcp_step k st st' \<Longrightarrow> deaf_at k st \<Longrightarrow> deaf_at k st'"
proof (induction rule: tcp_step.induct)
  case (rx st sl iss src dst i)
  then show ?case by (intro arp_tcp.tcp_Rx_deaf)
next
  case (opens j st wait iss errCh foreign isActive timeout)
  then show ?case by (intro deaf_at_to [OF _ _ arp_tcp.tcp_Open_to]) (auto simp: waits_def)
next
  case (send j st wait errCh data)
  then show ?case
    using arp_tcp.tcp_Send_deaf [of k st wait errCh data]
    by (intro deaf_at_to [OF _ _ arp_tcp.tcp_Send_to]) (auto simp: waits_def deaf_at_def)
next
  case (receive j st errCh buf n)
  then show ?case
    using arp_tcp.tcp_Receive_deaf [of k st errCh buf n]
    by (intro deaf_at_to [OF _ _ arp_tcp.tcp_Receive_to]) (auto simp: deaf_at_def)
next
  case (close j st wait errCh)
  then show ?case
    using arp_tcp.tcp_Close_deaf [of k st wait errCh]
    by (intro deaf_at_to [OF _ _ arp_tcp.tcp_Close_to]) (auto simp: waits_def deaf_at_def)
next
  case (abort j st)
  then show ?case
    using arp_tcp.tcp_Abort_deaf [of k st]
    by (intro deaf_at_to [OF _ _ arp_tcp.tcp_Abort_to]) (auto simp: deaf_at_def)
next
  case (timer st)
  then show ?case unfolding tcpTimer_def by (rule arp_tcp.timer_loop_deaf) simp
next
  case (new st e)
  then have "tcp_ok (snd (Newpcb e st))" by (auto simp: deaf_at_def Newpcb_tcp_ok)
  with new show ?case by (auto simp: deaf_at_def Newpcb_def nth_append)
next
  case (delete st j)
  then have "tcp_ok (snd (Deletepcb j st))" by (auto simp: deaf_at_def Deletepcb_tcp_ok)
  with delete show ?case by (auto simp: deaf_at_def Deletepcb_eq)
next
  case (below st' st)
  then show ?case by (simp add: deaf_at_def tcp_ok_def)
qed

lemma tcp_run_deaf: "(tcp_step k)\<^sup>*\<^sup>* st st' \<Longrightarrow> deaf_at k st \<Longrightarrow> deaf_at k st'"
  by (induction rule: rtranclp_induct) (auto intro: tcp_step_deaf)

text \<open>An active \<open>OPEN\<close> of a fresh connection leads there.\<close>

context tcp_layer begin

lemma tcp_Open_deaf:
  assumes "k < length (tcp_store st)" "rcv_wnd (pcb_at st k) = 0" "tp_rxLen (pcb_at st k) = 0"
    and "state_of k st = StClosed"
    and w: "\<And>s. tcp_store (wait s) = tcp_store s \<and> tcp_pcbs (wait s) = tcp_pcbs s"
  shows "deaf (pcb_at (tcp_Open resolve wait iss k errCh foreign True timeout st) k)"
proof -
  define s1 where "s1 = upd_pcb k (\<lambda>p. p\<lparr>tp_timeout := timeout, tp_foreign := foreign, tp_iss := iss,
                     snd_una := iss, snd_nxt := iss + 1\<rparr>) st"
  have k1: "k < length (tcp_store s1)" using assms(1) by (simp add: s1_def)
  have d1: "deaf (pcb_at s1 k)" using assms by (simp add: s1_def deaf_def)
  obtain r s2 where tx: "try_send 3 resolve wait k SYN [] triggerOpen errCh None s1 = (r, s2)" by force
  then have s2: "tcp_core (pcb_at s2 k) = tcp_core (pcb_at s1 k)" "length (tcp_store s2) = length (tcp_store s1)"
    using try_send_core [OF k1 w, of 3 SYN "[]" triggerOpen errCh None] by simp_all
  have "deaf (pcb_at s2 k)" "k < length (tcp_store s2)"
    using tcp_core_deaf [OF s2(1)] s2(2) d1 k1 by simp_all
  then show ?thesis
    using assms by (cases r) (auto simp: tcp_Open_def tcp_open_active_def s1_def [symmetric] tx deaf_def)
qed

end

lemma seg_edge2_refl [simp]: "seg_edge2 flag s s"
  unfolding seg_edge2_def seg_edge1_def by blast

lemma seg_edge2_iff: "seg_edge2 flag s s' \<longleftrightarrow>
    s' = s \<or> seg_edge flag s s' \<or> (\<exists>m. seg_edge flag s m \<and> seg_edge flag m s')"
  unfolding seg_edge2_def seg_edge1_def by blast

section \<open>Properties\<close>

text \<open>C9. The receive handler moves a connection along the arrows of the state diagram only, with the
  flags each arrow asks for: at most two arrows, one for the acknowledgement and one for the FIN of
  the same segment. Connections that are not addressed keep their state.\<close>

theorem tcp_states_follow_diagram:
  assumes "tcp_ok st" "k < length (tcp_store st)"
    and "tcp_data2header (slice_bytes st sl) src dst = Inr (hdr, payload)"
    and "st' = snd (tcp_RxHandler arp_Resolve iss sl src dst i st)"
  shows "seg_edge2 (th_flag hdr) (tcp_Status k st) (tcp_Status k st') \<and>
    (tcp_Status k st' \<noteq> tcp_Status k st \<longrightarrow> tp_local (pcb_at st k) = \<lparr>ep_addr = dst, ep_port = th_dst hdr\<rparr>)"
proof (rule arp_tcp.tcp_Rx_cases [OF assms(1), of iss sl src dst i], goal_cases)
  case 1
  with assms(4) show ?case by (simp add: tcp_Status_def)
next
  case (2 j h p seg data dataLen foreign)
  have h: "h = hdr" using 2(1) assms(3) by simp
  have j: "j < length (tcp_store st)" using 2(2) assms(1) by (auto simp: tcp_ok_def)
  then have "tcp_frame j st st'"
    using arp_tcp.segmentArrives_to [of j st iss seg "th_flag h" data dataLen foreign] assms(1) 2(4) assms(4)
    by (auto simp: tcp_to_def tcp_ok_def)
  with arp_tcp.segmentArrives_state [OF j, of "th_flag h" iss seg data dataLen foreign] 2(3,4) assms(4)
  show ?case
    by (cases "j = k") (auto simp: h tcp_Status_def tcp_frame_def)
qed

text \<open>C31. A connection that was opened actively never receives anything: \<open>OPEN\<close> and the state SYN-SENT
  leave \<open>RCV.WND\<close> at 0, so along every run no text and no FIN is acceptable, no byte is ever queued
  for \<open>RECEIVE\<close>, and the states that a FIN of the peer leads to are out of reach.\<close>

theorem tcp_active_open_never_receives:
  assumes "tcp_ok st" "k < length (tcp_store st)"
    and "pcb_at st k = pcb_zero\<lparr>tp_state := StClosed, tp_local := e\<rparr>" "waits wait"
    and "(tcp_step k)\<^sup>*\<^sup>* (tcp_Open arp_Resolve wait iss k errCh foreign True timeout st) st'"
  shows "tp_rxLen (pcb_at st' k) = 0 \<and> rcv_wnd (pcb_at st' k) = 0 \<and>
    tcp_Status k st' \<notin> {StListen, StCloseWait, StClosing, StLastACK, StTimeWait}"
proof -
  note w = waitsD [OF assms(4)]
  let ?st = "tcp_Open arp_Resolve wait iss k errCh foreign True timeout st"
  have to: "tcp_to k st ?st" by (rule arp_tcp.tcp_Open_to [OF w])
  have "deaf (pcb_at ?st k)"
    by (rule arp_tcp.tcp_Open_deaf [OF assms(2)]) (use w in \<open>simp_all add: assms(3) pcb_zero_def\<close>)
  moreover have "tcp_ok ?st" by (rule tcp_ok_to [OF assms(1,2) to])
  moreover have "length (tcp_store ?st) = length (tcp_store st)"
    using to assms(1,2) by (auto simp: tcp_to_def tcp_frame_def tcp_ok_def)
  ultimately have "deaf_at k ?st" using assms(2) by (simp add: deaf_at_def)
  with assms(5) have "deaf_at k st'" by (rule tcp_run_deaf)
  then show ?thesis by (auto simp: deaf_at_def deaf_def tcp_Status_def)
qed

definition demo_syn :: tcp_header where
  "demo_syn = \<lparr>th_src = 5000, th_dst = 80, th_seq = 100, th_ack = 0, th_offset = 0x50, th_flag = SYN,
     th_window = 1000, th_checksum = 0, th_urgent = 0\<rparr>"

theorem tcp_states_follow_diagram_witness:
  "seg_edge2 SYN StListen (tcp_Status 0 (snd (tcp_RxHandler arp_Resolve 55
     (Heap (snd (tcp_header2data demo_syn [] 8 7))) 8 7 0 tcp_demo)))"
proof -
  have "tcp_data2header (slice_bytes tcp_demo (Heap (snd (tcp_header2data demo_syn [] 8 7)))) 8 7 =
      Inr (fst (tcp_header2data demo_syn [] 8 7), [])"
    using tcp_codec.reads_back [of demo_syn "[]"] by (simp add: tcp_sendable_def demo_syn_def)
  from tcp_states_follow_diagram [OF tcp_demo_ok, of 0, OF _ this refl, of 55 0]
  show ?thesis by (simp add: tcp_demo_def pcb_zero_def tcp_Status_def tcp_header2data_def demo_syn_def Let_def)
qed

definition tcp_demo2 :: tcp_state where
  "tcp_demo2 = tcp_demo\<lparr>tcp_store := [pcb_zero\<lparr>tp_state := StClosed, tp_local := endpoint_zero\<rparr>]\<rparr>"

theorem tcp_active_open_never_receives_witness:
  "tcp_rto (tcp_demo2) = 10000000000 \<and>
   tp_rxLen (pcb_at (snd (tcpTimer arp_Resolve
     (tcp_Open arp_Resolve id 5 0 9 \<lparr>ep_addr = 8, ep_port = 80\<rparr> True 100 tcp_demo2))) 0) = 0"
proof -
  have ok: "tcp_ok tcp_demo2"
    by (simp add: tcp_ok_def tcp_demo2_def tcp_demo_def pcb_ok_def pcb_zero_def)
  have at: "0 < length (tcp_store tcp_demo2)"
    "pcb_at tcp_demo2 0 = pcb_zero\<lparr>tp_state := StClosed, tp_local := endpoint_zero\<rparr>"
    by (simp_all add: tcp_demo2_def)
  let ?st = "tcp_Open arp_Resolve id 5 0 9 \<lparr>ep_addr = 8, ep_port = 80\<rparr> True 100 tcp_demo2"
  have w: "waits id" by (simp add: waits_def)
  have "(tcp_step 0)\<^sup>*\<^sup>* ?st (snd (tcpTimer arp_Resolve ?st))"
    by (rule r_into_rtranclp [of "tcp_step 0"]) (rule tcp_step.timer)
  from tcp_active_open_never_receives [OF ok at w this]
  show ?thesis by (simp add: tcp_demo2_def tcp_demo_def)
qed

end
