(* ===== verification/Stack.thy ===== *)
theory Stack
  imports TcpBelow TcpRun
begin

text \<open>
  The layers put together: the receive handlers of the upper protocols as \<open>ip.RxHandler\<close> calls them,
  with ARP as the resolver, the invariant of the whole stack, and what each handler keeps of it. The
  layers below TCP are one instance of the locale \<open>below_tcp\<close>.
\<close>

section \<open>The upper protocols\<close>

definition stack_rx :: "u32 \<Rightarrow> ip_upper \<Rightarrow> slice \<Rightarrow> u32 \<Rightarrow> u32 \<Rightarrow> nat \<Rightarrow> 'a tcp_state_scheme \<Rightarrow>
    error option \<times> 'a tcp_state_scheme" where
  "stack_rx iss p sl src dst i st =
     (case p of
        IcmpProto \<Rightarrow> icmp_RxHandler arp_Resolve sl src dst i st
      | UdpProto \<Rightarrow> udp_RxHandler sl src dst i st
      | TcpProto \<Rightarrow> tcp_RxHandler arp_Resolve iss sl src dst i st)"

section \<open>The invariant\<close>

text \<open>Every route leads over an interface with a device.\<close>

definition routes_ok :: "'a ip_state_scheme \<Rightarrow> bool" where
  "routes_ok st \<longleftrightarrow> (\<forall>r \<in> set (routes st). rt_Iface r < length (ifaces st) \<and> if_dev (ifaces st ! rt_Iface r) \<noteq> None)"

definition layers_ok :: "'a udp_state_scheme \<Rightarrow> bool" where
  "layers_ok st \<longleftrightarrow> net_ok st \<and> ip_protos_ok st \<and> routes_ok st \<and> arp_ok st \<and> udp_ok st"

text \<open>\<open>stack_ok st0 st\<close>: the state is well formed, and has the devices, interfaces, routes and protocols that
  \<open>st0\<close> had.\<close>

definition grounded :: "'a udp_state_scheme \<Rightarrow> 'a udp_state_scheme \<Rightarrow> bool" where
  "grounded st0 st \<longleftrightarrow> layers_ok st \<and> ip_kept st0 st"

definition stack_ok :: "'a tcp_state_scheme \<Rightarrow> 'a tcp_state_scheme \<Rightarrow> bool" where
  "stack_ok st0 st \<longleftrightarrow> grounded st0 st \<and> tcp_ok st"

lemma ip_kept_ok: "ip_kept st st' \<Longrightarrow> routes_ok st' = routes_ok st \<and> ip_protos_ok st' = ip_protos_ok st"
  by (simp add: ip_kept_def net_kept_def routes_ok_def ip_protos_ok_def)

lemma layers_ok_step:
  assumes "layers_ok st" "ip_kept st st'" "net_ok st'" "arp_ok st'" "udp_ok st'"
  shows "layers_ok st'"
  using assms by (simp add: layers_ok_def ip_kept_ok)

section \<open>Sending\<close>

lemma LookupTable_route: "LookupTable dst st = Inr r \<Longrightarrow> r \<in> set (routes st)"
  by (auto simp: LookupTable_eq intro!: last_in_set split: if_splits)

lemma LookupTable_no_panic: "LookupTable dst st \<noteq> Inl Panic"
  by (simp add: LookupTable_eq)

lemma DeviceOutput_no_panic: "fst (DeviceOutput d data t dst st) \<noteq> Some Panic"
  by (auto simp: DeviceOutput_def dev_TxHandler_defs DeviceInputHandler_def file_Write_def Let_def
      split: device.split option.split)

lemma DeviceOutput_caches: "caches (snd (DeviceOutput d data t dst st)) = caches st"
  using DeviceOutput_updates [of d data t dst st] by auto

lemma arp_Resolve_no_panic:
  assumes "if_dev (ifaces st ! i) \<noteq> None"
  shows "fst (arp_Resolve i pa st) \<noteq> Inl Panic"
  using assms by (auto simp: arp_Resolve_def Let_def cacheSelect_Inl split: sum.splits if_splits)

lemma ip_output_arp_ok: "arp_ok st \<Longrightarrow> arp_ok (snd (ip_output arp_Resolve i d nexthop packet st))"
proof -
  assume ok: "arp_ok st"
  obtain r st1 where r: "arp_Resolve i nexthop st = (r, st1)" by force
  then have "arp_ok st1" using arp_Resolve_arp_ok [OF ok, of i nexthop] by simp
  with ok r show ?thesis
    by (cases r) (simp_all add: ip_output_def arp_ok_def DeviceOutput_caches)
qed

lemma ip_output_no_panic:
  assumes "if_dev (ifaces st ! i) \<noteq> None"
  shows "fst (ip_output arp_Resolve i d nexthop packet st) \<noteq> Some Panic"
proof -
  obtain r st1 where r: "arp_Resolve i nexthop st = (r, st1)" by force
  then have "r \<noteq> Inl Panic" using arp_Resolve_no_panic [OF assms, of nexthop] by simp
  with r show ?thesis by (cases r) (simp_all add: ip_output_def DeviceOutput_no_panic)
qed

lemma ip_TxHandler_cases:
  obtains (error) m where "ip_TxHandler resolve proto data src dst st = (Some (Err m), st)"
  | (panic) r where "LookupTable dst st = Inr r" "if_dev (ifaces st ! rt_Iface r) = None"
      "ip_TxHandler resolve proto data src dst st = (Some Panic, st)"
  | (sends) r d nexthop packet x where "LookupTable dst st = Inr r" "if_dev (ifaces st ! rt_Iface r) = Some d"
      "ip_TxHandler resolve proto data src dst st = ip_output resolve (rt_Iface r) d nexthop packet (st\<lparr>ip_id := x\<rparr>)"
proof (cases "src = AddrAny \<and> dst = AddrBroadcast")
  case True
  then show ?thesis by (intro error) (simp add: ip_TxHandler_def)
next
  case no: False
  show ?thesis
  proof (cases "LookupTable dst st")
    case (Inl e)
    then have "e = Err ''routing table entry not found''" by (simp add: LookupTable_eq split: if_splits)
    with Inl no show ?thesis by (intro error) (auto simp: ip_TxHandler_def)
  next
    case (Inr r)
    show ?thesis
    proof (cases "src \<noteq> AddrAny \<and> src \<noteq> if_unicast (ifaces st ! rt_Iface r)")
      case True
      with Inr no show ?thesis by (intro error) (auto simp: ip_TxHandler_def Let_def)
    next
      case src: False
      show ?thesis
      proof (cases "if_dev (ifaces st ! rt_Iface r)")
        case None
        then show ?thesis by (rule panic [OF Inr]) (use no Inr src None in \<open>auto simp: ip_TxHandler_def Let_def\<close>)
      next
        case (Some d)
        show ?thesis
        proof (cases "unat (dev_MTU (devices st ! d)) < HeaderSizeMin + length data")
          case True
          with no Inr src Some show ?thesis by (intro error) (auto simp: ip_TxHandler_def Let_def)
        next
          case False
          show ?thesis
            by (rule sends [OF Inr Some])
               (unfold ip_TxHandler_def Let_def Inr sum.case if_not_P [OF no] if_not_P [OF src] Some option.case
                 if_not_P [OF False] generateId_def prod.case case_prod_beta fst_conv snd_conv, rule refl)
        qed
      qed
    qed
  qed
qed

lemma ip_TxHandler_arp_ok:
  assumes "arp_ok st"
  shows "arp_ok (snd (ip_TxHandler arp_Resolve proto data src dst st))"
proof (rule ip_TxHandler_cases [of arp_Resolve proto data src dst st], goal_cases)
  case (3 r d nexthop packet x)
  have "arp_ok (st\<lparr>ip_id := x\<rparr>)" using assms by (simp add: arp_ok_def)
  from ip_output_arp_ok [OF this] 3 show ?case by simp
qed (use assms in simp_all)

lemma ip_TxHandler_no_panic:
  assumes "routes_ok st"
  shows "fst (ip_TxHandler arp_Resolve proto data src dst st) \<noteq> Some Panic"
proof (rule ip_TxHandler_cases [of arp_Resolve proto data src dst st], goal_cases)
  case (2 r)
  then show ?case using LookupTable_route [of dst st r] assms by (auto simp: routes_ok_def)
next
  case (3 r d nexthop packet x)
  then have "fst (ip_output arp_Resolve (rt_Iface r) d nexthop packet (st\<lparr>ip_id := x\<rparr>)) \<noteq> Some Panic"
    by (intro ip_output_no_panic) simp
  with 3 show ?case by simp
qed simp

lemma ip_TxHandler_grounded:
  assumes "grounded st0 st"
  shows "sound (grounded st0) (ip_TxHandler arp_Resolve proto data src dst st)"
proof -
  let ?st' = "snd (ip_TxHandler arp_Resolve proto data src dst st)"
  have l: "layers_ok st" and k: "ip_kept st0 st" using assms by (simp_all add: grounded_def)
  have kept: "ip_kept st ?st'" by (rule arp_resolver.TxHandler_kept)
  have "layers_ok ?st'"
  proof (rule layers_ok_step [OF l kept])
    show "net_ok ?st'" using l by (simp add: layers_ok_def arp_resolver.TxHandler_net_ok)
    show "arp_ok ?st'" using l by (simp add: layers_ok_def ip_TxHandler_arp_ok)
    have "arp_state.more ?st' = arp_state.more st" by (rule arp_upper.TxHandler_upper)
    from udp_ok_cong [OF udp_more [OF this]] show "udp_ok ?st'" using l by (simp add: layers_ok_def)
  qed
  with l ip_kept_trans [OF k kept] show ?thesis
    by (simp add: sound_def grounded_def layers_ok_def ip_TxHandler_no_panic)
qed

text \<open>The layers below TCP meet what the operations of TCP ask for.\<close>

lemma grounded_cong:
  fixes st st' :: "'a udp_state_scheme"
  assumes "udp_state.truncate st' = udp_state.truncate st"
  shows "grounded st0 st' = grounded st0 st"
  using assms
  by (cases st; cases st')
     (simp add: grounded_def ip_kept_def net_kept_def layers_ok_def net_ok_def dev_ok_def ip_protos_ok_def
        routes_ok_def arp_ok_def udp_ok_def udp_state.defs)

interpretation layers: below_tcp arp_Resolve "grounded st0" for st0 :: "'a tcp_state_scheme"
proof (unfold_locales, goal_cases)
  case (6 st proto data src dst)
  then show ?case by (rule ip_TxHandler_grounded)
qed (rule grounded_cong, simp add: udp_state.defs)+

section \<open>Steps below TCP\<close>

text \<open>A step of the layers below TCP keeps their invariant and does not reach TCP's variables.\<close>

definition below_step :: "'a tcp_state_scheme \<Rightarrow> 'a tcp_state_scheme \<Rightarrow> bool" where
  "below_step st st' \<longleftrightarrow>
     (layers_ok st \<longrightarrow> layers_ok st') \<and> ip_kept st st' \<and> udp_state.more st' = udp_state.more st"

lemma below_step_refl [simp]: "below_step st st"
  by (simp add: below_step_def)

lemma below_step_trans: "below_step a b \<Longrightarrow> below_step b c \<Longrightarrow> below_step a c"
  by (auto simp: below_step_def intro: ip_kept_trans)

lemma tcp_ok_more:
  fixes st st' :: "'a tcp_state_scheme"
  assumes "udp_state.more st' = udp_state.more st"
  shows "tcp_ok st' = tcp_ok st"
  using tcp_more(1,2) [OF assms] by (simp add: tcp_ok_def)

lemma below_step_stack_ok: "below_step st st' \<Longrightarrow> stack_ok st0 st \<Longrightarrow> stack_ok st0 st'"
  using tcp_ok_more [of st' st] ip_kept_trans [of st0 st st']
  by (simp add: below_step_def stack_ok_def grounded_def)

lemma arp_more_udp_more:
  fixes st st' :: "'a udp_state_scheme"
  assumes "arp_state.more st' = arp_state.more st"
  shows "udp_state.more st' = udp_state.more st"
  using assms by (cases st; cases st'; simp)

lemma ip_TxHandler_below: "below_step st (snd (ip_TxHandler arp_Resolve proto data src dst st))"
  using ip_TxHandler_grounded [of st st proto data src dst] arp_more_udp_more [OF arp_upper.TxHandler_upper]
    arp_resolver.TxHandler_kept
  by (auto simp: below_step_def sound_def grounded_def)

text \<open>A step on the devices and the channels, or on the cache, that keeps the registries.\<close>

lemma below_step_net:
  assumes "st' = st\<lparr>devices := devs, protoBuffers := bufs\<rparr>" "net_kept st st'" "net_ok st \<Longrightarrow> net_ok st'"
  shows "below_step st st'"
proof -
  have "ip_kept st st'" "arp_ok st' = arp_ok st" "udp_ok st' = udp_ok st" "udp_state.more st' = udp_state.more st"
    using assms(2) by (simp_all add: assms(1) ip_kept_def arp_ok_def udp_ok_def)
  then show ?thesis using layers_ok_step [of st st'] assms(3) by (simp add: below_step_def layers_ok_def)
qed

lemma DeviceInputHandler_below: "below_step st (snd (DeviceInputHandler t sl d st))"
proof -
  obtain bufs where "snd (DeviceInputHandler t sl d st) = st\<lparr>protoBuffers := bufs\<rparr>"
    using DeviceInputHandler_updates by blast
  then show ?thesis
    using DeviceInputHandler_kept [of st t sl d] DeviceInputHandler_net_ok [of st t sl d]
    by (intro below_step_net [where devs = "devices st" and bufs = bufs]) simp_all
qed

lemma ether_Rx_below: "below_step st (snd (ether_Rx ev d st))"
proof -
  have "\<exists>devs bufs. snd (ether_Rx ev d st) = st\<lparr>devices := devs, protoBuffers := bufs\<rparr>"
    by (rule exI [of _ "devices (snd (ether_Rx ev d st))"], rule exI [of _ "protoBuffers (snd (ether_Rx ev d st))"])
       (simp add: ether_Rx_def DeviceInputHandler_def Let_def
          split: device.split read_event.split sum.split prod.split option.split)
  then obtain devs bufs where "snd (ether_Rx ev d st) = st\<lparr>devices := devs, protoBuffers := bufs\<rparr>" by blast
  then show ?thesis using ether_Rx_kept ether_Rx_net_ok by (rule below_step_net)
qed

text \<open>Taking the first entry from a channel.\<close>

lemma take_buffer_below:
  assumes "protoBuffers st ! k = pb # rest" "k < length (protoBuffers st)"
  shows "below_step st (st\<lparr>protoBuffers := (protoBuffers st)[k := rest]\<rparr>)"
proof (rule below_step_net)
  show "st\<lparr>protoBuffers := (protoBuffers st)[k := rest]\<rparr> =
      st\<lparr>devices := devices st, protoBuffers := (protoBuffers st)[k := rest]\<rparr>" by simp
  show "net_kept st (st\<lparr>protoBuffers := (protoBuffers st)[k := rest]\<rparr>)"
    by (rule net_kept_set_buffers) simp
  assume ok: "net_ok st"
  have "length rest \<le> ProtoBufferSize" using ok assms nth_mem [OF assms(2)] by (fastforce simp: net_ok_def)
  with ok show "net_ok (st\<lparr>protoBuffers := (protoBuffers st)[k := rest]\<rparr>)"
    by (auto simp: net_ok_def dev_ok_def dest!: set_update_subset_insert [THEN subsetD])
qed

section \<open>The handlers\<close>

lemma icmp_RxHandler_below: "below_step st (snd (icmp_RxHandler arp_Resolve sl src dst i st))"
  by (auto simp: icmp_RxHandler_def icmp_TxHandler_def Let_def ip_TxHandler_below split: sum.split prod.split)

lemma icmp_RxHandler_no_panic:
  assumes "routes_ok st"
  shows "fst (icmp_RxHandler arp_Resolve sl src dst i st) \<noteq> Some Panic"
  using ip_TxHandler_no_panic [OF assms]
  by (auto simp: icmp_RxHandler_def icmp_TxHandler_def icmp_data2header_def Let_def split: sum.splits prod.split if_splits)

lemma udp_RxHandler_below:
  fixes st :: "'a tcp_state_scheme"
  shows "below_step st (snd (udp_RxHandler sl src dst i st))"
proof -
  have "\<exists>ps. snd (udp_RxHandler sl src dst i st) = st\<lparr>udp_store := ps\<rparr>"
    by (rule exI [of _ "udp_store (snd (udp_RxHandler sl src dst i st))"])
       (simp add: udp_RxHandler_def Let_def split: sum.split prod.split option.split)
  then obtain ps where ps: "snd (udp_RxHandler sl src dst i st) = st\<lparr>udp_store := ps\<rparr>" by blast
  have "udp_ok (snd (udp_RxHandler sl src dst i st))" if "udp_ok st" using udp_RxHandler_ok [OF that] .
  then show ?thesis
    unfolding below_step_def ps
    by (auto simp: layers_ok_def net_ok_def dev_ok_def ip_protos_ok_def routes_ok_def arp_ok_def ip_kept_def
        net_kept_def list.rel_refl)
qed

lemma udp_RxHandler_no_panic: "fst (udp_RxHandler sl src dst i st) \<noteq> Some Panic"
  by (auto simp: udp_RxHandler_def udp_data2header_def Let_def split: sum.splits prod.split option.split if_splits)

text \<open>What makes TCP's handler panic.\<close>

definition options_beyond :: "bytes \<Rightarrow> u32 \<Rightarrow> u32 \<Rightarrow> bool" where
  "options_beyond data src dst \<longleftrightarrow>
     (case tcp_data2header data src dst of
        Inl e \<Rightarrow> False
      | Inr (hdr, payload) \<Rightarrow>
          length payload < unat (push_bit 2 (drop_bit 4 (th_offset hdr)) - of_nat TcpHeaderSizeMin :: u8))"

lemma stack_rx_panic:
  assumes "stack_ok st0 st" "fst (stack_rx iss p sl src dst i st) = Some Panic"
  shows "p = TcpProto \<and> options_beyond (slice_bytes st sl) src dst"
proof (cases p)
  case TcpProto
  with assms layers.RxHandler_sound(2) [of st0 st iss sl src dst i]
  show ?thesis by (auto simp: stack_rx_def stack_ok_def options_beyond_def)
qed (use assms icmp_RxHandler_no_panic [of st sl src dst i] udp_RxHandler_no_panic [of sl src dst i st] in
    \<open>auto simp: stack_rx_def stack_ok_def grounded_def layers_ok_def\<close>)

section \<open>Turns\<close>

lemma ip_dispatch_ok:
  assumes "\<And>p sl src dst i st. Q st \<Longrightarrow> Q (snd (rx p sl src dst i st))"
  shows "Q st \<Longrightarrow> Q (snd (ip_dispatch rx ps t sl src dst i st))"
proof (induction ps arbitrary: st)
  case (Cons p ps)
  obtain r st1 where r: "rx p sl src dst i st = (r, st1)" by force
  then have "Q st1" using assms [OF Cons.prems, of p sl src dst i] by simp
  with Cons r show ?case by (cases r) (auto split: error.split)
qed simp

lemma arp_send_below:
  fixes st :: "'a tcp_state_scheme"
  shows "below_step st (snd (arp_send op tha tpa dst i st))"
proof -
  have "\<exists>devs bufs. snd (arp_send op tha tpa dst i st) = st\<lparr>devices := devs, protoBuffers := bufs\<rparr>"
  proof -
    have "\<exists>devs bufs. st = st\<lparr>devices := devs, protoBuffers := bufs\<rparr>"
      by (rule exI [of _ "devices st"], rule exI [of _ "protoBuffers st"]) simp
    then show ?thesis
      using DeviceOutput_updates by (auto simp: arp_send_def Let_def split: option.split device.split)
  qed
  then obtain devs bufs where eq: "snd (arp_send op tha tpa dst i st) = st\<lparr>devices := devs, protoBuffers := bufs\<rparr>"
    by blast
  have kept: "net_kept st (snd (arp_send op tha tpa dst i st))"
    using arp_send_ip_kept [of st op tha tpa dst i] by (simp add: ip_kept_def)
  show ?thesis by (rule below_step_net [OF eq kept]) (rule arp_send_net_ok)
qed

lemma set_caches_below:
  fixes st :: "'a tcp_state_scheme"
  assumes "st' = st\<lparr>caches := cs\<rparr>" "arp_ok st \<Longrightarrow> arp_ok st'"
  shows "below_step st st'"
  using assms by (auto simp: below_step_def layers_ok_def net_ok_def dev_ok_def ip_protos_ok_def routes_ok_def udp_ok_def)

lemma arp_Rx_packet_below:
  fixes st :: "'a tcp_state_scheme"
  shows "below_step st (snd (arp_Rx_packet pb st))"
proof -
  define h where "h = (case arp_data2header (slice_bytes st (pb_data pb)) of
                   Inl e \<Rightarrow> arp_ether_zero | Inr h \<Rightarrow> h)"
  obtain m st1 where u: "cacheUpdate (ah_spa h) (ah_sha h) st = (m, st1)" by force
  obtain cs where cs: "st1 = st\<lparr>caches := cs\<rparr>" using cacheUpdate_updates [of "ah_spa h" "ah_sha h" st] u by auto
  have one: "below_step st st1"
    by (rule set_caches_below [OF cs]) (use cacheUpdate_arp_ok [of st "ah_spa h" "ah_sha h"] u in simp)
  obtain cs' where cs': "arp_learn (ah_spa h) (ah_sha h) st = st\<lparr>caches := cs'\<rparr>"
    using arp_learn_updates by blast
  have two: "below_step st (arp_learn (ah_spa h) (ah_sha h) st)"
    by (rule set_caches_below [OF cs']) (rule arp_learn_spec(1))
  have l: "(if \<not> m then cacheInsert (ah_spa h) (ah_sha h) st1 else st1) = arp_learn (ah_spa h) (ah_sha h) st"
    using u by (simp add: arp_learn_def)
  show ?thesis
    using one two below_step_trans [OF two arp_send_below]
    unfolding arp_Rx_packet_def Let_def h_def [symmetric] u prod.case l arp_Reply_def
    by (auto split: sum.split)
qed

lemma arp_timer_below:
  fixes st :: "'a tcp_state_scheme"
  shows "below_step st (arp_timer st)"
proof -
  have "arp_timer_loop k cs s = s\<lparr>caches := caches (arp_timer_loop k cs s)\<rparr>" for k cs and s :: "'a tcp_state_scheme"
  proof (induction cs arbitrary: k s)
    case (Cons c cs)
    define s1 where "s1 = (if ce_state c \<noteq> CacheFree \<and> ce_timeval c + cacheTimeout < now s
        then snd (cacheDelete (int k) s) else s)"
    have "s1 = s\<lparr>caches := caches s1\<rparr>" by (simp add: s1_def cacheDelete_def)
    with Cons.IH [of "k + 1" s1] show ?case
      unfolding arp_timer_loop.simps s1_def [symmetric] by (metis (no_types) arp_state.update_convs(1) arp_state.surjective arp_state.ext_inject)
  qed simp
  then have "arp_timer st = st\<lparr>caches := caches (arp_timer st)\<rparr>" by (simp add: arp_timer_def)
  then show ?thesis by (rule set_caches_below) (rule arp_timer_arp_ok)
qed

text \<open>A condition that the steps below TCP, TCP's handler and TCP's timer keep is kept by every turn.\<close>

locale turn_invariant =
  fixes Q :: "'a tcp_state_scheme \<Rightarrow> bool"
  assumes Q_below: "below_step st st' \<Longrightarrow> Q st \<Longrightarrow> Q st'"
    and Q_tcp: "Q st \<Longrightarrow> Q (snd (tcp_RxHandler arp_Resolve iss sl src dst i st))"
    and Q_timer: "Q st \<Longrightarrow> Q (snd (tcpTimer arp_Resolve st))"
begin

lemma stack_rx_Q: "Q st \<Longrightarrow> Q (snd (stack_rx iss p sl src dst i st))"
  by (cases p) (simp_all add: stack_rx_def Q_tcp Q_below [OF icmp_RxHandler_below] Q_below [OF udp_RxHandler_below])

lemma ip_Rx_packet_Q: "Q st \<Longrightarrow> Q (snd (ip_Rx_packet (stack_rx iss) pb st))"
  by (simp add: ip_Rx_packet_def Let_def stack_rx_Q ip_dispatch_ok split: sum.split prod.split option.split)

lemma take_buffer_Q:
  "k < length (protoBuffers st) \<Longrightarrow> Q st \<Longrightarrow> protoBuffers st ! k = pb # rest \<Longrightarrow>
     Q (st\<lparr>protoBuffers := (protoBuffers st)[k := rest]\<rparr>)"
  by (rule Q_below [OF take_buffer_below])

lemma ip_RxHandler_Q:
  "k < length (protoBuffers st) \<Longrightarrow> Q st \<Longrightarrow> Q (snd (ip_RxHandler (stack_rx iss) k st))"
  using take_buffer_Q [of k st] by (simp add: ip_RxHandler_def ip_Rx_packet_Q split: list.split)

lemma arp_RxHandler_Q: "k < length (protoBuffers st) \<Longrightarrow> Q st \<Longrightarrow> Q (snd (arp_RxHandler k st))"
  using take_buffer_Q [of k st] by (simp add: arp_RxHandler_def Q_below [OF arp_Rx_packet_below] split: list.split)

end

lemma below_step_grounded: "below_step st st' \<Longrightarrow> grounded st0 st \<Longrightarrow> grounded st0 st'"
  using ip_kept_trans [of st0 st st'] by (simp add: below_step_def grounded_def)

interpretation turns_grounded: turn_invariant "grounded st0" for st0 :: "'a tcp_state_scheme"
  by unfold_locales (rule below_step_grounded layers.RxHandler_sound(1) layers.tcpTimer_P; assumption)+

interpretation turns_ok: turn_invariant "stack_ok st0" for st0 :: "'a tcp_state_scheme"
proof (unfold_locales, goal_cases)
  case (1 st st')
  then show ?case by (rule below_step_stack_ok)
next
  case (2 st iss sl src dst i)
  then show ?case
    by (simp add: stack_ok_def turns_grounded.Q_tcp arp_tcp.tcp_RxHandler_ok)
next
  case (3 st)
  then show ?case
    by (simp add: stack_ok_def turns_grounded.Q_timer arp_tcp.tcpTimer_ok)
qed

section \<open>Calls of the user\<close>

text \<open>A step on UDP's sockets only.\<close>

lemma udp_vars_below:
  fixes st st' :: "'a tcp_state_scheme"
  assumes "st' = st\<lparr>udp_store := ps, udp_pcbs := ks\<rparr>" "udp_ok st \<Longrightarrow> udp_ok st'"
  shows "below_step st st'"
  using assms
  by (auto simp: below_step_def layers_ok_def net_ok_def dev_ok_def ip_protos_ok_def routes_ok_def arp_ok_def
      ip_kept_def net_kept_def list.rel_refl)

lemma udp_calls_below:
  fixes st :: "'a tcp_state_scheme"
  shows "below_step st (snd (udp_Open st))" "below_step st (snd (udp_Close k st))"
    "below_step st (snd (udp_Bind k e st))"
    "k < length (udp_store st) \<Longrightarrow> below_step st (snd (udp_Listen block k st))"
proof -
  show "below_step st (snd (udp_Open st))"
    by (rule udp_vars_below [OF _ udp_Open_ok]) (simp_all add: udp_Open_def Let_def)
  show "below_step st (snd (udp_Close k st))"
    by (rule udp_vars_below [where ps = "udp_store st" and ks = "udp_pcbs (snd (udp_Close k st))", OF _ udp_Close_ok])
       (simp_all add: udp_Close_def split: option.split)
  show "below_step st (snd (udp_Bind k e st))"
    by (rule udp_vars_below [where ps = "udp_store (snd (udp_Bind k e st))" and ks = "udp_pcbs st", OF _ udp_Bind_ok])
       (simp_all add: udp_Bind_def)
  show "k < length (udp_store st) \<Longrightarrow> below_step st (snd (udp_Listen block k st))"
    by (rule udp_vars_below [where ps = "udp_store (snd (udp_Listen block k st))" and ks = "udp_pcbs st", OF _ udp_Listen_ok])
       (simp_all add: udp_Listen_def split: list.split)
qed

lemma udp_TxHandler_below: "below_step st (snd (udp_TxHandler arp_Resolve src dst data st))"
  by (simp add: udp_TxHandler_def Let_def case_prod_beta ip_TxHandler_below)

lemma udp_Send_below:
  assumes "udp_Send arp_Resolve k data dst st = Some (err, st')"
  shows "below_step st st'"
proof -
  have tx: "below_step st st'" if "udp_TxHandler arp_Resolve src dst data st = (err, st')" for src
    using udp_TxHandler_below [of st src dst data] that by simp
  show ?thesis
    using assms unfolding udp_Send_def Let_def
    by (auto split: sum.splits option.splits if_splits simp del: not_None_eq intro: tx)
qed

lemma icmp_TxHandler_below: "below_step st (snd (icmp_TxHandler arp_Resolve t code values data src dst st))"
  by (simp add: icmp_TxHandler_def Let_def case_prod_beta ip_TxHandler_below)

text \<open>A call of TCP's user that waits lets steps happen meanwhile that keep the invariant and leave TCP's
  variables alone.\<close>

lemma tcp_calls_stack_ok:
  assumes "stack_ok st0 st" "k < length (tcp_store st)"
    and "waits wait" "\<And>s. grounded st0 s \<Longrightarrow> grounded st0 (wait s)"
  shows "stack_ok st0 (tcp_Open arp_Resolve wait iss k ch e isActive timeout st)"
    "stack_ok st0 (tcp_Send arp_Resolve wait k ch data st)" "stack_ok st0 (tcp_Receive k ch buf n st)"
    "stack_ok st0 (tcp_Close arp_Resolve wait k ch st)" "stack_ok st0 (snd (tcp_Abort arp_Resolve k st))"
    "stack_ok st0 (snd (Newpcb e st))" "stack_ok st0 (snd (Deletepcb k st))"
proof -
  have g: "grounded st0 st" and t: "tcp_ok st" using assms(1) by (simp_all add: stack_ok_def)
  note to = tcp_ok_to [OF t assms(2)] and w = waitsD [OF assms(3)]
  show "stack_ok st0 (tcp_Open arp_Resolve wait iss k ch e isActive timeout st)"
    using layers.tcp_Open_P [OF g assms(4)] to [OF arp_tcp.tcp_Open_to [OF w]] by (simp add: stack_ok_def)
  show "stack_ok st0 (tcp_Send arp_Resolve wait k ch data st)"
    using layers.tcp_Send_P [OF g assms(4)] to [OF arp_tcp.tcp_Send_to [OF w]] by (simp add: stack_ok_def)
  show "stack_ok st0 (tcp_Receive k ch buf n st)"
    using layers.tcp_Receive_P [OF g] to [OF arp_tcp.tcp_Receive_to] by (simp add: stack_ok_def)
  show "stack_ok st0 (tcp_Close arp_Resolve wait k ch st)"
    using layers.tcp_Close_P [OF g assms(4)] to [OF arp_tcp.tcp_Close_to [OF w]] by (simp add: stack_ok_def)
  show "stack_ok st0 (snd (tcp_Abort arp_Resolve k st))"
    using layers.tcp_Abort_sound [OF g] to [OF arp_tcp.tcp_Abort_to] by (simp add: stack_ok_def sound_def)
  show "stack_ok st0 (snd (Newpcb e st))" "stack_ok st0 (snd (Deletepcb k st))"
    using layers.Newpcb_P [OF g] layers.Deletepcb_P [OF g] Newpcb_tcp_ok [OF t] Deletepcb_tcp_ok [OF t]
    by (simp_all add: stack_ok_def)
qed

section \<open>Where a turn of IP ends badly\<close>

lemma ip_Rx_packet_panic:
  assumes "stack_ok st0 st" "fst (ip_Rx_packet (stack_rx iss) pb st) = Some Panic"
  shows "\<exists>hdr payload. ip_data2header (slice_bytes st (pb_data pb)) = Inr (hdr, payload) \<and>
    ih_proto hdr = ProtoTCP \<and> options_beyond payload (ih_src hdr) (ih_dst hdr)"
proof -
  obtain hdr payload i where h: "ip_data2header (slice_bytes st (pb_data pb)) = Inr (hdr, payload)"
    and disp: "fst (ip_dispatch (stack_rx iss) (ip_protos st) (ih_proto hdr)
        (slice_from (length (slice_bytes st (pb_data pb)) - length payload) (pb_data pb))
        (ih_src hdr) (ih_dst hdr) i st) = Some Panic"
    using assms(2) by (auto simp: ip_Rx_packet_def Let_def split: sum.splits prod.splits option.splits if_splits)
  have d: "distinct (map ip_upper_Type (ip_protos st))"
    using assms(1) by (simp add: stack_ok_def grounded_def layers_ok_def ip_protos_ok_def)
  have "ih_proto hdr \<in> set (map ip_upper_Type (ip_protos st))"
  proof (rule ccontr)
    assume "\<not> ?thesis"
    then show False using disp by (simp add: ip_dispatch_none)
  qed
  then obtain p where p: "p \<in> set (ip_protos st)" "ih_proto hdr = ip_upper_Type p" by auto
  define sl where "sl = slice_from (length (slice_bytes st (pb_data pb)) - length payload) (pb_data pb)"
  have sl: "slice_bytes st sl = payload"
    unfolding sl_def slice_bytes_from by (rule ip_payload_slice [OF h])
  obtain r st1 where r: "stack_rx iss p sl (ih_src hdr) (ih_dst hdr) i st = (r, st1)" by force
  have "r = Some Panic"
    using disp ip_dispatch_eq [OF d p(1), of "stack_rx iss" sl "ih_src hdr" "ih_dst hdr" i st]
    by (auto simp: sl_def [symmetric] p(2) r split: option.splits error.splits)
  with r stack_rx_panic [OF assms(1), of iss p sl "ih_src hdr" "ih_dst hdr" i] p(2) h sl
  show ?thesis by auto
qed

end
