(* ===== verification/Tap.thy ===== *)
theory Tap
  imports Device
begin

text \<open>
  The tap driver, the package \<open>raw\<close> (\<open>pkg/device/raw\<close>), and the part of \<open>EtherInit\<close> that calls it. The
  operating system is a parameter: the functions \<open>open\<close>, \<open>socket\<close>, \<open>ioctl\<close> and \<open>close\<close> on a state of its
  own. A process keeps the descriptors it holds open. A request of \<open>ioctl\<close> is 40 bytes of memory, in the
  layout that Go gives the structs on a little-endian machine.
\<close>

section \<open>The operating system\<close>

record 'k system =
  os_open :: "string \<Rightarrow> 'k \<Rightarrow> (error + nat) \<times> 'k"
  os_socket :: "'k \<Rightarrow> (error + nat) \<times> 'k"
  os_ioctl :: "nat \<Rightarrow> u32 \<Rightarrow> bytes \<Rightarrow> 'k \<Rightarrow> (error option \<times> bytes) \<times> 'k"
  os_close :: "nat \<Rightarrow> 'k \<Rightarrow> 'k"

record 'k process =
  fds :: "nat list"
  kern :: 'k

definition sys_open :: "'k system \<Rightarrow> string \<Rightarrow> 'k process \<Rightarrow> (error + nat) \<times> 'k process" where
  "sys_open os path p =
     (case os_open os path (kern p) of
        (Inl e, k) \<Rightarrow> (Inl e, p\<lparr>kern := k\<rparr>)
      | (Inr fd, k) \<Rightarrow> (Inr fd, p\<lparr>fds := fd # fds p, kern := k\<rparr>))"

definition sys_socket :: "'k system \<Rightarrow> 'k process \<Rightarrow> (error + nat) \<times> 'k process" where
  "sys_socket os p =
     (case os_socket os (kern p) of
        (Inl e, k) \<Rightarrow> (Inl e, p\<lparr>kern := k\<rparr>)
      | (Inr fd, k) \<Rightarrow> (Inr fd, p\<lparr>fds := fd # fds p, kern := k\<rparr>))"

definition sys_ioctl ::
    "'k system \<Rightarrow> nat \<Rightarrow> u32 \<Rightarrow> bytes \<Rightarrow> 'k process \<Rightarrow> (error option \<times> bytes) \<times> 'k process" where
  "sys_ioctl os fd req mem p =
     (case os_ioctl os fd req mem (kern p) of (r, k) \<Rightarrow> (r, p\<lparr>kern := k\<rparr>))"

definition sys_close :: "'k system \<Rightarrow> nat \<Rightarrow> 'k process \<Rightarrow> 'k process" where
  "sys_close os fd p = p\<lparr>fds := remove1 fd (fds p), kern := os_close os fd (kern p)\<rparr>"

text \<open>The numbers of \<open>syscall\<close> on Linux.\<close>

definition IFNAMSIZ :: nat where "IFNAMSIZ = 16"
definition SYS_TUNSETIFF :: u32 where "SYS_TUNSETIFF = 0x400454ca"
definition SYS_SIOCGIFFLAGS :: u32 where "SYS_SIOCGIFFLAGS = 0x8913"
definition SYS_SIOCSIFFLAGS :: u32 where "SYS_SIOCSIFFLAGS = 0x8914"
definition SYS_SIOCGIFHWADDR :: u32 where "SYS_SIOCGIFHWADDR = 0x8927"
definition IFF_UP :: u16 where "IFF_UP = 0x0001"
definition IFF_TAP :: u16 where "IFF_TAP = 0x0002"
definition IFF_RUNNING :: u16 where "IFF_RUNNING = 0x0040"
definition IFF_NO_PI :: u16 where "IFF_NO_PI = 0x1000"

section \<open>Requests\<close>

record ifreq =
  ifr_name :: bytes
  ifr_flags :: u16
  ifr_pad :: bytes

definition ifreq_zero :: ifreq where
  "ifreq_zero = \<lparr>ifr_name = replicate IFNAMSIZ 0, ifr_flags = 0, ifr_pad = replicate 22 0\<rparr>"

definition ifreq_mem :: "ifreq \<Rightarrow> bytes" where
  "ifreq_mem r = ifr_name r @ [lo8 (ifr_flags r), hi8 (ifr_flags r)] @ ifr_pad r"

definition mem_ifreq :: "bytes \<Rightarrow> ifreq" where
  "mem_ifreq mem = \<lparr>ifr_name = take IFNAMSIZ mem, ifr_flags = join16 (mem ! 17) (mem ! 16), ifr_pad = drop 18 mem\<rparr>"

record sockaddr =
  sa_family :: u16
  sa_addr :: bytes

record ifreq_hw =
  hw_name :: bytes
  hw_addr :: sockaddr
  hw_pad :: bytes

definition ifreq_hw_zero :: ifreq_hw where
  "ifreq_hw_zero = \<lparr>hw_name = replicate IFNAMSIZ 0,
     hw_addr = \<lparr>sa_family = 0, sa_addr = replicate 14 0\<rparr>, hw_pad = replicate 8 0\<rparr>"

definition ifreq_hw_mem :: "ifreq_hw \<Rightarrow> bytes" where
  "ifreq_hw_mem r = hw_name r @ [lo8 (sa_family (hw_addr r)), hi8 (sa_family (hw_addr r))] @
     sa_addr (hw_addr r) @ hw_pad r"

definition mem_ifreq_hw :: "bytes \<Rightarrow> ifreq_hw" where
  "mem_ifreq_hw mem = \<lparr>hw_name = take IFNAMSIZ mem,
     hw_addr = \<lparr>sa_family = join16 (mem ! 17) (mem ! 16), sa_addr = take 14 (drop 18 mem)\<rparr>, hw_pad = drop 32 mem\<rparr>"

text \<open>The bytes of a string, and back.\<close>

definition string_bytes :: "string \<Rightarrow> bytes" where
  "string_bytes s = map of_char s"

definition bytes_string :: "bytes \<Rightarrow> string" where
  "bytes_string bs = map (\<lambda>b. char_of (unat b)) bs"

text \<open>\<open>copy(ifr.name[:IFNAMSIZ-1], []byte(name))\<close>.\<close>

definition copy_name :: "string \<Rightarrow> bytes \<Rightarrow> bytes" where
  "copy_name name field =
     (let n = min (length name) (IFNAMSIZ - 1) in take n (string_bytes name) @ drop n field)"

text \<open>\<open>bytes.IndexByte\<close>; \<open>None\<close> is -1.\<close>

fun IndexByte :: "bytes \<Rightarrow> byte \<Rightarrow> nat option" where
  "IndexByte [] c = None"
| "IndexByte (b # bs) c = (if b = c then Some 0 else map_option Suc (IndexByte bs c))"

text \<open>A request on a control socket of its own, which is closed when the function returns.\<close>

definition with_socket ::
    "'k system \<Rightarrow> (nat \<Rightarrow> 'k process \<Rightarrow> (error + 'r) \<times> 'k process) \<Rightarrow> 'k process \<Rightarrow> (error + 'r) \<times> 'k process" where
  "with_socket os f p =
     (case sys_socket os p of
        (Inl e, p1) \<Rightarrow> (Inl e, p1)
      | (Inr soc, p1) \<Rightarrow> (case f soc p1 of (r, p2) \<Rightarrow> (r, sys_close os soc p2)))"

definition TUNSETIFF :: "'k system \<Rightarrow> nat \<Rightarrow> string \<Rightarrow> u16 \<Rightarrow> 'k process \<Rightarrow> (error + string) \<times> 'k process" where
  "TUNSETIFF os fd name flag p =
     (let ifr = ifreq_zero\<lparr>ifr_flags := flag, ifr_name := copy_name name (ifr_name ifreq_zero)\<rparr>
      in case sys_ioctl os fd SYS_TUNSETIFF (ifreq_mem ifr) p of
           ((Some e, mem), p1) \<Rightarrow> (Inl e, p1)
         | ((None, mem), p1) \<Rightarrow>
             (case IndexByte (ifr_name (mem_ifreq mem)) 0 of
                None \<Rightarrow> (Inl Panic, p1)
              | Some n \<Rightarrow> (Inr (bytes_string (take n (ifr_name (mem_ifreq mem)))), p1)))"

definition SIOCGIFFLAGS :: "'k system \<Rightarrow> string \<Rightarrow> 'k process \<Rightarrow> (error + u16) \<times> 'k process" where
  "SIOCGIFFLAGS os name = with_socket os (\<lambda>soc p.
     (let ifr = ifreq_zero\<lparr>ifr_name := copy_name name (ifr_name ifreq_zero)\<rparr>
      in case sys_ioctl os soc SYS_SIOCGIFFLAGS (ifreq_mem ifr) p of
           ((Some e, mem), p1) \<Rightarrow> (Inl e, p1)
         | ((None, mem), p1) \<Rightarrow> (Inr (ifr_flags (mem_ifreq mem)), p1)))"

definition SIOCSIFFLAGS :: "'k system \<Rightarrow> string \<Rightarrow> u16 \<Rightarrow> 'k process \<Rightarrow> (error + unit) \<times> 'k process" where
  "SIOCSIFFLAGS os name flag = with_socket os (\<lambda>soc p.
     (let ifr = ifreq_zero\<lparr>ifr_name := copy_name name (ifr_name ifreq_zero), ifr_flags := flag\<rparr>
      in case sys_ioctl os soc SYS_SIOCSIFFLAGS (ifreq_mem ifr) p of
           ((Some e, mem), p1) \<Rightarrow> (Inl e, p1)
         | ((None, mem), p1) \<Rightarrow> (Inr (), p1)))"

definition SIOCGIFHWADDR :: "'k system \<Rightarrow> string \<Rightarrow> 'k process \<Rightarrow> (error + bytes) \<times> 'k process" where
  "SIOCGIFHWADDR os name = with_socket os (\<lambda>soc p.
     (let ifr = ifreq_hw_zero\<lparr>hw_name := copy_name name (hw_name ifreq_hw_zero)\<rparr>
      in case sys_ioctl os soc SYS_SIOCGIFHWADDR (ifreq_hw_mem ifr) p of
           ((Some e, mem), p1) \<Rightarrow> (Inl e, p1)
         | ((None, mem), p1) \<Rightarrow> (Inr (sa_addr (hw_addr (mem_ifreq_hw mem))), p1)))"

section \<open>Opening the device\<close>

definition cloneDevice :: string where "cloneDevice = ''/dev/net/tun''"

definition OpenTap :: "'k system \<Rightarrow> string \<Rightarrow> 'k process \<Rightarrow> (error + string \<times> nat) \<times> 'k process" where
  "OpenTap os name p =
     (if length name \<ge> IFNAMSIZ then (Inl (Err ''device name is too long''), p)
      else
       (case sys_open os cloneDevice p of
          (Inl e, p1) \<Rightarrow> (Inl e, p1)
        | (Inr file, p1) \<Rightarrow>
            (case TUNSETIFF os file name (IFF_TAP OR IFF_NO_PI) p1 of
               (Inl e, p2) \<Rightarrow> (Inl e, p2)
             | (Inr name', p2) \<Rightarrow>
                 (case SIOCGIFFLAGS os name' p2 of
                    (Inl e, p3) \<Rightarrow> (Inl e, p3)
                  | (Inr flags, p3) \<Rightarrow>
                      (case SIOCSIFFLAGS os name' (flags OR (IFF_UP OR IFF_RUNNING)) p3 of
                         (Inl e, p4) \<Rightarrow> (Inl e, p4)
                       | (Inr u, p4) \<Rightarrow> (Inr (name', file), p4))))))"

definition GetAddr :: "'k system \<Rightarrow> string \<Rightarrow> 'k process \<Rightarrow> (error + bytes) \<times> 'k process" where
  "GetAddr os name p =
     (case SIOCGIFHWADDR os name p of
        (Inl e, p1) \<Rightarrow> (Inl e, p1)
      | (Inr addr, p1) \<Rightarrow> (Inr addr, p1))"

text \<open>What \<open>EtherInit\<close> learns from the driver: \<open>GetAddr\<close> is called for the name that \<open>OpenTap\<close> returned. The
  file it keeps is open and empty.\<close>

definition tap_answers ::
    "'k system \<Rightarrow> string \<Rightarrow> 'k process \<Rightarrow> ((error + string \<times> dev_file) \<times> (error + bytes)) \<times> 'k process" where
  "tap_answers os name p =
     (case OpenTap os name p of
        (Inl e, p1) \<Rightarrow> ((Inl e, Inl e), p1)
      | (Inr (name', file), p1) \<Rightarrow>
          (case GetAddr os name' p1 of
             (addr, p2) \<Rightarrow>
               ((Inr (name', \<lparr>f_closed = False, f_fails = False, f_out = []\<rparr>), addr), p2)))"

definition EtherInit_on ::
    "'k system \<Rightarrow> string \<Rightarrow> 'k process \<Rightarrow> 'a net_state_scheme \<Rightarrow>
     ((error + nat) \<times> 'a net_state_scheme) \<times> 'k process" where
  "EtherInit_on os name p st =
     (case tap_answers os name p of ((opened, addr), p1) \<Rightarrow> (EtherInit opened addr st, p1))"

section \<open>Requests and descriptors\<close>

lemma length_copy_name [simp]: "length field = IFNAMSIZ \<Longrightarrow> length (copy_name name field) = IFNAMSIZ"
  by (simp add: copy_name_def string_bytes_def IFNAMSIZ_def Let_def)

lemma mem_ifreq_mem:
  assumes "length (ifr_name r) = IFNAMSIZ"
  shows "mem_ifreq (ifreq_mem r) = r"
  using assms by (cases r) (simp add: mem_ifreq_def ifreq_mem_def IFNAMSIZ_def nth_append)

lemma IndexByte_Some: "IndexByte bs c = Some n \<Longrightarrow> n < length bs \<and> bs ! n = c \<and> c \<notin> set (take n bs)"
proof (induction bs arbitrary: n)
  case (Cons b bs)
  then show ?case by (cases n) (auto split: if_splits)
qed simp

lemma sys_ioctl_fds [simp]: "fds (snd (sys_ioctl os fd req mem p)) = fds p"
  by (simp add: sys_ioctl_def split: prod.split)

lemma with_socket_fds:
  assumes "\<And>soc p. fds (snd (f soc p)) = fds p"
  shows "fds (snd (with_socket os f p)) = fds p"
proof -
  have "fds p2 = fds p1" if "f soc p1 = (r, p2)" for soc p1 r p2
    using assms [of soc p1] that by simp
  then show ?thesis
    by (auto simp: with_socket_def sys_socket_def sys_close_def split: prod.split sum.split)
qed

lemma fds_case_ioctl:
  assumes "\<And>r p1. fds p1 = fds p \<Longrightarrow> fds (snd (f r p1)) = fds p"
  shows "fds (snd (case sys_ioctl os fd req mem p of (r, p1) \<Rightarrow> f r p1)) = fds p"
proof -
  obtain r p1 where i: "sys_ioctl os fd req mem p = (r, p1)" by (rule prod.exhaust)
  then have "fds p1 = fds p" using sys_ioctl_fds [of os fd req mem p] by simp
  with assms i show ?thesis by simp
qed

lemma request_fds [simp]:
  "fds (snd (TUNSETIFF os fd name flag p)) = fds p"
  "fds (snd (SIOCGIFFLAGS os name p)) = fds p"
  "fds (snd (SIOCSIFFLAGS os name flag p)) = fds p"
  "fds (snd (SIOCGIFHWADDR os name p)) = fds p"
  unfolding TUNSETIFF_def SIOCGIFFLAGS_def SIOCSIFFLAGS_def SIOCGIFHWADDR_def Let_def
  by (rule with_socket_fds fds_case_ioctl | simp split: option.split prod.split)+

lemma request_fdsD:
  "TUNSETIFF os fd name flag p = (r1, p') \<Longrightarrow> fds p' = fds p"
  "SIOCGIFFLAGS os name p = (r2, p') \<Longrightarrow> fds p' = fds p"
  "SIOCSIFFLAGS os name flag p = (r3, p') \<Longrightarrow> fds p' = fds p"
  "SIOCGIFHWADDR os name p = (r4, p') \<Longrightarrow> fds p' = fds p"
  by (metis request_fds snd_conv)+

lemma OpenTap_fds:
  assumes "OpenTap os name p = (r, p')" "length name < IFNAMSIZ" "os_open os cloneDevice (kern p) = (Inr fd, k)"
  shows "fds p' = fd # fds p \<and> (\<forall>n f. r = Inr (n, f) \<longrightarrow> f = fd)"
  using assms
  by (auto simp: OpenTap_def sys_open_def dest!: request_fdsD split: sum.splits prod.splits)

lemma tap_answers_fds:
  assumes "tap_answers os name p = (r, p')" "length name < IFNAMSIZ" "os_open os cloneDevice (kern p) = (Inr fd, k)"
  shows "fds p' = fd # fds p"
  using assms
  by (auto simp: tap_answers_def GetAddr_def dest: OpenTap_fds dest!: request_fdsD split: sum.splits prod.splits)

section \<open>What the kernel does\<close>

text \<open>The documented behaviour of the requests, on what can be seen of the kernel's state: whether an interface
  is up, and its hardware address. By netdevice(7) the name field of a request names the interface,
  \<open>SIOCSIFFLAGS\<close> sets its flags, UP among them, and \<open>SIOCGIFHWADDR\<close> only answers the address; by socket(2) a
  new socket is only a descriptor. \<open>sock k fd\<close> says that \<open>fd\<close> is such a control socket; a request does not change what a
  descriptor is, and to close a socket on which nothing but such requests were made changes no interface. Nothing
  is said of other descriptors: to close the one of the clone device removes the interface again.\<close>

definition tap_kernel ::
    "'k system \<Rightarrow> ('k \<Rightarrow> bytes \<Rightarrow> bool) \<Rightarrow> ('k \<Rightarrow> bytes \<Rightarrow> bytes) \<Rightarrow> ('k \<Rightarrow> nat \<Rightarrow> bool) \<Rightarrow> bool" where
  "tap_kernel os up addr sock \<longleftrightarrow>
     (\<forall>k fd mem mem' k'. os_ioctl os fd SYS_SIOCSIFFLAGS mem k = ((None, mem'), k') \<longrightarrow>
        up k' (take IFNAMSIZ mem) = (ifr_flags (mem_ifreq mem) AND IFF_UP \<noteq> 0)) \<and>
     (\<forall>k fd mem mem' k'. os_ioctl os fd SYS_SIOCGIFHWADDR mem k = ((None, mem'), k') \<longrightarrow>
        take 6 (sa_addr (hw_addr (mem_ifreq_hw mem'))) = addr k (take IFNAMSIZ mem) \<and>
        length (addr k (take IFNAMSIZ mem)) = 6 \<and> up k' = up k \<and> addr k' = addr k) \<and>
     (\<forall>k fd req mem r k'. os_ioctl os fd req mem k = (r, k') \<longrightarrow> sock k' = sock k) \<and>
     (\<forall>k fd k'. os_socket os k = (Inr fd, k') \<longrightarrow> up k' = up k \<and> addr k' = addr k \<and> sock k' fd) \<and>
     (\<forall>k fd. sock k fd \<longrightarrow> up (os_close os fd k) = up k \<and> addr (os_close os fd k) = addr k)"

text \<open>The field of a request that names the interface \<open>name\<close>.\<close>

definition name_field :: "string \<Rightarrow> bytes" where
  "name_field name = copy_name name (replicate IFNAMSIZ 0)"

lemma length_name_field [simp]: "length (name_field name) = IFNAMSIZ"
  by (simp add: name_field_def)

lemma tap_kernel_sock:
  assumes "tap_kernel os up addr sock" "os_socket os k = (Inr soc, k1)" "os_ioctl os soc req mem k1 = (r, k2)"
  shows "sock k2 soc"
  using assms unfolding tap_kernel_def by metis

lemma SIOCSIFFLAGS_up:
  assumes "tap_kernel os up addr sock" "SIOCSIFFLAGS os name flag p = (Inr u, p')" "flag AND IFF_UP \<noteq> 0"
  shows "up (kern p') (name_field name)"
proof -
  define mem where "mem = ifreq_mem \<lparr>ifr_name = name_field name, ifr_flags = flag, ifr_pad = replicate 22 0\<rparr>"
  have mem: "take IFNAMSIZ mem = name_field name" "ifr_flags (mem_ifreq mem) = flag"
    by (simp_all add: mem_def mem_ifreq_mem) (simp add: ifreq_mem_def)
  obtain soc k1 mem' k2 where i: "os_ioctl os soc SYS_SIOCSIFFLAGS mem k1 = ((None, mem'), k2)"
    and s: "os_socket os (kern p) = (Inr soc, k1)" and p': "kern p' = os_close os soc k2"
    using assms(2)
    by (auto simp: SIOCSIFFLAGS_def with_socket_def sys_socket_def sys_ioctl_def sys_close_def mem_def ifreq_zero_def
        name_field_def Let_def split: sum.splits prod.splits option.splits)
  have "sock k2 soc" by (rule tap_kernel_sock [OF assms(1) s i])
  with i p' assms(1,3) mem show ?thesis unfolding tap_kernel_def by metis
qed

lemma SIOCGIFHWADDR_addr:
  assumes "tap_kernel os up addr sock" "SIOCGIFHWADDR os name p = (Inr a, p')"
  shows "take 6 a = addr (kern p') (name_field name)" "length (addr (kern p') (name_field name)) = 6"
    "up (kern p') = up (kern p)"
proof -
  define mem where "mem = ifreq_hw_mem (ifreq_hw_zero\<lparr>hw_name := name_field name\<rparr>)"
  have mem: "take IFNAMSIZ mem = name_field name"
    by (simp add: mem_def ifreq_hw_mem_def)
  obtain soc k1 mem' k2 where i: "os_ioctl os soc SYS_SIOCGIFHWADDR mem k1 = ((None, mem'), k2)"
    and s: "os_socket os (kern p) = (Inr soc, k1)"
    and a: "a = sa_addr (hw_addr (mem_ifreq_hw mem'))" and p': "kern p' = os_close os soc k2"
    using assms(2)
    by (auto simp: SIOCGIFHWADDR_def with_socket_def sys_socket_def sys_ioctl_def sys_close_def mem_def ifreq_hw_zero_def
        name_field_def Let_def split: sum.splits prod.splits option.splits)
  have "sock k2 soc" by (rule tap_kernel_sock [OF assms(1) s i])
  with i s a p' assms(1) mem show "take 6 a = addr (kern p') (name_field name)"
    "length (addr (kern p') (name_field name)) = 6" "up (kern p') = up (kern p)"
    unfolding tap_kernel_def by metis+
qed

lemma TUNSETIFF_name:
  assumes "TUNSETIFF os fd name flag p = (Inr n, p')"
  shows "length n < IFNAMSIZ"
proof -
  obtain r mem q where i: "sys_ioctl os fd SYS_TUNSETIFF
      (ifreq_mem (ifreq_zero\<lparr>ifr_flags := flag, ifr_name := copy_name name (ifr_name ifreq_zero)\<rparr>)) p = ((r, mem), q)"
    by (metis prod.exhaust)
  with assms obtain j where "IndexByte (ifr_name (mem_ifreq mem)) 0 = Some j"
    and n: "n = bytes_string (take j (ifr_name (mem_ifreq mem)))"
    by (auto simp: TUNSETIFF_def Let_def split: option.splits)
  from IndexByte_Some [OF this(1)] show ?thesis by (simp add: n bytes_string_def mem_ifreq_def)
qed

lemma OpenTap_up:
  assumes "tap_kernel os up addr sock" "OpenTap os name p = (Inr (n, fd), p')"
  shows "up (kern p') (name_field n)"
proof -
  obtain flags q u where "SIOCSIFFLAGS os n (flags OR (IFF_UP OR IFF_RUNNING)) q = (Inr u, p')"
    using assms(2) by (auto simp: OpenTap_def split: if_splits sum.splits prod.splits)
  moreover have "(flags OR (IFF_UP OR IFF_RUNNING)) AND IFF_UP \<noteq> 0"
  proof -
    have "bit ((flags OR (IFF_UP OR IFF_RUNNING)) AND IFF_UP) 0"
      by (simp add: bit_simps IFF_UP_def)
    then show ?thesis by (metis bit_0_eq bot_apply bot_bool_def)
  qed
  ultimately show ?thesis by (rule SIOCSIFFLAGS_up [OF assms(1)])
qed

lemma bytes_to_ether_addr: "6 \<le> length bs \<Longrightarrow> ether_Addr (bytes_to_ether bs) = take 6 bs"
  by (rule nth_equalityI) (auto simp: bytes_to_ether_def get_ether_def nth_append less_Suc_eq numeral_eq_Suc)

lemma tap_answers_up:
  assumes "tap_kernel os up addr sock" "tap_answers os name p = ((Inr (n, f), Inr a), p')"
  shows "length n < IFNAMSIZ" "f = \<lparr>f_closed = False, f_fails = False, f_out = []\<rparr>"
    "up (kern p') (name_field n)" "ether_Addr (bytes_to_ether a) = addr (kern p') (name_field n)"
    "\<exists>fd k. os_open os cloneDevice (kern p) = (Inr fd, k) \<and> fds p' = fd # fds p"
proof -
  have len: "length name < IFNAMSIZ"
    using assms(2) by (auto simp: tap_answers_def OpenTap_def split: if_splits prod.splits)
  obtain res k where "os_open os cloneDevice (kern p) = (res, k)" by (rule prod.exhaust)
  moreover from this obtain fd where "res = Inr fd"
    using assms(2) len by (cases res) (auto simp: tap_answers_def OpenTap_def sys_open_def)
  ultimately show "\<exists>fd k. os_open os cloneDevice (kern p) = (Inr fd, k) \<and> fds p' = fd # fds p"
    using tap_answers_fds [OF assms(2) len] by blast
  obtain fd q where o: "OpenTap os name p = (Inr (n, fd), q)" and g: "SIOCGIFHWADDR os n q = (Inr a, p')"
    and f: "f = \<lparr>f_closed = False, f_fails = False, f_out = []\<rparr>"
    using assms(2) by (auto simp: tap_answers_def GetAddr_def split: sum.splits prod.splits)
  show "f = \<lparr>f_closed = False, f_fails = False, f_out = []\<rparr>" by (rule f)
  show "length n < IFNAMSIZ"
    using o by (auto simp: OpenTap_def dest: TUNSETIFF_name split: if_splits sum.splits prod.splits)
  note hw = SIOCGIFHWADDR_addr [OF assms(1) g]
  have "6 \<le> length a" using arg_cong [OF hw(1), of length] hw(2) by simp
  then show "ether_Addr (bytes_to_ether a) = addr (kern p') (name_field n)"
    using hw(1) by (simp add: bytes_to_ether_addr)
  show "up (kern p') (name_field n)" using OpenTap_up [OF assms(1) o] hw(3) by simp
qed

section \<open>Properties\<close>

text \<open>C35. The descriptors the driver leaves open. A name of sixteen bytes or more is refused before any
  call. When the clone device cannot be opened nothing is left open; the control sockets are closed on
  every path. But once the clone device is open, its descriptor stays open also when a later request
  fails and \<open>EtherInit\<close> returns the error without a device that could close it.\<close>

theorem tap_descriptors:
  assumes "((r, st'), p') = EtherInit_on os name p st"
  shows "if IFNAMSIZ \<le> length name then r = Inl (Err ''device name is too long'') \<and> p' = p \<and> st' = st
    else case os_open os cloneDevice (kern p) of
        (Inl e, k) \<Rightarrow> r = Inl e \<and> fds p' = fds p \<and> st' = st
      | (Inr fd, k) \<Rightarrow> fds p' = fd # fds p \<and> (\<forall>e. r = Inl e \<longrightarrow> st' = st)"
proof -
  obtain opened addr where a: "tap_answers os name p = ((opened, addr), p')" and i: "EtherInit opened addr st = (r, st')"
    using assms by (auto simp: EtherInit_on_def split: prod.splits)
  have err: "st' = st" if "r = Inl e" for e
    using i that by (auto simp: EtherInit_def split: sum.splits prod.splits)
  show ?thesis
  proof (cases "IFNAMSIZ \<le> length name")
    case True
    with a i show ?thesis by (auto simp: tap_answers_def OpenTap_def EtherInit_def split: prod.splits)
  next
    case False
    then have n: "length name < IFNAMSIZ" by simp
    show ?thesis
    proof (cases "os_open os cloneDevice (kern p)")
      case (Pair res k)
      show ?thesis
      proof (cases res)
        case (Inl e)
        with Pair n a i show ?thesis
          by (auto simp: tap_answers_def OpenTap_def sys_open_def EtherInit_def)
      next
        case (Inr fd)
        with Pair n tap_answers_fds [OF a n] err show ?thesis by simp
      qed
    qed
  qed
qed

section \<open>Witnesses\<close>

text \<open>A kernel with one interface, and one that refuses to make it. The descriptors of files are even, those of
  sockets odd; to close a file takes the interface down.\<close>

definition demo_ioctl :: "bool \<Rightarrow> nat \<Rightarrow> u32 \<Rightarrow> bytes \<Rightarrow> bool \<times> nat \<Rightarrow> (error option \<times> bytes) \<times> bool \<times> nat" where
  "demo_ioctl refuse fd req mem k =
     (if req = SYS_TUNSETIFF \<and> refuse then ((Some (Err ''operation not permitted''), mem), k)
      else if req = SYS_SIOCSIFFLAGS then ((None, mem), (ifr_flags (mem_ifreq mem) AND IFF_UP \<noteq> 0, snd k))
      else if req = SYS_SIOCGIFHWADDR
      then ((None, take 18 (mem @ replicate 18 0) @ [2, 0, 0, 0, 0, 9] @ replicate 16 0), k)
      else ((None, mem), k))"

definition demo_system :: "bool \<Rightarrow> (bool \<times> nat) system" where
  "demo_system refuse = \<lparr>os_open = (\<lambda>path k. (Inr (2 * snd k), (fst k, snd k + 1))),
     os_socket = (\<lambda>k. (Inr (2 * snd k + 1), (fst k, snd k + 1))), os_ioctl = demo_ioctl refuse,
     os_close = (\<lambda>fd k. if even fd then (False, snd k) else k)\<rparr>"

lemma demo_kernel: "tap_kernel (demo_system refuse) (\<lambda>k name. fst k) (\<lambda>k name. [2, 0, 0, 0, 0, 9]) (\<lambda>k fd. odd fd)"
  by (auto simp: tap_kernel_def demo_system_def demo_ioctl_def mem_ifreq_hw_def
      SYS_TUNSETIFF_def SYS_SIOCSIFFLAGS_def SYS_SIOCGIFHWADDR_def)

definition demo_process :: "(bool \<times> nat) process" where
  "demo_process = \<lparr>fds = [2, 1, 0], kern = (False, 3)\<rparr>"

theorem tap_descriptors_witness:
  "fds (snd (EtherInit_on (demo_system True) ''tap0'' demo_process
     \<lparr>devices = [], interfaces = [], ifaces = [], protos = [], protoBuffers = [], now = 0\<rparr>)) = [6, 2, 1, 0]"
proof -
  let ?st = "\<lparr>devices = [], interfaces = [], ifaces = [], protos = [], protoBuffers = [], now = 0\<rparr> :: net_state"
  obtain r st' p' where e: "((r, st'), p') = EtherInit_on (demo_system True) ''tap0'' demo_process ?st"
    by (metis prod.collapse)
  from tap_descriptors [OF e] have "fds p' = [6, 2, 1, 0]"
    by (simp add: IFNAMSIZ_def demo_system_def demo_process_def)
  then show ?thesis by (simp add: e [symmetric])
qed

lemma demo_requests:
  "SYS_TUNSETIFF \<noteq> SYS_SIOCSIFFLAGS" "SYS_TUNSETIFF \<noteq> SYS_SIOCGIFHWADDR" "SYS_SIOCSIFFLAGS \<noteq> SYS_SIOCGIFHWADDR"
  "SYS_SIOCGIFFLAGS \<noteq> SYS_TUNSETIFF" "SYS_SIOCGIFFLAGS \<noteq> SYS_SIOCSIFFLAGS" "SYS_SIOCGIFFLAGS \<noteq> SYS_SIOCGIFHWADDR"
  by (simp_all add: SYS_TUNSETIFF_def SYS_SIOCSIFFLAGS_def SYS_SIOCGIFHWADDR_def SYS_SIOCGIFFLAGS_def)

lemma demo_name: "IndexByte (copy_name ''tap0'' (replicate IFNAMSIZ 0)) 0 = Some 4"
  "bytes_string (take 4 (copy_name ''tap0'' (replicate IFNAMSIZ 0))) = ''tap0''"
  by code_simp+

lemma demo_answers:
  "\<exists>p'. tap_answers (demo_system False) ''tap0'' demo_process =
     ((Inr (''tap0'', \<lparr>f_closed = False, f_fails = False, f_out = []\<rparr>), Inr ([2, 0, 0, 0, 0, 9] @ replicate 8 0)), p')"
proof -
  have zero: "ifr_name ifreq_zero = replicate IFNAMSIZ 0" by (simp add: ifreq_zero_def)
  have hw: "sa_addr (hw_addr (mem_ifreq_hw (take 18 (mem @ replicate 18 0) @ [2, 0, 0, 0, 0, 9] @ replicate 16 0))) =
      [2, 0, 0, 0, 0, 9] @ replicate 8 0" for mem
    by (simp add: mem_ifreq_hw_def)
  have tun: "\<exists>p'. TUNSETIFF (demo_system False) fd ''tap0'' fl p = (Inr ''tap0'', p')" for fd fl p
    by (simp add: TUNSETIFF_def sys_ioctl_def demo_system_def demo_ioctl_def mem_ifreq_mem zero demo_name demo_requests demo_requests [symmetric])
  have get: "\<exists>fl p'. SIOCGIFFLAGS (demo_system False) n p = (Inr fl, p')" for n p
    by (simp add: SIOCGIFFLAGS_def with_socket_def sys_socket_def sys_ioctl_def demo_system_def demo_ioctl_def Let_def demo_requests demo_requests [symmetric])
  have set: "\<exists>p'. SIOCSIFFLAGS (demo_system False) n fl p = (Inr (), p')" for n fl p
    by (simp add: SIOCSIFFLAGS_def with_socket_def sys_socket_def sys_ioctl_def demo_system_def demo_ioctl_def Let_def demo_requests demo_requests [symmetric])
  have addr: "\<exists>p'. SIOCGIFHWADDR (demo_system False) n p = (Inr ([2, 0, 0, 0, 0, 9] @ replicate 8 0), p')" for n p
    using hw
    by (simp add: SIOCGIFHWADDR_def with_socket_def sys_socket_def sys_ioctl_def demo_system_def demo_ioctl_def Let_def demo_requests demo_requests [symmetric])
  obtain fd p1 where "sys_open (demo_system False) cloneDevice demo_process = (Inr fd, p1)"
    by (simp add: sys_open_def demo_system_def)
  moreover obtain p2 where "TUNSETIFF (demo_system False) fd ''tap0'' (IFF_TAP OR IFF_NO_PI) p1 = (Inr ''tap0'', p2)"
    using tun by blast
  moreover obtain fl p3 where "SIOCGIFFLAGS (demo_system False) ''tap0'' p2 = (Inr fl, p3)" using get by blast
  moreover obtain p4 where "SIOCSIFFLAGS (demo_system False) ''tap0'' (fl OR (IFF_UP OR IFF_RUNNING)) p3 = (Inr (), p4)"
    using set by blast
  moreover obtain p5 where "SIOCGIFHWADDR (demo_system False) ''tap0'' p4 = (Inr ([2, 0, 0, 0, 0, 9] @ replicate 8 0), p5)"
    using addr by blast
  ultimately show ?thesis by (simp add: tap_answers_def OpenTap_def GetAddr_def IFNAMSIZ_def)
qed

end
