(* ===== verification/Setting.thy ===== *)
theory Setting
  imports Stack Tap
begin

text \<open>
  Setting up, running and shutting down the stack (\<open>pkg/setting.go\<close>, \<open>net.Open\<close>): the sequence of
  initialisations, the goroutines it starts, and the runs of the whole stack as sequences of their
  turns, of the user's calls and of changes around them.
\<close>

section \<open>State\<close>

text \<open>The goroutines the stack starts: a receive handler per device and per protocol, and the timers of
  ARP and TCP. \<open>running\<close> holds those that have not returned, \<open>done_closed\<close> tells whether the channel
  \<open>done\<close> is closed.\<close>

datatype routine = RunDev nat | RunProto nat | RunArpTimer | RunTcpTimer

record stack_state = tcp_state +
  running :: "routine list"
  done_closed :: bool

definition stack_empty :: stack_state where
  "stack_empty = \<lparr>devices = [], interfaces = [], ifaces = [], protos = [], protoBuffers = [], now = 0,
     routes = [], ip_id = 0, ip_protos = [], caches = replicate cacheSize cache_entry_zero,
     udp_store = [], udp_pcbs = [], tcp_store = [], tcp_pcbs = [],
     tcp_srtt = 10 * 1000000000, tcp_rto = 10 * 1000000000, tcp_log = [], tcp_bufs = [], tcp_ints = [],
     running = [], done_closed = False\<rparr>"

definition go :: "routine \<Rightarrow> 'a stack_state_scheme \<Rightarrow> 'a stack_state_scheme" where
  "go r st = st\<lparr>running := running st @ [r]\<rparr>"

section \<open>Setup\<close>

text \<open>\<open>if err != nil { return err }\<close>.\<close>

definition if_ok :: "error option \<times> 's \<Rightarrow> ('s \<Rightarrow> error option \<times> 's) \<Rightarrow> error option \<times> 's" where
  "if_ok r f = (case r of (None, st) \<Rightarrow> f st | (Some e, st) \<Rightarrow> (Some e, st))"

definition iface_on :: "nat \<Rightarrow> string \<Rightarrow> string \<Rightarrow> 'a stack_state_scheme \<Rightarrow> (error + nat) \<times> 'a stack_state_scheme" where
  "iface_on d addr netmask st =
     (case NewIface addr netmask st of
        (Inl e, st1) \<Rightarrow> (Inl e, st1)
      | (Inr i, st1) \<Rightarrow>
          (case ip_IfaceRegister d i st1 of
             (Some e, st2) \<Rightarrow> (Inl e, st2)
           | (None, st2) \<Rightarrow> (Inr i, st2)))"

text \<open>What \<open>setup\<close> asks for: the three devices, an interface on the last two, and the default gateway.
  \<open>opened\<close> and \<open>hwaddr\<close> are what the tap driver answers.\<close>

definition setup_devices ::
    "error + string \<times> dev_file \<Rightarrow> error + bytes \<Rightarrow> 'a stack_state_scheme \<Rightarrow>
     error option \<times> 'a stack_state_scheme" where
  "setup_devices opened hwaddr st =
     (let st1 = snd (NullInit ''null0'' st);
          (loop, st2) = LoopbackInit ''loop0'' st1
      in case EtherInit opened hwaddr st2 of
           (Inl e, st3) \<Rightarrow> (Some e, st3)
         | (Inr ether, st3) \<Rightarrow>
             (case iface_on loop ''127.0.0.1'' ''255.0.0.0'' st3 of
                (Inl e, st4) \<Rightarrow> (Some e, st4)
              | (Inr iface0, st4) \<Rightarrow>
                  (case iface_on ether ''192.0.2.2'' ''255.255.255.0'' st4 of
                     (Inl e, st5) \<Rightarrow> (Some e, st5)
                   | (Inr iface1, st5) \<Rightarrow> SetDefaultGateway iface1 ''192.0.2.1'' st5)))"

text \<open>\<open>arp.Init\<close> and \<open>tcp.Init\<close> start their timers first.\<close>

definition init_protocols :: "'a stack_state_scheme \<Rightarrow> error option \<times> 'a stack_state_scheme" where
  "init_protocols st =
     if_ok (if_ok (if_ok (if_ok (ip_Init st)
       (\<lambda>st. arp_Init (go RunArpTimer st)))
       icmp_Init)
       udp_Init)
       (\<lambda>st. tcp_Init (go RunTcpTimer st))"

definition NetInit ::
    "bool \<Rightarrow> error + string \<times> dev_file \<Rightarrow> error + bytes \<Rightarrow> 'a stack_state_scheme \<Rightarrow>
     error option \<times> 'a stack_state_scheme" where
  "NetInit setup opened hwaddr st =
     if_ok (if setup then setup_devices opened hwaddr st else (None, st)) init_protocols"

text \<open>\<open>NetInit(true)\<close> with the driver's calls, as the operating system \<open>os\<close> answers them.\<close>

definition NetInit_on ::
    "'k system \<Rightarrow> 'k process \<Rightarrow> 'a stack_state_scheme \<Rightarrow> (error option \<times> 'a stack_state_scheme) \<times> 'k process" where
  "NetInit_on os p st =
     (case tap_answers os ''tap0'' p of ((opened, hwaddr), p1) \<Rightarrow> (NetInit True opened hwaddr st, p1))"

definition net_Open :: "'a stack_state_scheme \<Rightarrow> 'a stack_state_scheme" where
  "net_Open st = st\<lparr>running := running st @ map RunDev [0..<length (devices st)] @
     map RunProto [0..<length (protos st)]\<rparr>"

definition NetRun :: "'a stack_state_scheme \<Rightarrow> 'a stack_state_scheme" where
  "NetRun st = net_Open st"

text \<open>Closing a closed channel panics.\<close>

definition NetShutdown :: "'a stack_state_scheme \<Rightarrow> error option \<times> 'a stack_state_scheme" where
  "NetShutdown st =
     (if done_closed st then (Some Panic, st) else net_Close (st\<lparr>done_closed := True\<rparr>))"

section \<open>What setup leads to\<close>

lemma setup_addresses:
  "Str2Addr ''127.0.0.1'' = Inr 0x7f000001" "Str2Addr ''255.0.0.0'' = Inr 0xff000000"
  "Str2Addr ''192.0.2.2'' = Inr 0xc0000202" "Str2Addr ''255.255.255.0'' = Inr 0xffffff00"
  "Str2Addr ''192.0.2.1'' = Inr 0xc0000201"
  by (simp_all add: Str2Addr_def Atoi_def unsigned_value_def is_digit_def)

definition tap_dev :: "string \<Rightarrow> dev_file \<Rightarrow> bytes \<Rightarrow> ether_dev" where
  "tap_dev name file hwaddr = \<lparr>e_name = name, e_flags = 0x0121, e_interfaces = [1],
     e_addr = bytes_to_ether hwaddr, e_file = file, e_rxbuf = replicate EtherFrameSizeMax 0\<rparr>"

definition stack_ready :: "string \<Rightarrow> dev_file \<Rightarrow> bytes \<Rightarrow> stack_state" where
  "stack_ready name file hwaddr = stack_empty\<lparr>
     devices := [Null \<lparr>null_name = ''null0'', null_flags = 1\<rparr>,
       Loopback \<lparr>loop_name = ''loop0'', loop_flags = 0x0011\<rparr>, Ether (tap_dev name file hwaddr)],
     interfaces := [0, 1],
     ifaces := [\<lparr>if_dev = Some 1, if_unicast = 0x7f000001, if_netmask = 0xff000000, if_broadcast = 0x7fffffff\<rparr>,
       \<lparr>if_dev = Some 2, if_unicast = 0xc0000202, if_netmask = 0xffffff00, if_broadcast = 0xc00002ff\<rparr>],
     protos := [IProto, ArpProto], protoBuffers := [[], []],
     routes := [\<lparr>rt_network = 0x7f000000, rt_netmask = 0xff000000, rt_nexthop = 0, rt_Iface = 0\<rparr>,
       \<lparr>rt_network = 0xc0000200, rt_netmask = 0xffffff00, rt_nexthop = 0, rt_Iface = 1\<rparr>,
       \<lparr>rt_network = 0, rt_netmask = 0, rt_nexthop = 0xc0000201, rt_Iface = 1\<rparr>],
     ip_protos := [IcmpProto, UdpProto, TcpProto],
     running := [RunArpTimer, RunTcpTimer]\<rparr>"

lemma setup_fresh:
  "NetInit True (Inr (name, file)) (Inr hwaddr) stack_empty = (None, stack_ready name file hwaddr)"
  by (simp add: NetInit_def setup_devices_def iface_on_def NullInit_def LoopbackInit_def EtherInit_def DeviceRegister_def
      NewIface_def setup_addresses ip_IfaceRegister_def net_IfaceRegister_def routeAdd_def SetDefaultGateway_def
      init_protocols_def if_ok_def ip_Init_def arp_Init_def icmp_Init_def udp_Init_def tcp_Init_def ip_ProtoRegister_def
      net_ProtoRegister_def go_def stack_ready_def stack_empty_def tap_dev_def Let_def
      device_consts AddrAny_def ProtoICMP_def ProtoUDP_def ProtoTCP_def)

lemma setup_failed:
  assumes "opened = Inl e \<or> hwaddr = Inl e"
  shows "\<exists>e. NetInit True opened hwaddr stack_empty = (Some e, stack_empty\<lparr>
     devices := [Null \<lparr>null_name = ''null0'', null_flags = 1\<rparr>,
       Loopback \<lparr>loop_name = ''loop0'', loop_flags = 0x0011\<rparr>]\<rparr>)"
  using assms
  by (auto simp: NetInit_def setup_devices_def NullInit_def LoopbackInit_def EtherInit_def DeviceRegister_def
      if_ok_def stack_empty_def device_consts Let_def split: sum.split)

section \<open>Runs\<close>

text \<open>\<open>env_step\<close>: a turn of a goroutine that runs, on whatever was read or however the initial sequence
  number was drawn; an ARP handler that returned is gone, and after \<open>close(done)\<close> any may return. Time
  goes on, and the operating system refuses writes for a while. Turns are atomic.\<close>

inductive env_step :: "stack_state \<Rightarrow> stack_state \<Rightarrow> bool" where
  device: "RunDev d \<in> set (running st) \<Longrightarrow> env_step st (snd (dev_Rx ev d st))"
| ip: "RunProto k \<in> set (running st) \<Longrightarrow> k < length (protos st) \<Longrightarrow> protos st ! k = IProto \<Longrightarrow>
    env_step st (snd (ip_RxHandler (stack_rx iss) k st))"
| arp: "RunProto k \<in> set (running st) \<Longrightarrow> k < length (protos st) \<Longrightarrow> protos st ! k = ArpProto \<Longrightarrow>
    arp_RxHandler k st = (t, st') \<Longrightarrow>
    env_step st (if t = Stopped then st'\<lparr>running := remove1 (RunProto k) (running st')\<rparr> else st')"
| arp_timer: "RunArpTimer \<in> set (running st) \<Longrightarrow> env_step st (arp_timer st)"
| tcp_timer: "RunTcpTimer \<in> set (running st) \<Longrightarrow> env_step st (snd (tcpTimer arp_Resolve st))"
| return: "done_closed st \<Longrightarrow> env_step st (st\<lparr>running := remove1 r (running st)\<rparr>)"
| clock: "now st \<le> t \<Longrightarrow> env_step st (st\<lparr>now := t\<rparr>)"
| refuse: "devices st ! d = Ether e \<Longrightarrow>
    env_step st (st\<lparr>devices := (devices st)[d := Ether (e\<lparr>e_file := (e_file e)\<lparr>f_fails := b\<rparr>\<rparr>)]\<rparr>)"

text \<open>While a call of TCP's user sleeps with the mutex locked, the others go on without TCP.\<close>

definition sleeps :: "(stack_state \<Rightarrow> stack_state) \<Rightarrow> bool" where
  "sleeps wait \<longleftrightarrow> waits wait \<and> (\<forall>st. env_step\<^sup>*\<^sup>* st (wait st))"

inductive stack_step :: "stack_state \<Rightarrow> stack_state \<Rightarrow> bool" where
  env: "env_step st st' \<Longrightarrow> stack_step st st'"
| icmp_send: "stack_step st (snd (icmp_TxHandler arp_Resolve t c values data src dst st))"
| udp_open: "stack_step st (snd (udp_Open st))"
| udp_close: "stack_step st (snd (udp_Close k st))"
| udp_bind: "stack_step st (snd (udp_Bind k e st))"
| udp_send: "udp_Send arp_Resolve k data dst st = Some (err, st') \<Longrightarrow> stack_step st st'"
| udp_listen: "k < length (udp_store st) \<Longrightarrow> stack_step st (snd (udp_Listen block k st))"
| tcp_new: "stack_step st (snd (Newpcb e st))"
| tcp_delete: "stack_step st (snd (Deletepcb k st))"
| tcp_open: "k < length (tcp_store st) \<Longrightarrow> sleeps wait \<Longrightarrow>
    stack_step st (tcp_Open arp_Resolve wait iss k ch e isActive timeout st)"
| tcp_send: "k < length (tcp_store st) \<Longrightarrow> sleeps wait \<Longrightarrow> stack_step st (tcp_Send arp_Resolve wait k ch data st)"
| tcp_receive: "k < length (tcp_store st) \<Longrightarrow> stack_step st (tcp_Receive k ch buf n st)"
| tcp_close: "k < length (tcp_store st) \<Longrightarrow> sleeps wait \<Longrightarrow> stack_step st (tcp_Close arp_Resolve wait k ch st)"
| tcp_abort: "k < length (tcp_store st) \<Longrightarrow> stack_step st (snd (tcp_Abort arp_Resolve k st))"
| shutdown: "stack_step st (snd (NetShutdown st))"

section \<open>The invariant of every run\<close>

lemma state_vars:
  fixes st :: "'a tcp_state_scheme"
  assumes "tcp_state.truncate st' = (tcp_state.truncate st)\<lparr>now := t\<rparr>"
  shows "grounded st0 st' = grounded st0 st" "stack_ok st0 st' = stack_ok st0 st"
proof -
  show "grounded st0 st' = grounded st0 st"
    using assms
    by (cases st; cases st')
       (simp add: grounded_def ip_kept_def net_kept_def layers_ok_def net_ok_def dev_ok_def ip_protos_ok_def
          routes_ok_def arp_ok_def udp_ok_def tcp_state.defs)
  moreover have "tcp_ok st' = tcp_ok st"
    using assms by (cases st; cases st') (simp add: tcp_ok_def tcp_state.defs)
  ultimately show "stack_ok st0 st' = stack_ok st0 st" by (simp add: stack_ok_def)
qed

lemma set_device_below:
  "dev_kept (devices st ! d) dv \<Longrightarrow> below_step st (st\<lparr>devices := (devices st)[d := dv]\<rparr>)"
  by (rule below_step_net [where devs = "(devices st)[d := dv]" and bufs = "protoBuffers st"])
     (simp_all add: net_kept_set_device net_ok_set_device)

lemma net_Close_below: "below_step st (snd (net_Close st))"
proof -
  have "below_step st (snd (net_Close_loop ds st))" for ds
  proof (induction ds arbitrary: st)
    case (Cons d ds)
    obtain err dv where c: "dev_Close (devices st ! d) = (err, dv)" by force
    then have "below_step st (st\<lparr>devices := (devices st)[d := dv]\<rparr>)"
      using dev_Close_kept [of "devices st ! d"] by (simp add: set_device_below)
    with below_step_trans [OF this Cons.IH] show ?case by (simp add: c Let_def split: option.split)
  qed simp
  then show ?thesis by (simp add: net_Close_def)
qed

text \<open>The conditions that every turn keeps are kept along the turns.\<close>

locale run_invariant = turn_invariant Q for Q :: "stack_state \<Rightarrow> bool" +
  assumes Q_vars: "tcp_state.truncate st' = (tcp_state.truncate st)\<lparr>now := t\<rparr> \<Longrightarrow> Q st' = Q st"
    and Q_channels: "Q st \<Longrightarrow> length (protoBuffers st) = length (protos st)"
begin

lemma env_step_Q: "env_step st st' \<Longrightarrow> Q st \<Longrightarrow> Q st'"
proof (induction rule: env_step.induct)
  case (device d st ev)
  then show ?case unfolding dev_Rx_ether by (intro Q_below [OF ether_Rx_below])
next
  case (ip k st iss)
  then show ?case using Q_channels by (intro ip_RxHandler_Q) simp_all
next
  case (arp k st t st')
  then have "Q (snd (arp_RxHandler k st))" using Q_channels by (intro arp_RxHandler_Q) simp_all
  with arp show ?case
    using Q_vars [of "st'\<lparr>running := remove1 (RunProto k) (running st')\<rparr>" "now st'" st']
    by (simp add: tcp_state.defs)
next
  case (arp_timer st)
  then show ?case by (intro Q_below [OF arp_timer_below])
next
  case (tcp_timer st)
  then show ?case by (intro Q_timer)
next
  case (return st r)
  then show ?case
    using Q_vars [of "st\<lparr>running := remove1 r (running st)\<rparr>" "now st" st] by (simp add: tcp_state.defs)
next
  case (clock st t)
  then show ?case using Q_vars [of "st\<lparr>now := t\<rparr>" t st] by (simp add: tcp_state.defs)
next
  case (refuse st d e b)
  then show ?case by (intro Q_below [OF set_device_below]) simp_all
qed

lemma env_run_Q: "env_step\<^sup>*\<^sup>* st st' \<Longrightarrow> Q st \<Longrightarrow> Q st'"
  by (induction rule: rtranclp.induct) (auto intro: env_step_Q)

end

interpretation run_grounded: run_invariant "grounded st0" for st0
  by unfold_locales (erule state_vars(1), simp add: grounded_def layers_ok_def net_ok_def)

interpretation run_ok: run_invariant "stack_ok st0" for st0
  by unfold_locales (erule state_vars(2), simp add: stack_ok_def grounded_def layers_ok_def net_ok_def)

lemma stack_step_ok: "stack_step st st' \<Longrightarrow> stack_ok st0 st \<Longrightarrow> stack_ok st0 st'"
proof (induction rule: stack_step.induct)
  case (env st st')
  then show ?case by (rule run_ok.env_step_Q)
next
  case (icmp_send st t c v data src dst)
  then show ?case by (intro turns_ok.Q_below [OF icmp_TxHandler_below])
next
  case (udp_open st)
  then show ?case by (intro turns_ok.Q_below [OF udp_calls_below(1)])
next
  case (udp_close st k)
  then show ?case by (intro turns_ok.Q_below [OF udp_calls_below(2)])
next
  case (udp_bind st k e)
  then show ?case by (intro turns_ok.Q_below [OF udp_calls_below(3)])
next
  case (udp_send k data dst st err st')
  then show ?case by (rule turns_ok.Q_below [OF udp_Send_below])
next
  case (udp_listen k st block)
  then show ?case by (intro turns_ok.Q_below [OF udp_calls_below(4)])
next
  case (tcp_new st e)
  then show ?case by (simp add: stack_ok_def layers.Newpcb_P Newpcb_tcp_ok)
next
  case (tcp_delete st k)
  then show ?case by (simp add: stack_ok_def layers.Deletepcb_P Deletepcb_tcp_ok)
next
  case (tcp_open k st wait iss ch e isActive timeout)
  then show ?case
    using run_grounded.env_run_Q by (intro tcp_calls_stack_ok(1)) (auto simp: sleeps_def)
next
  case (tcp_send k st wait ch data)
  then show ?case
    using run_grounded.env_run_Q by (intro tcp_calls_stack_ok(2)) (auto simp: sleeps_def)
next
  case (tcp_receive k st ch buf n)
  then show ?case by (intro tcp_calls_stack_ok(3) [where wait = id]) (simp_all add: waits_def)
next
  case (tcp_close k st wait ch)
  then show ?case
    using run_grounded.env_run_Q by (intro tcp_calls_stack_ok(4)) (auto simp: sleeps_def)
next
  case (tcp_abort k st)
  then show ?case by (intro tcp_calls_stack_ok(5) [where wait = id]) (simp_all add: waits_def)
next
  case (shutdown st)
  then show ?case
    using state_vars(2) [of "st\<lparr>done_closed := True\<rparr>" "now st" st st0]
    by (auto simp: NetShutdown_def tcp_state.defs intro: turns_ok.Q_below [OF net_Close_below])
qed

lemma stack_run_ok: "stack_step\<^sup>*\<^sup>* st st' \<Longrightarrow> stack_ok st0 st \<Longrightarrow> stack_ok st0 st'"
  by (induction rule: rtranclp.induct) (auto intro: stack_step_ok)

lemma stack_ready_ok: "stack_ok (stack_ready name file hwaddr) (NetRun (stack_ready name file hwaddr))"
proof -
  let ?st = "stack_ready name file hwaddr"
  have "net_ok ?st"
    by (auto simp: net_ok_def dev_ok_def stack_ready_def tap_dev_def less_Suc_eq)
  moreover have "ip_protos_ok ?st" "routes_ok ?st" "arp_ok ?st" "udp_ok ?st" "tcp_ok ?st"
    by (simp_all add: ip_protos_ok_def routes_ok_def arp_ok_def cache_unique_def cache_entry_zero_def udp_ok_def tcp_ok_def
        stack_ready_def stack_empty_def ProtoICMP_def ProtoUDP_def ProtoTCP_def)
  ultimately have "stack_ok ?st ?st" by (simp add: stack_ok_def grounded_def layers_ok_def)
  then show ?thesis
    using state_vars(2) [of "NetRun ?st" "now ?st" ?st ?st] by (simp add: NetRun_def net_Open_def tcp_state.defs)
qed

section \<open>The stack that setup leads to\<close>

text \<open>What a run keeps of the state after \<open>NetInit\<close>.\<close>

lemma stack_ready_kept:
  assumes "ip_kept (stack_ready name file hwaddr) st"
  shows "routes st = routes (stack_ready name file hwaddr)" "ip_protos st = [IcmpProto, UdpProto, TcpProto]"
    "protos st = [IProto, ArpProto]" "length (devices st) = 3" "length (protoBuffers st) = 2"
    "ifaces st = ifaces (stack_ready name file hwaddr)"
    "d < 3 \<Longrightarrow> dev_kept (devices (stack_ready name file hwaddr) ! d) (devices st ! d)"
proof -
  have nk: "net_kept (stack_ready name file hwaddr) st" using assms by (simp add: ip_kept_def)
  show "length (devices st) = 3" using net_kept_devices(1) [OF nk] by (simp add: stack_ready_def)
  show "d < 3 \<Longrightarrow> dev_kept (devices (stack_ready name file hwaddr) ! d) (devices st ! d)"
    using net_kept_devices(2) [OF nk, of d] by (simp add: stack_ready_def)
  show "routes st = routes (stack_ready name file hwaddr)" "ip_protos st = [IcmpProto, UdpProto, TcpProto]"
    using assms by (simp_all add: ip_kept_def stack_ready_def)
  show "protos st = [IProto, ArpProto]" "length (protoBuffers st) = 2"
    "ifaces st = ifaces (stack_ready name file hwaddr)"
    using nk by (simp_all add: net_kept_def stack_ready_def)
qed

lemma stack_ready_tap:
  assumes "ip_kept (stack_ready name file hwaddr) st"
  obtains e where "devices st ! 2 = Ether e" "e_name e = name" "e_flags e = 0x0121" "e_interfaces e = [1]"
    "e_addr e = bytes_to_ether hwaddr" "length (e_rxbuf e) = 1514"
proof -
  have "dev_kept (Ether (tap_dev name file hwaddr)) (devices st ! 2)"
    using stack_ready_kept(7) [OF assms, of 2] by (simp add: stack_ready_def)
  then show ?thesis by (cases "devices st ! 2") (auto simp: tap_dev_def EtherFrameSizeMax_def intro: that)
qed

lemma gateway_route:
  assumes "ip_kept (stack_ready name file hwaddr) st"
  shows "LookupTable dst st = Inr \<lparr>rt_network = 0, rt_netmask = 0, rt_nexthop = 0xc0000201, rt_Iface = 1\<rparr>"
  unfolding LookupTable_eq stack_ready_kept(1) [OF assms] by (simp add: stack_ready_def)

lemma slice_bytes_channels [simp]: "slice_bytes (st\<lparr>protoBuffers := bufs\<rparr>) sl = slice_bytes st sl"
  by (cases sl) simp_all

section \<open>Properties\<close>

text \<open>C2. In every run of the stack after \<open>NetInit\<close> and \<open>NetRun\<close>, whatever frames arrive and whatever the
  users call, each layer's state stays well formed, and devices, interfaces, routes and registered
  protocols stay those of the setup.\<close>

theorem stack_run_invariant:
  assumes "(err, st0) = NetInit True (Inr (name, file)) (Inr hwaddr) stack_empty"
    and "stack_step\<^sup>*\<^sup>* (NetRun st0) st"
  shows "err = None \<and> net_ok st \<and> ip_protos_ok st \<and> routes_ok st \<and> arp_ok st \<and> udp_ok st \<and> tcp_ok st \<and>
    ip_kept st0 st"
  using stack_run_ok [OF assms(2), of st0] stack_ready_ok assms(1)
  by (simp add: setup_fresh stack_ok_def grounded_def layers_ok_def)

text \<open>C33. The setup sends everything to its gateway: after \<open>NetInit\<close> the route found for any destination, in
  the subnet of the interface or the loopback network too, is the default route, which was added last.\<close>

theorem setup_routes_to_gateway:
  assumes "(err, st0) = NetInit True (Inr (name, file)) (Inr hwaddr) stack_empty"
    and "stack_step\<^sup>*\<^sup>* (NetRun st0) st"
  shows "\<exists>r. LookupTable dst st = Inr r \<and> Addr_String (rt_nexthop r) = ''192.0.2.1'' \<and>
    Addr_String (if_unicast (ifaces st ! rt_Iface r)) = ''192.0.2.2'' \<and>
    (\<exists>d. if_dev (ifaces st ! rt_Iface r) = Some d \<and> dev_Name (devices st ! d) = name)"
proof -
  have st0: "st0 = stack_ready name file hwaddr" using assms(1) by (simp add: setup_fresh)
  then have k: "ip_kept (stack_ready name file hwaddr) st"
    using stack_run_ok [OF assms(2), of st0] stack_ready_ok by (simp add: stack_ok_def grounded_def)
  obtain e where e: "devices st ! 2 = Ether e" "e_name e = name" by (rule stack_ready_tap [OF k])
  have "Addr_String 0xc0000201 = ''192.0.2.1''" "Addr_String 0xc0000202 = ''192.0.2.2''"
    by code_simp+
  with e show ?thesis
    by (simp add: gateway_route [OF k] stack_ready_kept(6) [OF k]) (simp add: stack_ready_def)
qed

text \<open>C34. On a kernel that does what netdevice(7) says, a \<open>NetInit\<close> that returns no error has set the tap
  interface up in the kernel, holds the descriptor of the clone device on which the interface depends, and
  the stack is ready with its name and its hardware address. Any error comes from the driver; then no protocol is
  registered and no goroutine was started.\<close>

theorem setup_on_kernel:
  assumes "tap_kernel os up addr sock" "((err, st), p') = NetInit_on os p stack_empty"
  shows "if err = None
    then \<exists>name hwaddr. st = stack_ready name \<lparr>f_closed = False, f_fails = False, f_out = []\<rparr> hwaddr \<and>
      length name < IFNAMSIZ \<and> up (kern p') (name_field name) \<and>
      ether_Addr (bytes_to_ether hwaddr) = addr (kern p') (name_field name) \<and>
      (\<exists>fd k. os_open os cloneDevice (kern p) = (Inr fd, k) \<and> fds p' = fd # fds p)
    else protos st = [] \<and> running st = [] \<and> length (devices st) = 2"
proof -
  obtain opened hwaddr where t: "tap_answers os ''tap0'' p = ((opened, hwaddr), p')"
    and n: "NetInit True opened hwaddr stack_empty = (err, st)"
    using assms(2) by (auto simp: NetInit_on_def split: prod.splits)
  show ?thesis
  proof (cases "\<exists>e. opened = Inl e \<or> hwaddr = Inl e")
    case True
    then obtain e where "opened = Inl e \<or> hwaddr = Inl e" ..
    from setup_failed [OF this] n show ?thesis by (auto simp: stack_empty_def)
  next
    case False
    then obtain name f a where v: "opened = Inr (name, f)" "hwaddr = Inr a"
      by (metis obj_sumE surj_pair)
    from n v have "err = None" "st = stack_ready name f a" by (simp_all add: setup_fresh)
    with tap_answers_up [OF assms(1) t [unfolded v]] show ?thesis by auto
  qed
qed

text \<open>C7. In every run nothing panics, no send, no turn of a device, of ARP's resolver or of TCP's timer, but a
  turn of IP on a TCP segment whose data offset points outside the segment.\<close>

theorem stack_panics_only_on_options:
  assumes "(err, st0) = NetInit True (Inr (name, file)) (Inr hwaddr) stack_empty"
    and "stack_step\<^sup>*\<^sup>* (NetRun st0) st"
  shows "fst (dev_Rx ev d st) \<noteq> Some Panic \<and> fst (ip_TxHandler arp_Resolve proto data src dst st) \<noteq> Some Panic \<and>
    fst (tcpTimer arp_Resolve st) \<noteq> Some Panic \<and>
    (fst (ip_RxHandler (stack_rx iss) 0 st) = Some Panic \<longrightarrow>
      (\<exists>pb rest hdr payload. protoBuffers st ! 0 = pb # rest \<and>
        ip_data2header (slice_bytes st (pb_data pb)) = Inr (hdr, payload) \<and> ih_proto hdr = ProtoTCP \<and>
        options_beyond payload (ih_src hdr) (ih_dst hdr)))"
proof -
  have ok: "stack_ok st0 st" using stack_run_ok [OF assms(2), of st0] stack_ready_ok assms(1) by (simp add: setup_fresh)
  then have r: "routes_ok st" "tcp_ok st" by (simp_all add: stack_ok_def grounded_def layers_ok_def)
  have "protos st = [IProto, ArpProto]" "length (protoBuffers st) = 2"
    using ok assms(1) stack_ready_kept(3,5) by (auto simp: setup_fresh stack_ok_def grounded_def)
  then have k: "0 < length (protoBuffers st)" by simp
  have "fst (dev_Rx ev d st) \<noteq> Some Panic"
    by (auto simp: dev_Rx_ether ether_Rx_def ether_data2header_def DeviceInputHandler_def Let_def
        split: device.split read_event.split option.split)
  moreover have "\<exists>pb rest hdr payload. protoBuffers st ! 0 = pb # rest \<and>
        ip_data2header (slice_bytes st (pb_data pb)) = Inr (hdr, payload) \<and> ih_proto hdr = ProtoTCP \<and>
        options_beyond payload (ih_src hdr) (ih_dst hdr)"
    if p: "fst (ip_RxHandler (stack_rx iss) 0 st) = Some Panic"
  proof (cases "protoBuffers st ! 0")
    case (Cons pb rest)
    have "stack_ok st0 (st\<lparr>protoBuffers := (protoBuffers st)[0 := rest]\<rparr>)"
      by (rule turns_ok.take_buffer_Q [OF k ok Cons])
    from ip_Rx_packet_panic [OF this, of iss pb] p Cons show ?thesis by (simp add: ip_RxHandler_def)
  qed (use p in \<open>simp add: ip_RxHandler_def\<close>)
  ultimately show ?thesis
    using ip_TxHandler_no_panic [OF r(1)] layers.tcpTimer_no_panic [of st0 st] ok r(2)
    by (simp add: stack_ok_def)
qed

text \<open>C36. \<open>NetShutdown\<close> closes the tap device's file, but no device's flag \<open>Up\<close> is cleared, so every device still
  counts as open. The null device goes on to take what it is given, and the loopback device to hand it to
  the input handler; output on the tap device is not refused as that of a device that is
  down, but fails only in the write to its closed file. A second shutdown panics.\<close>

theorem shutdown_leaves_devices_up:
  assumes "stack_ok (stack_ready name file hwaddr) st" "\<not> done_closed st" "devices st ! 2 = Ether e"
    and "\<not> f_closed (e_file e)" "(err, st1) = NetShutdown st" "length data \<le> 65535"
  shows "err = None \<and> devices st1 = (devices st)[2 := Ether (e\<lparr>e_file := (e_file e)\<lparr>f_closed := True\<rparr>\<rparr>)] \<and>
    (\<forall>d < 3. isUp (devices st1 ! d)) \<and> DeviceOutput 0 data t dst st1 = (None, st1) \<and>
    DeviceOutput 1 data t dst st1 = DeviceInputHandler t (Heap data) 1 st1 \<and>
    (length data \<le> 1500 \<longrightarrow> DeviceOutput 2 data t (Some hw) st1 = (Some (Err ''file already closed''), st1)) \<and>
    NetShutdown st1 = (Some Panic, st1)"
proof -
  have k: "ip_kept (stack_ready name file hwaddr) st" using assms(1) by (simp add: stack_ok_def grounded_def)
  note n = stack_ready_kept(4) [OF k]
  have "dev_kept (Null \<lparr>null_name = ''null0'', null_flags = 1\<rparr>) (devices st ! 0)"
    using stack_ready_kept(7) [OF k, of 0] by (simp add: stack_ready_def)
  then have d0: "devices st ! 0 = Null \<lparr>null_name = ''null0'', null_flags = 1\<rparr>" by (cases "devices st ! 0") simp_all
  have "dev_kept (Loopback \<lparr>loop_name = ''loop0'', loop_flags = 0x0011\<rparr>) (devices st ! 1)"
    using stack_ready_kept(7) [OF k, of 1] by (simp add: stack_ready_def)
  then have d1: "devices st ! 1 = Loopback \<lparr>loop_name = ''loop0'', loop_flags = 0x0011\<rparr>" by (cases "devices st ! 1") simp_all
  have fl: "e_flags e = 0x0121" using stack_ready_tap [OF k] assms(3) by (metis device.inject(3))
  have up: "[0..<3] = [0, 1, 2 :: nat]" by (simp add: upt_rec)
  have same: "(devices st)[0 := Null \<lparr>null_name = ''null0'', null_flags = 1\<rparr>] = devices st"
    "(devices st)[Suc 0 := Loopback \<lparr>loop_name = ''loop0'', loop_flags = 0x0011\<rparr>] = devices st"
    by (metis d0 list_update_id) (metis One_nat_def d1 list_update_id)
  have st1: "(err, st1) = (None, st\<lparr>done_closed := True,
      devices := (devices st)[2 := Ether (e\<lparr>e_file := (e_file e)\<lparr>f_closed := True\<rparr>\<rparr>)]\<rparr>)"
    using assms(2,3,4) n d0 d1 fl
    by (simp add: assms(5) NetShutdown_def net_Close_def up isUp_def DeviceFlagUp_def file_Close_def same)
  have "isUp (devices st1 ! d)" if "d < 3" for d
  proof -
    have "d = 0 \<or> d = 1 \<or> d = 2" using that by arith
    then show ?thesis using st1 n d0 d1 fl by (auto simp: isUp_def DeviceFlagUp_def)
  qed
  moreover have len: "unat (of_nat (length data) :: u16) = length data" unfolding unat_of_nat using assms(6) by simp
  have "\<not> (0xffff :: u16) < of_nat (length data)" using assms(6) len by (simp add: word_less_nat_alt)
  then have "DeviceOutput 0 data t dst st1 = (None, st1)"
    "DeviceOutput 1 data t dst st1 = DeviceInputHandler t (Heap data) 1 st1"
    using st1 d0 d1 by (simp_all add: DeviceOutput_def dev_TxHandler_defs isUp_def DeviceFlagUp_def)
  moreover have "DeviceOutput 2 data t (Some hw) st1 = (Some (Err ''file already closed''), st1)"
    if "length data \<le> 1500"
  proof -
    have "\<not> (1500 :: u16) < of_nat (length data)" using that len by (simp add: word_less_nat_alt)
    then show ?thesis
      using st1 n fl by (simp add: DeviceOutput_def dev_TxHandler_defs isUp_def DeviceFlagUp_def file_Write_def ether_consts Let_def)
  qed
  ultimately show ?thesis using st1 by (simp add: NetShutdown_def)
qed

section \<open>Witnesses\<close>

definition demo_tap :: dev_file where
  "demo_tap = \<lparr>f_closed = False, f_fails = False, f_out = []\<rparr>"

lemma demo_init: "(None, stack_ready ''tap0'' demo_tap [2, 0, 0, 0, 0, 1]) =
    NetInit True (Inr (''tap0'', demo_tap)) (Inr [2, 0, 0, 0, 0, 1]) stack_empty"
  by (simp add: setup_fresh)

theorem stack_run_invariant_witness:
  "tcp_ok (snd (dev_Rx (ReadFrame [1, 2, 3]) 2 (NetRun (stack_ready ''tap0'' demo_tap [2, 0, 0, 0, 0, 1]))))"
proof -
  have "RunDev 2 \<in> set (running (NetRun (stack_ready ''tap0'' demo_tap [2, 0, 0, 0, 0, 1])))"
    by (simp add: NetRun_def net_Open_def stack_ready_def upt_rec)
  from stack_step.env [OF env_step.device [OF this]]
  have "stack_step\<^sup>*\<^sup>* (NetRun (stack_ready ''tap0'' demo_tap [2, 0, 0, 0, 0, 1]))
    (snd (dev_Rx (ReadFrame [1, 2, 3]) 2 (NetRun (stack_ready ''tap0'' demo_tap [2, 0, 0, 0, 0, 1]))))"
    by (rule r_into_rtranclp)
  from stack_run_invariant [OF demo_init this] show ?thesis by blast
qed

theorem setup_routes_to_gateway_witness:
  "\<exists>r. LookupTable 0xc0000209 (NetRun (stack_ready ''tap0'' demo_tap [2, 0, 0, 0, 0, 1])) = Inr r \<and>
    Addr_String (rt_nexthop r) = ''192.0.2.1''"
  using setup_routes_to_gateway [OF demo_init rtranclp.rtrancl_refl, of "0xc0000209"] by blast

theorem stack_panics_only_on_options_witness:
  "fst (dev_Rx (ReadFrame []) 2 (NetRun (stack_ready ''tap0'' demo_tap [2, 0, 0, 0, 0, 1]))) \<noteq> Some Panic"
  using stack_panics_only_on_options [OF demo_init rtranclp.rtrancl_refl, of "ReadFrame []" 2] by blast

theorem setup_on_kernel_witness:
  "\<exists>name. dev_Name (devices (snd (fst (NetInit_on (demo_system False) demo_process stack_empty))) ! 2) = name \<and>
     length name < IFNAMSIZ \<and> fst (kern (snd (NetInit_on (demo_system False) demo_process stack_empty)))"
proof -
  obtain err st p' where e: "((err, st), p') = NetInit_on (demo_system False) demo_process stack_empty"
    by (metis prod.collapse)
  have "fst (fst (NetInit_on (demo_system False) demo_process stack_empty)) = None"
    using demo_answers by (auto simp: NetInit_on_def setup_fresh split: prod.split)
  then have "err = None" by (simp add: e [symmetric])
  with setup_on_kernel [OF demo_kernel e] show ?thesis
    by (auto simp: e [symmetric] stack_ready_def tap_dev_def)
qed

text \<open>A stack whose cache knows the gateway, and a ping.\<close>

definition ping_stack :: stack_state where
  "ping_stack = (stack_ready ''tap0'' demo_tap [2, 0, 0, 0, 0, 1])\<lparr>caches := (replicate cacheSize cache_entry_zero)
     [0 := \<lparr>ce_state = CacheResolved, ce_pa = 0xc0000201, ce_ha = EtherAddr 2 0 0 0 0 9, ce_timeval = 0\<rparr>]\<rparr>"

lemma ping_stack_ok: "stack_ok (stack_ready ''tap0'' demo_tap [2, 0, 0, 0, 0, 1]) ping_stack"
proof -
  let ?st = "stack_ready ''tap0'' demo_tap [2, 0, 0, 0, 0, 1]"
  have "stack_ok ?st ?st"
    using stack_ready_ok [of "''tap0''" demo_tap "[2, 0, 0, 0, 0, 1]"]
      state_vars(2) [of "NetRun ?st" "now ?st" ?st ?st] by (simp add: NetRun_def net_Open_def tcp_state.defs)
  moreover have "arp_ok ping_stack"
    by (auto simp: arp_ok_def ping_stack_def cache_unique_def cacheSize_def cache_entry_zero_def nth_list_update_if)
  ultimately show ?thesis
    using below_step_stack_ok [OF set_caches_below] unfolding ping_stack_def by blast
qed

lemma ping_stack_simps:
  "devices ping_stack ! 2 = Ether (tap_dev ''tap0'' demo_tap [2, 0, 0, 0, 0, 1])"
  "protoBuffers ping_stack ! 0 = []" "arp_view ping_stack 0xc0000201 = Some (EtherAddr 2 0 0 0 0 9)"
  by (simp_all add: ping_stack_def stack_ready_def arp_view_def cacheSelect_def cacheSize_def cache_entry_zero_def
      eval_nat_numeral)

theorem shutdown_leaves_devices_up_witness:
  "fst (NetShutdown ping_stack) = None \<and> fst (NetShutdown (snd (NetShutdown ping_stack))) = Some Panic"
proof -
  have "\<not> done_closed ping_stack" by (simp add: ping_stack_def stack_ready_def stack_empty_def)
  from shutdown_leaves_devices_up [OF ping_stack_ok this ping_stack_simps(1) _ prod.collapse, of "[]"]
  show ?thesis by (simp add: tap_dev_def demo_tap_def)
qed

end
