(* ===== verification/Flows.thy ===== *)
theory Flows
  imports Setting
begin

text \<open>
  What becomes of a packet on its way through the layers of a stack that was set up: frames from the tap
  device to IP and ARP, the answer to a ping, the resolution of the gateway, and a socket's full queue.
\<close>

section \<open>Ways through the layers\<close>

text \<open>The packet that IP makes of \<open>data\<close>, and what happens to it: the gateway is resolved first.\<close>

definition gateway_packet :: "u8 \<Rightarrow> bytes \<Rightarrow> u32 \<Rightarrow> u16 \<Rightarrow> bytes" where
  "gateway_packet proto data dst i = snd (ip_header2data \<lparr>ih_vhl = 0x45, ih_tos = 0, ih_tol = of_nat (20 + length data),
     ih_id = i, ih_flags = 0, ih_ttl = 0xff, ih_proto = proto, ih_checksum = 0, ih_src = 0xc0000202, ih_dst = dst\<rparr> data)"

lemma iface_tap:
  assumes "ip_kept (stack_ready name file hwaddr) st"
  shows "ifaces st ! 1 = \<lparr>if_dev = Some 2, if_unicast = 0xc0000202, if_netmask = 0xffffff00, if_broadcast = 0xc00002ff\<rparr>"
  unfolding stack_ready_kept(6) [OF assms] by (simp add: stack_ready_def)

lemma resolves_gateway:
  assumes "ip_kept (stack_ready name file hwaddr) st" "devices st ! 2 = Ether e"
    and "length data \<le> 1480" "src = AddrAny \<and> dst \<noteq> AddrBroadcast \<or> src = 0xc0000202"
  shows "ip_TxHandler arp_Resolve proto data src dst st =
    (case arp_Resolve 1 0xc0000201 (st\<lparr>ip_id := ip_id st + 1\<rparr>) of
       (Inl err, s) \<Rightarrow> (Some err, s)
     | (Inr hw, s) \<Rightarrow> DeviceOutput 2 (gateway_packet proto data dst (ip_id st + 1)) ProtoTypeIP (Some hw) s)"
proof -
  note k = assms(1)
  have flags: "e_flags e = 0x0121" using stack_ready_tap [OF k] assms(2) by (metis device.inject(3))
  note ifc = iface_tap [OF k] iface_tap [OF k, unfolded One_nat_def]
  define st1 where "st1 = st\<lparr>ip_id := ip_id st + 1\<rparr>"
  have "ip_TxHandler arp_Resolve proto data src dst st =
      ip_output arp_Resolve 1 2 0xc0000201 (gateway_packet proto data dst (ip_id st + 1)) st1"
    using assms(2,3,4)
    by (auto simp: ip_TxHandler_def gateway_route [OF k] Let_def ifc generateId_def st1_def gateway_packet_def case_prod_beta
        HeaderSizeMin_def AddrAny_def AddrBroadcast_def ether_consts)
  then show ?thesis
    using assms(2) flags
    by (simp add: ip_output_def st1_def ifc AddrBroadcast_def DeviceFlagNeedARP_def)
qed

lemma tap_output:
  assumes "devices st ! 2 = Ether e" "e_flags e = 0x0121" "\<not> f_closed (e_file e)" "\<not> f_fails (e_file e)"
    and "length packet \<le> 1500"
  shows "DeviceOutput 2 packet t (Some hw) st =
    (None, st\<lparr>devices := (devices st)[2 := Ether (e\<lparr>e_file := (e_file e)\<lparr>f_out := f_out (e_file e) @
       [ether_header2data \<lparr>eh_src = e_addr e, eh_dst = hw, eh_type = t\<rparr> packet]\<rparr>\<rparr>)]\<rparr>)"
proof -
  have "unat (of_nat (length packet) :: u16) = length packet" unfolding unat_of_nat using assms(5) by simp
  then have "\<not> (1500 :: u16) < of_nat (length packet)"
    using assms(5) by (simp add: word_less_nat_alt del: of_nat_add)
  then show ?thesis
    using assms(1-4)
    by (simp add: DeviceOutput_def dev_TxHandler_defs isUp_Ether ether_consts DeviceFlagUp_def file_Write_def)
qed

text \<open>A packet goes to the gateway in one frame when the cache knows the gateway.\<close>

lemma sends_to_gateway:
  assumes "ip_kept (stack_ready name file hwaddr) st" "devices st ! 2 = Ether e"
    and "\<not> f_closed (e_file e)" "\<not> f_fails (e_file e)"
    and "arp_view st 0xc0000201 = Some gw" "length data \<le> 1480" "src = AddrAny \<and> dst \<noteq> AddrBroadcast \<or> src = 0xc0000202"
  shows "ip_TxHandler arp_Resolve proto data src dst st =
    (None, st\<lparr>ip_id := ip_id st + 1, devices := (devices st)[2 := Ether (e\<lparr>e_file := (e_file e)\<lparr>f_out := f_out (e_file e) @
       [ether_header2data \<lparr>eh_src = e_addr e, eh_dst = gw, eh_type = ProtoTypeIP\<rparr>
         (gateway_packet proto data dst (ip_id st + 1))]\<rparr>\<rparr>)]\<rparr>)"
proof -
  note k = assms(1)
  have flags: "e_flags e = 0x0121" using stack_ready_tap [OF k] assms(2) by (metis device.inject(3))
  define st1 where "st1 = st\<lparr>ip_id := ip_id st + 1\<rparr>"
  have "arp_view st1 0xc0000201 = Some gw" using assms(5) arp_view_cong [of st1 st] by (simp add: st1_def)
  then have res: "arp_Resolve 1 0xc0000201 st1 = (Inr gw, st1)"
    by (intro arp_Resolve_eq(1) [where d = 2]) (simp_all add: st1_def iface_tap [OF k, unfolded One_nat_def] assms(2))
  have "length (gateway_packet proto data dst (ip_id st + 1)) \<le> 1500"
    using assms(6) by (simp add: gateway_packet_def ip_header2data_def Let_def)
  from tap_output [OF _ _ _ _ this, of st1 e] show ?thesis
    unfolding resolves_gateway [OF assms(1,2,6,7)] st1_def [symmetric] res
    using assms(2-4) flags by (simp add: st1_def)
qed

text \<open>When the cache does not know it, one request for it goes out instead, and the caller gets an error.\<close>

lemma asks_for_gateway:
  assumes "ip_kept (stack_ready name file hwaddr) st" "devices st ! 2 = Ether e"
    and "\<not> f_closed (e_file e)" "\<not> f_fails (e_file e)"
    and "arp_view st 0xc0000201 = None" "length data \<le> 1480" "src = AddrAny \<and> dst \<noteq> AddrBroadcast \<or> src = 0xc0000202"
  obtains m cs frame where "ip_TxHandler arp_Resolve proto data src dst st =
      (Some (Err m), st\<lparr>ip_id := ip_id st + 1, caches := cs,
        devices := (devices st)[2 := Ether (e\<lparr>e_file := (e_file e)\<lparr>f_out := f_out (e_file e) @ [frame]\<rparr>\<rparr>)]\<rparr>)"
    and "ether_data2header frame = Inr (\<lparr>eh_src = e_addr e, eh_dst = EtherAddrBroadcast, eh_type = ProtoTypeArp\<rparr>,
        arp_header2data \<lparr>ah_hrd = arpHrdEther, ah_pro = arpProIP, ah_hln = 6, ah_pln = 4, ah_op = arpOpRequest,
          ah_sha = e_addr e, ah_spa = 0xc0000202, ah_tha = EtherAddrAny, ah_tpa = 0xc0000201\<rparr>)"
proof -
  note k = assms(1)
  have "e_flags e = 0x0121" using stack_ready_tap [OF k] assms(2) by (metis device.inject(3))
  then have flags: "e_flags e AND DeviceFlagUp > 0" by (simp add: DeviceFlagUp_def)
  note ifc = iface_tap [OF k, unfolded One_nat_def]
  define st1 where "st1 = st\<lparr>ip_id := ip_id st + 1\<rparr>"
  have view: "arp_view st1 0xc0000201 = None" using assms(5) arp_view_cong [of st1 st] by (simp add: st1_def)
  have st1: "if_dev (ifaces st1 ! 1) = Some 2" "devices st1 ! 2 = Ether e" by (simp_all add: st1_def ifc assms(2))
  from arp_Resolve_miss [OF st1 view] obtain m cs where
    r: "arp_Resolve 1 0xc0000201 st1 = (Inl (Err m), snd (arp_Request 1 0xc0000201 (st1\<lparr>caches := cs\<rparr>)))" .
  from arp_send_frame [of "st1\<lparr>caches := cs\<rparr>" 1 2 e arpOpRequest EtherAddrAny "0xc0000201" EtherAddrBroadcast] st1 assms(3,4) flags
  obtain frame where "snd (arp_Request 1 0xc0000201 (st1\<lparr>caches := cs\<rparr>)) = st1\<lparr>caches := cs, devices := (devices st)[2 := Ether
        (e\<lparr>e_file := (e_file e)\<lparr>f_out := f_out (e_file e) @ [frame]\<rparr>\<rparr>)]\<rparr>"
    and f: "ether_data2header frame = Inr (\<lparr>eh_src = e_addr e, eh_dst = EtherAddrBroadcast, eh_type = ProtoTypeArp\<rparr>,
        arp_header2data \<lparr>ah_hrd = arpHrdEther, ah_pro = arpProIP, ah_hln = 6, ah_pln = 4, ah_op = arpOpRequest,
          ah_sha = e_addr e, ah_spa = 0xc0000202, ah_tha = EtherAddrAny, ah_tpa = 0xc0000201\<rparr>)"
    by (auto simp: arp_Request_def st1_def ifc)
  with r that show ?thesis
    unfolding resolves_gateway [OF assms(1,2,6,7)] st1_def [symmetric] by (simp add: st1_def)
qed

text \<open>A frame for this host is queued for its protocol, and what is read from the queue is its payload.\<close>

lemma frame_queued:
  assumes "stack_ok (stack_ready name file hwaddr) st" "devices st ! 2 = Ether e" "protoBuffers st ! k = []"
    and "(k, typ) \<in> {(0, ProtoTypeIP), (1, ProtoTypeArp)}"
    and "frame = ether_header2data \<lparr>eh_src = s, eh_dst = e_addr e, eh_type = typ\<rparr> packet" "length frame \<le> 1514"
    and "st1 = snd (ether_Rx (ReadFrame frame) 2 st)"
  shows "\<exists>buf pb. st1 = st\<lparr>devices := (devices st)[2 := Ether (e\<lparr>e_rxbuf := buf\<rparr>)],
      protoBuffers := (protoBuffers st)[k := [pb]]\<rparr> \<and> pb_dev pb = 2 \<and> slice_bytes st1 (pb_data pb) = packet \<and>
    pb_data pb = RxBuf 2 14 (length packet)"
proof -
  have kept: "ip_kept (stack_ready name file hwaddr) st" using assms(1) by (simp add: stack_ok_def grounded_def)
  have rx: "length (e_rxbuf e) = 1514" using stack_ready_tap [OF kept] assms(2) by (metis device.inject(3))
  have len: "length frame = 14 + length packet" by (simp add: assms(5) ether_header2data_def)
  have proto: "proto_index typ (protos st) = Some k"
    using assms(4) by (auto simp: stack_ready_kept(3) [OF kept] ProtoTypeIP_def ProtoTypeArp_def)
  define buf where "buf = frame @ drop (length frame) (e_rxbuf e)"
  have rd: "ether_data2header buf = Inr (\<lparr>eh_src = s, eh_dst = e_addr e, eh_type = typ\<rparr>,
      packet @ drop (length frame) (e_rxbuf e))"
    using ether_reads_back [of "\<lparr>eh_src = s, eh_dst = e_addr e, eh_type = typ\<rparr>"
        "packet @ drop (length frame) (e_rxbuf e)"]
    by (simp add: buf_def assms(5) ether_header2data_def)
  have st1: "st1 = st\<lparr>devices := (devices st)[2 := Ether (e\<lparr>e_rxbuf := buf\<rparr>)],
      protoBuffers := (protoBuffers st)[k := [\<lparr>pb_data = RxBuf 2 14 (length frame - 14), pb_dev = 2\<rparr>]]\<rparr>"
    using assms(2,3,6) rx rd [unfolded buf_def len]
    by (simp add: assms(7) ether_Rx_def Let_def EtherHeaderSize_def buf_def len DeviceInputHandler_def
        proto ProtoBufferSize_def)
  have "slice_bytes st1 (RxBuf 2 14 (length frame - 14)) = packet"
    using stack_ready_kept(4) [OF kept] by (simp add: st1 buf_def assms(5) ether_header2data_def)
  with st1 show ?thesis by (intro exI [of _ buf] exI [of _ "\<lparr>pb_data = RxBuf 2 14 (length frame - 14), pb_dev = 2\<rparr>"]) (simp add: len)
qed

text \<open>A turn of IP on a packet that was queued from the tap device.\<close>

lemma ip_turn:
  assumes "stack_ok (stack_ready name file hwaddr) st" "protoBuffers st ! 0 = pb # rest" "pb_dev pb = 2"
    and "ip_data2header (slice_bytes st (pb_data pb)) = Inr (hdr, payload)" "ih_flags hdr AND 0x3fff = 0"
    and "p \<in> {IcmpProto, UdpProto, TcpProto}" "ih_proto hdr = ip_upper_Type p"
    and "st1 = st\<lparr>protoBuffers := (protoBuffers st)[0 := rest]\<rparr>"
  shows "\<exists>sl. slice_bytes st1 sl = payload \<and>
    sl = slice_from (length (slice_bytes st1 (pb_data pb)) - length payload) (pb_data pb) \<and>
    ip_RxHandler (stack_rx iss) 0 st = (case stack_rx iss p sl (ih_src hdr) (ih_dst hdr) 1 st1 of
      (Some (Err m), s) \<Rightarrow> (None, s) | (e, s) \<Rightarrow> (e, s))"
proof -
  have k: "ip_kept (stack_ready name file hwaddr) st" using assms(1) by (simp add: stack_ok_def grounded_def)
  obtain e where e: "devices st ! 2 = Ether e" "e_interfaces e = [1]" by (rule stack_ready_tap [OF k])
  have "ih_flags hdr AND 0x2000 = (ih_flags hdr AND 0x3fff) AND 0x2000"
    "ih_flags hdr AND 0x1fff = (ih_flags hdr AND 0x3fff) AND 0x1fff" by (simp_all add: and.assoc)
  then have fl: "ih_flags hdr AND 0x2000 = 0" "ih_flags hdr AND 0x1fff = 0" unfolding assms(5) by simp_all
  define sl where "sl = slice_from (length (slice_bytes st1 (pb_data pb)) - length payload) (pb_data pb)"
  have rd: "ip_data2header (slice_bytes st1 (pb_data pb)) = Inr (hdr, payload)" by (simp add: assms(4,8))
  have sl: "slice_bytes st1 sl = payload" unfolding sl_def slice_bytes_from by (rule ip_payload_slice [OF rd])
  have po: "ip_protos_ok st1" using assms(1) by (simp add: assms(8) stack_ok_def grounded_def layers_ok_def ip_protos_ok_def)
  have "dev_Interfaces (devices st1 ! pb_dev pb) = [1]" using e assms(3) by (simp add: assms(8))
  note turn = ip_Rx_packet_eq [OF po rd this, of "stack_rx iss"]
  have "find (\<lambda>q. ip_upper_Type q = ih_proto hdr) (ip_protos st1) = Some p"
    using assms(6) stack_ready_kept(2) [OF k] by (auto simp: assms(7,8) ProtoICMP_def ProtoUDP_def ProtoTCP_def)
  then have "ip_Rx_packet (stack_rx iss) pb st1 = (case stack_rx iss p sl (ih_src hdr) (ih_dst hdr) 1 st1 of
      (Some (Err m), s) \<Rightarrow> (None, s) | (e, s) \<Rightarrow> (e, s))"
    unfolding turn sl_def fl by simp
  with sl sl_def show ?thesis by (intro exI [of _ sl]) (simp add: ip_RxHandler_def assms(2,8))
qed

text \<open>The frames that left by the tap device so far; the turns of the device and of IP on a frame that is read
  from it; a frame with a packet.\<close>

definition tap_frames :: "'a net_state_scheme \<Rightarrow> bytes list" where
  "tap_frames st = (case devices st ! 2 of Ether e \<Rightarrow> f_out (e_file e) | _ \<Rightarrow> [])"

definition tap_turns :: "u32 \<Rightarrow> bytes \<Rightarrow> stack_state \<Rightarrow> stack_state" where
  "tap_turns iss frame st = snd (ip_RxHandler (stack_rx iss) 0 (snd (dev_Rx (ReadFrame frame) 2 st)))"

definition packet_frame :: "ether_addr \<Rightarrow> ether_addr \<Rightarrow> ip_header \<Rightarrow> bytes \<Rightarrow> bytes" where
  "packet_frame s d iph msg = ether_header2data \<lparr>eh_src = s, eh_dst = d, eh_type = ProtoTypeIP\<rparr> (snd (ip_header2data iph msg))"

lemma length_packet_frame: "length (packet_frame s d iph msg) = 34 + length msg"
  by (simp add: packet_frame_def ether_header2data_def ip_header2data_def Let_def)

lemma tap_turns_ok:
  assumes "stack_ok (stack_ready name file hwaddr) st"
  shows "stack_ok (stack_ready name file hwaddr) (tap_turns iss frame st)"
proof -
  have k: "ip_kept (stack_ready name file hwaddr) st" using assms(1) by (simp add: stack_ok_def grounded_def)
  obtain e where e: "devices st ! 2 = Ether e" by (rule stack_ready_tap [OF k])
  have ok1: "stack_ok (stack_ready name file hwaddr) (snd (dev_Rx (ReadFrame frame) 2 st))"
    unfolding dev_Rx_ether by (rule turns_ok.Q_below [OF ether_Rx_below assms(1)])
  then have "ip_kept (stack_ready name file hwaddr) (snd (dev_Rx (ReadFrame frame) 2 st))"
    by (simp add: stack_ok_def grounded_def)
  from stack_ready_kept(5) [OF this] show ?thesis
    unfolding tap_turns_def by (intro turns_ok.ip_RxHandler_Q ok1) auto
qed

lemma gateway_frames:
  assumes "ip_kept (stack_ready name file hwaddr) st" "devices st ! 2 = Ether e"
    and "\<not> f_closed (e_file e)" "\<not> f_fails (e_file e)"
    and "arp_view st 0xc0000201 = Some gw" "length data \<le> 1480" "src = AddrAny \<and> dst \<noteq> AddrBroadcast \<or> src = 0xc0000202"
  shows "fst (ip_TxHandler arp_Resolve proto data src dst st) = None"
    "tap_frames (snd (ip_TxHandler arp_Resolve proto data src dst st)) = f_out (e_file e) @
       [ether_header2data \<lparr>eh_src = e_addr e, eh_dst = gw, eh_type = ProtoTypeIP\<rparr>
         (gateway_packet proto data dst (ip_id st + 1))]"
  using stack_ready_kept(4) [OF assms(1)] by (simp_all add: sends_to_gateway [OF assms] tap_frames_def)

text \<open>A packet that fits in a frame reaches its protocol, with nothing changed but the device's buffer.\<close>

lemma tap_turns_packet:
  assumes "stack_ok (stack_ready name file hwaddr) st" "devices st ! 2 = Ether e" "protoBuffers st ! 0 = []"
    and "length msg \<le> 1480" "ip_sendable iph msg" "ih_flags iph = 0"
    and "p \<in> {IcmpProto, UdpProto, TcpProto}" "ih_proto iph = ip_upper_Type p"
  obtains buf sl st' where "st' = st\<lparr>devices := (devices st)[2 := Ether (e\<lparr>e_rxbuf := buf\<rparr>)]\<rparr>"
    "stack_ok (stack_ready name file hwaddr) st'" "slice_bytes st' sl = msg" "sl = RxBuf 2 34 (length msg)"
    "tap_turns iss (packet_frame s (e_addr e) iph msg) st = snd (stack_rx iss p sl (ih_src iph) (ih_dst iph) 1 st')"
proof -
  have k: "ip_kept (stack_ready name file hwaddr) st" using assms(1) by (simp add: stack_ok_def grounded_def)
  define st1 where "st1 = snd (ether_Rx (ReadFrame (packet_frame s (e_addr e) iph msg)) 2 st)"
  have "length (packet_frame s (e_addr e) iph msg) \<le> 1514" using assms(4) by (simp add: length_packet_frame)
  then obtain buf pb where st1: "st1 = st\<lparr>devices := (devices st)[2 := Ether (e\<lparr>e_rxbuf := buf\<rparr>)],
      protoBuffers := (protoBuffers st)[0 := [pb]]\<rparr>" and pb: "pb_dev pb = 2"
    and packet: "slice_bytes st1 (pb_data pb) = snd (ip_header2data iph msg)"
    and rx: "pb_data pb = RxBuf 2 14 (20 + length msg)"
    using frame_queued [OF assms(1-3) _ packet_frame_def _ st1_def] by (force simp: ip_header2data_def Let_def)
  have n: "0 < length (protoBuffers st)" using stack_ready_kept(4,5) [OF k] by simp
  define g where "g = fst (ip_header2data iph msg)"
  have rd: "ip_data2header (slice_bytes st1 (pb_data pb)) = Inr (g, msg)"
    unfolding packet g_def by (rule ip_codec.reads_back [OF assms(5)])
  have g: "ih_flags g = 0" "ih_proto g = ip_upper_Type p" "ih_src g = ih_src iph" "ih_dst g = ih_dst iph"
    using assms(6,8) by (simp_all add: g_def ip_header2data_def Let_def)
  have ok1: "stack_ok (stack_ready name file hwaddr) st1"
    unfolding st1_def by (rule turns_ok.Q_below [OF ether_Rx_below assms(1)])
  define st' where "st' = st1\<lparr>protoBuffers := (protoBuffers st1)[0 := []]\<rparr>"
  have "(protoBuffers st)[0 := []] = protoBuffers st" using assms(3) by (metis list_update_id)
  then have st': "st' = st\<lparr>devices := (devices st)[2 := Ether (e\<lparr>e_rxbuf := buf\<rparr>)]\<rparr>"
    by (simp add: st'_def st1)
  have "protoBuffers st1 ! 0 = [pb]" using n by (simp add: st1)
  then obtain sl where sl: "slice_bytes st' sl = msg" and
    part: "sl = slice_from (length (slice_bytes st' (pb_data pb)) - length msg) (pb_data pb)" and
    turn: "ip_RxHandler (stack_rx iss) 0 st1 = (case stack_rx iss p sl (ih_src g) (ih_dst g) 1 st' of
      (Some (Err m), s) \<Rightarrow> (None, s) | (e, s) \<Rightarrow> (e, s))"
    using ip_turn [OF ok1 _ pb rd, of "[]" p st' iss] g(1,2) assms(7) by (auto simp: st'_def)
  have "snd (ip_RxHandler (stack_rx iss) 0 st1) = snd (stack_rx iss p sl (ih_src iph) (ih_dst iph) 1 st')"
    unfolding turn g(3,4) by (simp split: prod.split option.split error.split)
  moreover have "stack_ok (stack_ready name file hwaddr) st'"
    using turns_ok.take_buffer_Q [OF _ ok1, of 0 pb "[]"] n by (simp add: st'_def st1)
  moreover have "slice_bytes st' (pb_data pb) = slice_bytes st1 (pb_data pb)" by (simp add: st'_def)
  then have "sl = RxBuf 2 34 (length msg)"
    unfolding part rx packet [unfolded rx] by (simp add: packet [unfolded rx] ip_header2data_def Let_def)
  ultimately show ?thesis
    using st' sl by (intro that [of st' buf sl]) (simp_all add: tap_turns_def dev_Rx_ether st1_def)
qed

section \<open>Properties\<close>

text \<open>C3. A ping is answered, through all the layers: a frame for the tap device with an echo request for its
  address is queued by the device's turn and answered by IP's, when the cache knows the gateway: one
  frame leaves, for the gateway, with the echo reply to the source, its values and its payload.\<close>

theorem ping_answered:
  assumes "stack_ok (stack_ready name file hwaddr) st" "devices st ! 2 = Ether e" "protoBuffers st ! 0 = []"
    and "\<not> f_closed (e_file e)" "\<not> f_fails (e_file e)" "arp_view st 0xc0000201 = Some gw"
    and "length msg \<le> 1480" "ip_sendable iph msg" "ih_flags iph = 0" "ih_proto iph = ProtoICMP" "ih_dst iph = 0xc0000202"
    and "CheckSum msg 0 = 0" "icmp_data2header msg = Inr (hdr, payload)" "ic_typ hdr = TypeEcho"
    and "reply = snd (icmp_header2data \<lparr>ic_typ = TypeEchoReply, ic_code = 0, ic_checksum = 0, ic_values = ic_values hdr\<rparr> payload)"
  shows "tap_frames (tap_turns iss (packet_frame s (e_addr e) iph msg) st) = tap_frames st @
    [ether_header2data \<lparr>eh_src = e_addr e, eh_dst = gw, eh_type = ProtoTypeIP\<rparr>
       (gateway_packet ProtoICMP reply (ih_src iph) (ip_id st + 1))]"
proof -
  obtain buf sl st' where st': "st' = st\<lparr>devices := (devices st)[2 := Ether (e\<lparr>e_rxbuf := buf\<rparr>)]\<rparr>"
    and ok: "stack_ok (stack_ready name file hwaddr) st'" and sl: "slice_bytes st' sl = msg"
    and sl_at: "sl = RxBuf 2 34 (length msg)"
    and turn: "tap_turns iss (packet_frame s (e_addr e) iph msg) st =
      snd (stack_rx iss IcmpProto sl (ih_src iph) (ih_dst iph) 1 st')"
    by (rule tap_turns_packet [OF assms(1-3,7-9), of IcmpProto iss s]) (use assms(10) in simp_all)
  from ok have k: "ip_kept (stack_ready name file hwaddr) st'" by (simp add: stack_ok_def grounded_def)
  have n: "2 < length (devices st')" using stack_ready_kept(4,5) [OF k] by simp
  have uni: "if_unicast (ifaces st' ! 1) = 0xc0000202"
    unfolding stack_ready_kept(6) [OF k] by (simp add: stack_ready_def)
  have m: "8 \<le> length msg" using assms(13) by (auto simp: icmp_data2header_def IcmpHeaderSize_def split: if_splits)
  then have rx: "stack_rx iss IcmpProto sl (ih_src iph) (ih_dst iph) 1 st' =
      ip_TxHandler arp_Resolve ProtoICMP reply 0xc0000202 (ih_src iph) st'"
    using assms(11-15) uni by (simp add: stack_rx_def icmp_RxHandler_def sl IcmpHeaderSize_def icmp_TxHandler_def Let_def
        case_prod_beta)
  have view: "arp_view st' 0xc0000201 = Some gw" using assms(6) arp_view_cong [of st' st] by (simp add: st')
  have d: "devices st' ! 2 = Ether (e\<lparr>e_rxbuf := buf\<rparr>)" using n by (simp add: st')
  have "length reply = length msg"
    using assms(13) m by (auto simp: assms(15) icmp_header2data_def icmp_data2header_def Let_def IcmpHeaderSize_def)
  then have "tap_frames (snd (ip_TxHandler arp_Resolve ProtoICMP reply 0xc0000202 (ih_src iph) st')) = f_out (e_file e) @
      [ether_header2data \<lparr>eh_src = e_addr e, eh_dst = gw, eh_type = ProtoTypeIP\<rparr>
         (gateway_packet ProtoICMP reply (ih_src iph) (ip_id st' + 1))]"
    using gateway_frames(2) [OF k d _ _ view] assms(4,5,7) by simp
  moreover have "tap_frames st = f_out (e_file e)" "ip_id st' = ip_id st" using assms(2) by (simp_all add: tap_frames_def st')
  ultimately show ?thesis unfolding turn rx by simp
qed

text \<open>A datagram for a socket whose queue is full blocks the one goroutine that handles IP, so nothing else
  that arrives by IP is handled until somebody reads from that socket.\<close>

theorem udp_full_queue_blocks_ip:
  assumes "stack_ok (stack_ready name file hwaddr) st" "protoBuffers st ! 0 = pb # rest" "pb_dev pb = 2"
    and "ip_data2header (slice_bytes st (pb_data pb)) = Inr (hdr, data)" "ih_flags hdr AND 0x3fff = 0"
    and "ih_proto hdr = ProtoUDP" "udp_data2header data (ih_src hdr) (ih_dst hdr) = Inr (uh, payload)"
    and "udp_pcbSelect (ih_dst hdr) (uh_dst uh) st = Some k" "length (up_rxQueue (udp_store st ! k)) = pcbBufSize"
  shows "ip_RxHandler (stack_rx iss) 0 st = (Some Blocked, st\<lparr>protoBuffers := (protoBuffers st)[0 := rest]\<rparr>)"
proof -
  define st1 where "st1 = st\<lparr>protoBuffers := (protoBuffers st)[0 := rest]\<rparr>"
  have "ih_proto hdr = ip_upper_Type UdpProto" using assms(6) by simp
  then obtain sl where sl: "slice_bytes st1 sl = data" and
    turn: "ip_RxHandler (stack_rx iss) 0 st = (case stack_rx iss UdpProto sl (ih_src hdr) (ih_dst hdr) 1 st1 of
      (Some (Err m), s) \<Rightarrow> (None, s) | (e, s) \<Rightarrow> (e, s))"
    using ip_turn [OF assms(1-5), of UdpProto st1 iss] by (auto simp: st1_def)
  have "udp_pcbSelect (ih_dst hdr) (uh_dst uh) st1 = Some k" using assms(8) by (simp add: udp_pcbSelect_def st1_def)
  then have "stack_rx iss UdpProto sl (ih_src hdr) (ih_dst hdr) 1 st1 = (Some Blocked, st1)"
    using assms(7,9) by (simp add: stack_rx_def udp_RxHandler_def sl) (simp add: st1_def)
  then show ?thesis by (simp add: turn) (simp add: st1_def)
qed

text \<open>C4. The first packet after setup is lost, but not the next one: a send that finds no entry for the
  gateway returns an error and broadcasts one request; when the gateway's reply has been read by the
  device and handled by ARP, the same send succeeds and its packet leaves in one frame for the gateway.\<close>

theorem gateway_resolved:
  assumes "stack_ok (stack_ready name file hwaddr) st" "devices st ! 2 = Ether e" "protoBuffers st ! 1 = []"
    and "\<not> f_closed (e_file e)" "\<not> f_fails (e_file e)" "arp_view st 0xc0000201 = None"
    and "length data \<le> 1480" "src = AddrAny \<and> dst \<noteq> AddrBroadcast \<or> src = 0xc0000202"
    and "(err, st1) = ip_TxHandler arp_Resolve proto data src dst st"
    and "reply = \<lparr>ah_hrd = arpHrdEther, ah_pro = arpProIP, ah_hln = 6, ah_pln = 4, ah_op = arpOpReply,
      ah_sha = gw, ah_spa = 0xc0000201, ah_tha = e_addr e, ah_tpa = 0xc0000202\<rparr>"
    and "frame = ether_header2data \<lparr>eh_src = s, eh_dst = e_addr e, eh_type = ProtoTypeArp\<rparr> (arp_header2data reply @ pad)"
    and "length frame \<le> 1514" "st2 = snd (dev_Rx (ReadFrame frame) 2 st1)" "(t, st3) = arp_RxHandler 1 st2"
    and "(err4, st4) = ip_TxHandler arp_Resolve proto data src dst st3"
  shows "(\<exists>m. err = Some (Err m)) \<and>
    (\<exists>request. tap_frames st1 = tap_frames st @ [request] \<and> ether_data2header request =
       Inr (\<lparr>eh_src = e_addr e, eh_dst = EtherAddrBroadcast, eh_type = ProtoTypeArp\<rparr>,
         arp_header2data \<lparr>ah_hrd = arpHrdEther, ah_pro = arpProIP, ah_hln = 6, ah_pln = 4, ah_op = arpOpRequest,
           ah_sha = e_addr e, ah_spa = 0xc0000202, ah_tha = EtherAddrAny, ah_tpa = 0xc0000201\<rparr>)) \<and>
    t = Continue \<and> err4 = None \<and>
    tap_frames st4 = tap_frames st1 @ [ether_header2data \<lparr>eh_src = e_addr e, eh_dst = gw, eh_type = ProtoTypeIP\<rparr>
       (gateway_packet proto data dst (ip_id st + 2))]"
proof -
  have k: "ip_kept (stack_ready name file hwaddr) st" using assms(1) by (simp add: stack_ok_def grounded_def)
  have n: "1 < length (protoBuffers st)" "2 < length (devices st)"
    using stack_ready_kept(4,5) [OF k] by simp_all
  obtain m cs request where eq: "ip_TxHandler arp_Resolve proto data src dst st =
      (Some (Err m), st\<lparr>ip_id := ip_id st + 1, caches := cs,
        devices := (devices st)[2 := Ether (e\<lparr>e_file := (e_file e)\<lparr>f_out := f_out (e_file e) @ [request]\<rparr>\<rparr>)]\<rparr>)"
    and request: "ether_data2header request = Inr (\<lparr>eh_src = e_addr e, eh_dst = EtherAddrBroadcast, eh_type = ProtoTypeArp\<rparr>,
        arp_header2data \<lparr>ah_hrd = arpHrdEther, ah_pro = arpProIP, ah_hln = 6, ah_pln = 4, ah_op = arpOpRequest,
          ah_sha = e_addr e, ah_spa = 0xc0000202, ah_tha = EtherAddrAny, ah_tpa = 0xc0000201\<rparr>)"
    by (rule asks_for_gateway [OF k assms(2,4-8), of proto])
  have tx: "err = Some (Err m)" "st1 = st\<lparr>ip_id := ip_id st + 1, caches := cs,
        devices := (devices st)[2 := Ether (e\<lparr>e_file := (e_file e)\<lparr>f_out := f_out (e_file e) @ [request]\<rparr>\<rparr>)]\<rparr>"
    using eq assms(9) by simp_all
  define e1 where "e1 = e\<lparr>e_file := (e_file e)\<lparr>f_out := f_out (e_file e) @ [request]\<rparr>\<rparr>"
  have e1: "devices st1 ! 2 = Ether e1" "e_addr e1 = e_addr e" "protoBuffers st1 ! 1 = []"
    using n assms(3) by (simp_all add: tx e1_def)
  have ok1: "stack_ok (stack_ready name file hwaddr) st1"
    using turns_ok.Q_below [OF ip_TxHandler_below assms(1), of proto data src dst] assms(9) by (metis snd_conv)
  obtain buf pb where st2: "st2 = st1\<lparr>devices := (devices st1)[2 := Ether (e1\<lparr>e_rxbuf := buf\<rparr>)],
      protoBuffers := (protoBuffers st1)[1 := [pb]]\<rparr>" and pb: "pb_dev pb = 2"
    and packet: "slice_bytes st2 (pb_data pb) = arp_header2data reply @ pad"
    using frame_queued [OF ok1 e1(1,3), of ProtoTypeArp frame s "arp_header2data reply @ pad" st2] assms(11-13) e1(2)
    by (auto simp: dev_Rx_ether)
  have ok2: "stack_ok (stack_ready name file hwaddr) st2"
    unfolding assms(13) dev_Rx_ether by (rule turns_ok.Q_below [OF ether_Rx_below ok1])
  define s2 where "s2 = st2\<lparr>protoBuffers := (protoBuffers st2)[1 := []]\<rparr>"
  have ok3: "stack_ok (stack_ready name file hwaddr) s2"
    using turns_ok.take_buffer_Q [OF _ ok2, of 1 pb "[]"] n by (simp add: s2_def st2 tx)
  then have k3: "ip_kept (stack_ready name file hwaddr) s2" and arp3: "arp_ok s2"
    by (simp_all add: stack_ok_def grounded_def layers_ok_def)
  obtain e' where "devices s2 ! 2 = Ether e'" "e_interfaces e' = [1]" by (rule stack_ready_tap [OF k3])
  then have ifc: "GetIface s2 (pb_dev pb) IfaceFamilyIP = Inr 1"
    by (simp add: pb GetIface_def iface_Family_def)
  have "arp_data2header (slice_bytes s2 (pb_data pb)) = Inr reply"
    unfolding s2_def slice_bytes_channels packet
    by (rule arp_reads_back) (simp add: assms(10) arp_valid_def)
  from arp_Rx_packet_for_us [OF this ifc]
  have "arp_Rx_packet pb s2 = (Continue, arp_learn 0xc0000201 gw s2)"
    by (simp add: iface_tap [OF k3, unfolded One_nat_def] assms(10) arp_consts)
  then have turn: "t = Continue" "st3 = arp_learn 0xc0000201 gw s2"
    using assms(14) n by (simp_all add: arp_RxHandler_def st2 tx s2_def)
  have view: "arp_view st3 0xc0000201 = Some gw"
    unfolding turn by (rule arp_table.view_learn [OF arp3])
  obtain cs3 where st3: "st3 = s2\<lparr>caches := cs3\<rparr>" using turn(2) arp_learn_updates by blast
  have "ip_kept (stack_ready name file hwaddr) st3"
    unfolding st3 by (rule ip_kept_trans [OF k3]) simp
  from sends_to_gateway [OF this _ _ _ view assms(7,8), of "e1\<lparr>e_rxbuf := buf\<rparr>" proto]
  have "err4 = None" "devices st4 ! 2 = Ether (e1\<lparr>e_rxbuf := buf, e_file := (e_file e1)\<lparr>f_out := f_out (e_file e1) @
       [ether_header2data \<lparr>eh_src = e_addr e, eh_dst = gw, eh_type = ProtoTypeIP\<rparr>
         (gateway_packet proto data dst (ip_id st + 2))]\<rparr>\<rparr>)"
    using assms(4,5,15) n by (simp_all add: st3 s2_def st2 tx e1_def add.commute)
  then show ?thesis
    using tx(1) request turn(1) e1(1) assms(2) by (simp add: tap_frames_def e1_def)
qed


section \<open>Witnesses\<close>

definition ping_ip :: ip_header where
  "ping_ip = \<lparr>ih_vhl = 0x45, ih_tos = 0, ih_tol = 28, ih_id = 0, ih_flags = 0, ih_ttl = 64, ih_proto = ProtoICMP,
     ih_checksum = 0, ih_src = 0xc0000209, ih_dst = 0xc0000202\<rparr>"

theorem ping_answered_witness:
  "length (tap_frames (tap_turns 0 (packet_frame (EtherAddr 2 0 0 0 0 9) (EtherAddr 2 0 0 0 0 1) ping_ip demo_echo) ping_stack)) = 1"
proof -
  let ?e = "tap_dev ''tap0'' demo_tap [2, 0, 0, 0, 0, 1]"
  have a: "EtherAddr 2 0 0 0 0 1 = e_addr ?e" by (simp add: tap_dev_def bytes_to_ether_def get_ether_def eval_nat_numeral)
  have send: "ip_sendable ping_ip demo_echo" "length demo_echo \<le> 1480" by (simp_all add: ip_sendable_def ping_ip_def demo_echo_def)
  have "CheckSum demo_echo 0 = 0" by code_simp
  from ping_answered [OF ping_stack_ok ping_stack_simps(1,2) _ _ ping_stack_simps(3) send(2,1) _ _ _ this
      demo_echo_read _ refl, of 0 "EtherAddr 2 0 0 0 0 9"]
  show ?thesis unfolding a by (simp add: ping_ip_def demo_tap_def tap_dev_def tap_frames_def ping_stack_simps)
qed

text \<open>A datagram in front of IP's handler for a socket with a full queue.\<close>

definition full_stack :: stack_state where
  "full_stack = (stack_ready ''tap0'' demo_tap [2, 0, 0, 0, 0, 1])\<lparr>
     protoBuffers := [[\<lparr>pb_data = Heap (snd (ip_header2data (ping_ip\<lparr>ih_tol := 31, ih_proto := ProtoUDP\<rparr>)
        (snd (udp_header2data demo_udp_header [1, 2, 3] 0xc0000209 0xc0000202)))), pb_dev = 2\<rparr>], []],
     udp_store := [\<lparr>up_state = UdpOpen, up_local = \<lparr>ep_addr = 0xc0000202, ep_port = 53\<rparr>,
        up_rxQueue = replicate pcbBufSize \<lparr>ub_foreign = endpoint_zero, ub_data = Heap []\<rparr>\<rparr>],
     udp_pcbs := [0]\<rparr>"

lemma full_stack_ok: "stack_ok (stack_ready ''tap0'' demo_tap [2, 0, 0, 0, 0, 1]) full_stack"
proof -
  let ?st = "stack_ready ''tap0'' demo_tap [2, 0, 0, 0, 0, 1]"
  have ok: "stack_ok ?st ?st"
    using stack_ready_ok [of "''tap0''" demo_tap "[2, 0, 0, 0, 0, 1]"]
      state_vars(2) [of "NetRun ?st" "now ?st" ?st ?st] by (simp add: NetRun_def net_Open_def tcp_state.defs)
  define bufs where "bufs = protoBuffers full_stack"
  have "length bufs = length (protoBuffers ?st)" "\<forall>b \<in> set bufs. length b \<le> ProtoBufferSize"
    by (simp_all add: bufs_def full_stack_def stack_ready_def ProtoBufferSize_def)
  then have "below_step ?st (?st\<lparr>protoBuffers := bufs\<rparr>)"
    by (intro below_step_net [where devs = "devices ?st" and bufs = bufs] net_kept_set_buffers)
       (auto simp: net_ok_def dev_ok_def)
  then have ok1: "stack_ok ?st (?st\<lparr>protoBuffers := bufs\<rparr>)" by (rule below_step_stack_ok [OF _ ok])
  have full: "full_stack = (?st\<lparr>protoBuffers := bufs\<rparr>)\<lparr>udp_store := udp_store full_stack, udp_pcbs := udp_pcbs full_stack\<rparr>"
    by (simp add: bufs_def full_stack_def)
  have "udp_ok full_stack" by (simp add: udp_ok_def full_stack_def)
  then have "below_step (?st\<lparr>protoBuffers := bufs\<rparr>) full_stack"
    by (intro udp_vars_below [OF full])
  then show ?thesis by (rule below_step_stack_ok [OF _ ok1])
qed

theorem udp_full_queue_blocks_ip_witness: "fst (ip_RxHandler (stack_rx 0) 0 full_stack) = Some Blocked"
proof -
  let ?h = "ping_ip\<lparr>ih_tol := 31, ih_proto := ProtoUDP\<rparr>"
  define dg where "dg = snd (udp_header2data demo_udp_header [1, 2, 3] 0xc0000209 0xc0000202)"
  have len: "length dg = 11" by (simp add: dg_def udp_header2data_def Let_def UdpPseudoHeaderSize_def)
  have "ip_sendable ?h dg" by (simp add: ip_sendable_def ping_ip_def len)
  then have rd: "ip_data2header (snd (ip_header2data ?h dg)) = Inr (fst (ip_header2data ?h dg), dg)"
    by (rule ip_codec.reads_back)
  have f: "ih_src (fst (ip_header2data ?h dg)) = 0xc0000209" "ih_dst (fst (ip_header2data ?h dg)) = 0xc0000202"
    "ih_flags (fst (ip_header2data ?h dg)) = 0" "ih_proto (fst (ip_header2data ?h dg)) = ProtoUDP"
    by (simp_all add: ip_header2data_def Let_def ping_ip_def)
  have u: "udp_data2header dg 0xc0000209 0xc0000202 =
      Inr (fst (udp_header2data demo_udp_header [1, 2, 3] 0xc0000209 0xc0000202), [1, 2, 3])"
    unfolding dg_def by (rule udp_reads_back [OF demo_udp_sendable])
  have p: "protoBuffers full_stack ! 0 = [\<lparr>pb_data = Heap (snd (ip_header2data ?h dg)), pb_dev = 2\<rparr>]"
    by (simp add: full_stack_def dg_def)
  have "uh_dst (fst (udp_header2data demo_udp_header [1, 2, 3] 0xc0000209 0xc0000202)) = 53"
    by (simp add: udp_header2data_def demo_udp_header_def Let_def)
  then show ?thesis
    using udp_full_queue_blocks_ip [OF full_stack_ok p, of "fst (ip_header2data ?h dg)" dg, unfolded f, OF _ _ _ _ u, of 0 0]
    by (simp add: rd) (simp add: full_stack_def udp_pcbSelect_def)
qed

text \<open>The stack just after setup, which knows no gateway yet.\<close>

definition fresh_stack :: stack_state where
  "fresh_stack = stack_ready ''tap0'' demo_tap [2, 0, 0, 0, 0, 1]"

lemma fresh_stack_ok: "stack_ok (stack_ready ''tap0'' demo_tap [2, 0, 0, 0, 0, 1]) fresh_stack"
  using stack_ready_ok [of "''tap0''" demo_tap "[2, 0, 0, 0, 0, 1]"]
    state_vars(2) [of "NetRun fresh_stack" "now fresh_stack" fresh_stack]
  by (simp add: fresh_stack_def NetRun_def net_Open_def tcp_state.defs)

lemma fresh_stack_simps:
  "devices fresh_stack ! 2 = Ether (tap_dev ''tap0'' demo_tap [2, 0, 0, 0, 0, 1])"
  "protoBuffers fresh_stack ! 1 = []" "arp_view fresh_stack 0xc0000201 = None"
proof -
  have "cacheSelect 0xc0000201 fresh_stack = Inl (Err ''cache not found'')"
    unfolding cacheSelect_Inl
    by (simp add: fresh_stack_def stack_ready_def stack_empty_def ce_holds_def cache_entry_zero_def)
  then show "arp_view fresh_stack 0xc0000201 = None" by (simp add: arp_view_def)
qed (simp_all add: fresh_stack_def stack_ready_def)

theorem gateway_resolved_witness:
  "\<exists>st1 st2 st3 m. (Some (Err m), st1) = ip_TxHandler arp_Resolve ProtoUDP [1, 2, 3] 0 0xc0000209 fresh_stack \<and>
     st2 = snd (dev_Rx (ReadFrame (ether_header2data
       \<lparr>eh_src = EtherAddr 2 0 0 0 0 9, eh_dst = EtherAddr 2 0 0 0 0 1, eh_type = ProtoTypeArp\<rparr>
       (arp_header2data \<lparr>ah_hrd = arpHrdEther, ah_pro = arpProIP, ah_hln = 6, ah_pln = 4, ah_op = arpOpReply,
          ah_sha = EtherAddr 2 0 0 0 0 9, ah_spa = 0xc0000201, ah_tha = EtherAddr 2 0 0 0 0 1, ah_tpa = 0xc0000202\<rparr>))) 2 st1) \<and>
     st3 = snd (arp_RxHandler 1 st2) \<and>
     fst (ip_TxHandler arp_Resolve ProtoUDP [1, 2, 3] 0 0xc0000209 st3) = None"
proof -
  let ?e = "tap_dev ''tap0'' demo_tap [2, 0, 0, 0, 0, 1]"
  have a: "e_addr ?e = EtherAddr 2 0 0 0 0 1" by (simp add: tap_dev_def bytes_to_ether_def get_ether_def eval_nat_numeral)
  define reply where "reply = \<lparr>ah_hrd = arpHrdEther, ah_pro = arpProIP, ah_hln = 6, ah_pln = 4, ah_op = arpOpReply,
      ah_sha = EtherAddr 2 0 0 0 0 9, ah_spa = 0xc0000201, ah_tha = EtherAddr 2 0 0 0 0 1, ah_tpa = 0xc0000202\<rparr>"
  define frame where "frame = ether_header2data
      \<lparr>eh_src = EtherAddr 2 0 0 0 0 9, eh_dst = EtherAddr 2 0 0 0 0 1, eh_type = ProtoTypeArp\<rparr> (arp_header2data reply)"
  obtain err st1 where 1: "(err, st1) = ip_TxHandler arp_Resolve ProtoUDP [1, 2, 3] 0 0xc0000209 fresh_stack" by (metis surj_pair)
  define st2 where "st2 = snd (dev_Rx (ReadFrame frame) 2 st1)"
  obtain t st3 where 3: "(t, st3) = arp_RxHandler 1 st2" by (metis surj_pair)
  obtain err4 st4 where 4: "(err4, st4) = ip_TxHandler arp_Resolve ProtoUDP [1, 2, 3] 0 0xc0000209 st3" by (metis surj_pair)
  have len: "length frame \<le> 1514"
    by (simp add: frame_def ether_header2data_def reply_def arp_header2data_def)
  have reply: "reply = \<lparr>ah_hrd = arpHrdEther, ah_pro = arpProIP, ah_hln = 6, ah_pln = 4, ah_op = arpOpReply,
      ah_sha = EtherAddr 2 0 0 0 0 9, ah_spa = 0xc0000201, ah_tha = e_addr ?e, ah_tpa = 0xc0000202\<rparr>"
    by (simp add: a reply_def)
  have frame: "frame = ether_header2data
      \<lparr>eh_src = EtherAddr 2 0 0 0 0 9, eh_dst = e_addr ?e, eh_type = ProtoTypeArp\<rparr> (arp_header2data reply @ [])"
    by (simp add: a frame_def)
  have "(\<exists>m. err = Some (Err m)) \<and> err4 = None"
    using gateway_resolved [OF fresh_stack_ok fresh_stack_simps(1,2) _ _ fresh_stack_simps(3) _ _ 1 reply frame len st2_def 3 4]
    by (simp add: tap_dev_def demo_tap_def AddrAny_def AddrBroadcast_def)
  then obtain m where "err = Some (Err m)" "err4 = None" by blast
  then show ?thesis
    using 1 3 4 unfolding frame_def [unfolded reply_def, symmetric] st2_def by (metis fst_conv snd_conv)
qed

end
