(* ===== verification/TcpStream.thy ===== *)
theory TcpStream
  imports TcpRun
begin

text \<open>
  The data path of TCP: text that arrives in order, and \<open>RECEIVE\<close>.
\<close>

section \<open>The receive buffer\<close>

text \<open>The bytes waiting for the user.\<close>

definition rx_view :: "tcp_pcb \<Rightarrow> bytes" where
  "rx_view p = take (unat (tp_rxLen p)) (tp_rxQueue p)"

text \<open>An established connection without a waiting request, whose window is the free part of its buffer,
  and whose sequence numbers do not wrap around within the next \<open>n\<close> bytes.\<close>

definition receiving :: "nat \<Rightarrow> tcp_pcb \<Rightarrow> bool" where
  "receiving n p \<longleftrightarrow> tp_state p = StEstablished \<and> tp_rcvCmd p = rcv_cmd_zero \<and>
     length (tp_rxQueue p) = tcpBufferSize \<and> unat (tp_rxLen p) + unat (rcv_wnd p) = tcpBufferSize \<and>
     snd_una p \<le> snd_nxt p \<and> unat (rcv_nxt p) + n + tcpBufferSize < 2 ^ 32"

lemma copy_at_view:
  assumes "off + length d \<le> length q"
  shows "take (off + length d) (copy_at off d q) = take off q @ d"
proof -
  have "min (length d) (length q - off) = length d" using assms by simp
  with assms show ?thesis by (simp add: copy_at_def)
qed

lemma length_rx_view: "receiving m p \<Longrightarrow> length (rx_view p) = unat (tp_rxLen p)"
  using unat_u16_less [of "tp_rxLen p"] by (simp add: rx_view_def receiving_def tcpBufferSize_def)

lemma unat_ucast_u16: "unat (ucast (x :: u16) :: u32) = unat x"
  by transfer simp

lemma ucast_of_nat_u16: "ucast (of_nat n :: u32) = (of_nat n :: u16)"
  by transfer (simp add: take_bit_of_nat)

lemma flag_ack: "\<not> isSet ACK RST" "\<not> isSet ACK SYN" "\<not> isSet ACK FIN" "isSet ACK ACK"
  by (simp_all add: isSet_def ACK_def RST_def SYN_def FIN_def)

lemma signal_receive_none:
  "tp_rcvCmd (pcb_at st k) = rcv_cmd_zero \<or> tp_rxLen (pcb_at st k) = 0 \<Longrightarrow> signal_receive k st = st"
  by (auto simp: signal_receive_def rcv_cmd_zero_def Let_def split: option.split)

context tcp_layer begin

lemma ack_advance_new:
  assumes k: "k < length (tcp_store st)"
    and new: "snd_una (pcb_at st k) < sg_ack seg" "sg_ack seg \<le> snd_nxt (pcb_at st k)"
  obtains st1 where "ack_advance resolve k seg st = GoOn st1"
    "length (tcp_store st1) = length (tcp_store st)" "state_of k st1 = state_of k st"
    "rcv_same (pcb_at st k) (pcb_at st1 k)" "snd_nxt (pcb_at st1 k) = snd_nxt (pcb_at st k)"
    "snd_una (pcb_at st1 k) = sg_ack seg"
    "tp_retxQueue (pcb_at st1 k) = filter (\<lambda>e. \<not> re_seq e < sg_ack seg) (tp_retxQueue (pcb_at st k))"
    "tcp_log st1 = tcp_log st @ notices None (filter (\<lambda>e. re_seq e < sg_ack seg) (tp_retxQueue (pcb_at st k)))"
    "tcp_bufs st1 = tcp_bufs st" "tcp_ints st1 = tcp_ints st" "now st1 = now st"
proof -
  define u where "u = upd_pcb k (\<lambda>p. p\<lparr>snd_una := sg_ack seg\<rparr>) st"
  obtain r st1 where q: "queueAck k u = (r, st1)" by force
  have u: "k < length (tcp_store u)" "pcb_at u k = (pcb_at st k)\<lparr>snd_una := sg_ack seg\<rparr>"
    "length (tcp_store u) = length (tcp_store st)" using k by (simp_all add: u_def)
  have una: "snd_una (pcb_at st1 k) = sg_ack seg" and r: "r = None"
    and rq: "tp_retxQueue (pcb_at st1 k) = filter (\<lambda>e. \<not> re_seq e < sg_ack seg) (tp_retxQueue (pcb_at st k))"
    using queueAck_fields [OF u(1)] queueAck_core(5) [OF u(1)] u q by simp_all
  define st2 where "st2 = upd_pcb k (\<lambda>p. if snd_wl1 p < sg_seq seg \<or> (snd_wl1 p = sg_seq seg \<and> snd_wl2 p \<le> sg_ack seg)
                 then p\<lparr>snd_wnd := sg_wnd seg, snd_wl1 := sg_seq seg, snd_wl2 := sg_ack seg\<rparr> else p) st1"
  have adv: "ack_advance resolve k seg st = GoOn st2"
    using new q r by (simp add: ack_advance_def Let_def u_def st2_def)
  note spec = ack_advance_spec [OF k, of seg, unfolded adv flow_state.simps]
  have len: "length (tcp_store st1) = length (tcp_store st)" using queueAck_fields [OF u(1)] u q by simp
  then have p2: "snd_una (pcb_at st2 k) = sg_ack seg"
    "tp_retxQueue (pcb_at st2 k) = filter (\<lambda>e. \<not> re_seq e < sg_ack seg) (tp_retxQueue (pcb_at st k))"
    using una rq k by (simp_all add: st2_def)
  have rest: "tcp_bufs st2 = tcp_bufs st" "tcp_ints st2 = tcp_ints st" "now st2 = now st"
    "tcp_log st2 = tcp_log st @ notices None (filter (\<lambda>e. re_seq e < sg_ack seg) (tp_retxQueue (pcb_at st k)))"
    using queueAck_eq [of k u] q u(2) by (auto simp: st2_def u_def)
  from adv spec p2 rest show ?thesis by (intro that [of st2]) simp_all
qed

lemma ack_advance_in_order:
  assumes k: "k < length (tcp_store st)" and "snd_una (pcb_at st k) \<le> snd_nxt (pcb_at st k)"
    and "sg_ack seg \<le> snd_nxt (pcb_at st k)"
  obtains st1 es where "ack_advance resolve k seg st = GoOn st1"
    "length (tcp_store st1) = length (tcp_store st)" "state_of k st1 = state_of k st"
    "rcv_same (pcb_at st k) (pcb_at st1 k)" "snd_nxt (pcb_at st1 k) = snd_nxt (pcb_at st k)"
    "snd_una (pcb_at st1 k) \<le> snd_nxt (pcb_at st1 k)"
    "tcp_bufs st1 = tcp_bufs st" "tcp_ints st1 = tcp_ints st"
    "tcp_log st1 = tcp_log st @ notices None es" "set es \<subseteq> set (tp_retxQueue (pcb_at st k))"
    "set (tp_retxQueue (pcb_at st1 k)) \<subseteq> set (tp_retxQueue (pcb_at st k))"
proof (cases "snd_una (pcb_at st k) < sg_ack seg")
  case True
  show ?thesis
    by (rule ack_advance_new [OF k True assms(3)]) (use assms(3) in \<open>auto intro!: that\<close>)
next
  case False
  with assms have "ack_advance resolve k seg st = GoOn st" by (auto simp: ack_advance_def Let_def)
  with assms(2) that [of st "[]"] show ?thesis by (simp add: rcv_same_def)
qed

text \<open>A segment that begins at \<open>RCV.NXT\<close> is acceptable while the window is open and does not reach
  beyond the last sequence number.\<close>

lemma at_nxt_acceptable:
  assumes "sg_seq seg = rcv_nxt p" "0 < rcv_wnd p" "unat (rcv_nxt p) + 65535 < 2 ^ 32"
  shows "seg_acceptable p seg"
proof -
  have w: "unat (rcv_wnd p) \<le> 65535" using unat_u16_less [of "rcv_wnd p"] by linarith
  have "unat (rcv_nxt p + ucast (rcv_wnd p)) = unat (rcv_nxt p) + unat (rcv_wnd p)"
  proof (subst unat_add_lem [THEN iffD1])
    show "unat (rcv_nxt p) + unat (ucast (rcv_wnd p) :: u32) < 2 ^ LENGTH(32)"
      using assms(3) w unfolding unat_ucast_u16 by simp
  qed (simp add: unat_ucast_u16)
  moreover have pos: "0 < unat (rcv_wnd p)" using assms(2) by (simp add: word_less_nat_alt)
  ultimately have "rcv_nxt p < rcv_nxt p + ucast (rcv_wnd p)" by (simp add: word_less_nat_alt)
  with assms(1,2) show ?thesis by (auto simp: seg_acceptable_def Let_def word_gt_0)
qed

text \<open>A segment with text on an established connection: the text goes behind the bytes that wait, a waiting
  \<open>RECEIVE\<close> is served, an acknowledgement is sent, and whatever else the segment carries, its FIN too, is left
  aside.\<close>

lemma text_taken:
  assumes k: "k < length (tcp_store st)" and p: "p = pcb_at st k"
    and st: "tp_state p = StEstablished" "snd_una p \<le> snd_nxt p"
    and acc: "seg_acceptable p seg" and flags: "\<not> isSet flag RST" "\<not> isSet flag SYN" "isSet flag ACK"
    and seg: "sg_ack seg \<le> snd_nxt p" and d: "(dataLen :: u32) \<noteq> 0"
    and st': "st' = snd (segmentArrives resolve iss k seg flag d dataLen foreign st)"
  obtains st2 es where "st' = snd (TxHelperTCP resolve k ACK [] 0 None (signal_receive k st2))"
    "k < length (tcp_store st2)" "tp_state (pcb_at st2 k) = StEstablished"
    "snd_una (pcb_at st2 k) \<le> snd_nxt (pcb_at st2 k)" "snd_nxt (pcb_at st2 k) = snd_nxt p"
    "tp_rxQueue (pcb_at st2 k) = copy_at (unat (tp_rxLen p)) d (tp_rxQueue p)"
    "tp_rxLen (pcb_at st2 k) = tp_rxLen p + ucast dataLen" "rcv_nxt (pcb_at st2 k) = sg_seq seg + sg_len seg"
    "rcv_wnd (pcb_at st2 k) = rcv_wnd p - ucast dataLen" "tp_rcvCmd (pcb_at st2 k) = tp_rcvCmd p"
    "length (tcp_store st2) = length (tcp_store st)" "tcp_bufs st2 = tcp_bufs st" "tcp_ints st2 = tcp_ints st"
    "tcp_log st2 = tcp_log st @ notices None es" "set es \<subseteq> set (tp_retxQueue p)"
    "set (tp_retxQueue (pcb_at st2 k)) \<subseteq> set (tp_retxQueue p)"
proof -
  obtain st1 es where 1: "ack_advance resolve k seg st = GoOn st1" "length (tcp_store st1) = length (tcp_store st)"
    "state_of k st1 = state_of k st" "rcv_same p (pcb_at st1 k)" "snd_nxt (pcb_at st1 k) = snd_nxt p"
    "snd_una (pcb_at st1 k) \<le> snd_nxt (pcb_at st1 k)"
    "tcp_bufs st1 = tcp_bufs st" "tcp_ints st1 = tcp_ints st"
    "tcp_log st1 = tcp_log st @ notices None es" "set es \<subseteq> set (tp_retxQueue p)"
    "set (tp_retxQueue (pcb_at st1 k)) \<subseteq> set (tp_retxQueue p)"
    by (rule ack_advance_in_order [OF k, of seg]) (use st seg p in auto)
  have k1: "k < length (tcp_store st1)" using k 1 by simp
  have ack: "seg_check_ack resolve k seg flag st = GoOn st1"
    using 1 st p flags by (simp add: seg_check_ack_def ack_by_state_def Let_def)
  define st2 where "st2 = upd_pcb k (\<lambda>p. p\<lparr>tp_rxQueue := copy_at (unat (tp_rxLen p)) d (tp_rxQueue p),
                     tp_rxLen := tp_rxLen p + ucast dataLen, rcv_nxt := sg_seq seg + sg_len seg,
                     rcv_wnd := rcv_wnd p - ucast dataLen\<rparr>) st1"
  have tx: "seg_text resolve k seg d dataLen st1 =
      flow_return (TxHelperTCP resolve k ACK [] 0 None (signal_receive k st2))"
    using 1(3) st(1) p d by (simp add: seg_text_def Let_def st2_def [symmetric] word_gt_0)
  have st'': "st' = snd (TxHelperTCP resolve k ACK [] 0 None (signal_receive k st2))"
    using st' acc flags st(1) p ack tx
    by (cases "TxHelperTCP resolve k ACK [] 0 None (signal_receive k st2)")
       (simp add: segmentArrives_def seg_default_ack)
  have p2: "pcb_at st2 k = (pcb_at st1 k)\<lparr>tp_rxQueue := copy_at (unat (tp_rxLen p)) d (tp_rxQueue p),
                     tp_rxLen := tp_rxLen p + ucast dataLen, rcv_nxt := sg_seq seg + sg_len seg,
                     rcv_wnd := rcv_wnd p - ucast dataLen\<rparr>"
    using k1 1(4) by (simp add: st2_def rcv_same_def)
  have frame: "length (tcp_store st2) = length (tcp_store st)" "tcp_bufs st2 = tcp_bufs st"
    "tcp_ints st2 = tcp_ints st" "tcp_log st2 = tcp_log st @ notices None es"
    using 1 by (simp_all add: st2_def)
  show ?thesis
    by (rule that [of st2 es]) (use st'' frame 1 st p k in \<open>simp_all add: p2 rcv_same_def\<close>)
qed

text \<open>The acknowledgement that follows changes nothing of the connection.\<close>

lemma TxHelper_ack_pcb:
  "k < length (tcp_store st) \<Longrightarrow> pcb_at (snd (TxHelperTCP resolve k ACK [] 0 None st)) k = pcb_at st k"
  by (simp add: TxHelper_pcb isSet_def ACK_def SYN_def FIN_def)

end

section \<open>\<open>RECEIVE\<close>\<close>

text \<open>\<open>RECEIVE\<close> with bytes in the buffer: the user gets the first ones, in order. What is left is moved
  to the front from \<open>rxLen - dlen\<close> on.\<close>

lemma signal_receive_data:
  assumes k: "k < length (tcp_store u)" and c: "tp_rcvCmd (pcb_at u k) = \<lparr>rc_n = n, rc_data = buf, rc_errCh = Some ch\<rparr>"
    and p: "p = (pcb_at u k)\<lparr>tp_rcvCmd := rcv_cmd_zero\<rparr>" "0 < unat (tp_rxLen p)"
    and b: "buf < length (tcp_bufs u)" "n < length (tcp_ints u)"
    and dl: "dlen = min (length (tcp_bufs u ! buf)) (unat (tp_rxLen p))" and off: "off = unat (tp_rxLen p) - dlen"
    and st': "st' = signal_receive k u"
  shows "tcp_ints st' ! n = int dlen \<and> tcp_bufs st' ! buf = take dlen (rx_view p) @ drop dlen (tcp_bufs u ! buf) \<and>
    tcp_log st' = tcp_log u @ [(ch, None)] \<and> length (tcp_store st') = length (tcp_store u) \<and>
    length (tcp_bufs st') = length (tcp_bufs u) \<and> length (tcp_ints st') = length (tcp_ints u) \<and>
    pcb_at st' k = (if off = 0 then p\<lparr>tp_rxLen := 0, rcv_wnd := of_nat tcpBufferSize\<rparr>
      else p\<lparr>tp_rxQueue := drop off (tp_rxQueue p) @ drop (length (tp_rxQueue p) - off) (tp_rxQueue p),
             tp_rxLen := tp_rxLen p - of_nat dlen, rcv_wnd := rcv_wnd p + of_nat dlen\<rparr>)"
proof -
  have dlen: "dlen \<le> unat (tp_rxLen p)" "dlen \<le> length (tcp_bufs u ! buf)" by (simp_all add: dl)
  have "unat (of_nat dlen :: u16) = dlen"
    unfolding unat_of_nat using le_less_trans [OF dlen(1) unat_u16_less] by simp
  with dlen have sub: "unat (tp_rxLen p - of_nat dlen) = off"
    by (simp add: unat_sub word_le_nat_alt off)
  have zero: "dlen = unat (tp_rxLen p) \<longleftrightarrow> off = 0" using dlen by (auto simp: off)
  have view: "take dlen (tp_rxQueue p) = take dlen (rx_view p)"
    using dlen by (simp add: rx_view_def min_absorb1)
  have pos: "tp_rxLen p > 0" using p(2) by (simp add: word_gt_0 unat_eq_zero [symmetric])
  have f: "tp_rxLen p = tp_rxLen (pcb_at u k)" "tp_rxQueue p = tp_rxQueue (pcb_at u k)" by (simp_all add: p)
  have "signal_receive k u = upd_pcb k (\<lambda>p.
                    (if off = 0 then p\<lparr>tp_rxLen := 0, rcv_wnd := of_nat tcpBufferSize\<rparr>
                     else p\<lparr>tp_rxQueue := drop off (tp_rxQueue p) @
                              drop (length (tp_rxQueue p) - off) (tp_rxQueue p),
                            tp_rxLen := tp_rxLen p - of_nat dlen,
                            rcv_wnd := rcv_wnd p + of_nat dlen\<rparr>)
                    \<lparr>tp_rcvCmd := rcv_cmd_zero\<rparr>)
      (chan_send ch None (u\<lparr>tcp_bufs := (tcp_bufs u)[buf := take dlen (tp_rxQueue p) @ drop dlen (tcp_bufs u ! buf)],
                     tcp_ints := (tcp_ints u)[n := int dlen]\<rparr>))"
    using pos unfolding f signal_receive_def Let_def
    by (simp add: c dl [symmetric, unfolded f] sub [unfolded f] zero [unfolded f] upd_pcb_def)
  then show ?thesis
    using k b view by (auto simp: st' p(1))
qed

lemma tcp_Receive_established:
  assumes "state_of k st = StEstablished" "tp_rcvCmd (pcb_at st k) = rcv_cmd_zero"
  shows "tcp_Receive k ch buf n st =
    signal_receive k (upd_pcb k (\<lambda>p. p\<lparr>tp_rcvCmd := \<lparr>rc_n = n, rc_data = buf, rc_errCh = Some ch\<rparr>\<rparr>) st)"
  using assms by (simp add: tcp_Receive_def receive_request_def rcv_cmd_zero_def Let_def)

lemma tcp_Receive_data:
  assumes k: "k < length (tcp_store st)" and p: "p = pcb_at st k" and s: "state_of k st = StEstablished"
    "tp_rcvCmd p = rcv_cmd_zero" "0 < unat (tp_rxLen p)"
    and b: "buf < length (tcp_bufs st)" "n < length (tcp_ints st)"
    and dl: "dlen = min (length (tcp_bufs st ! buf)) (unat (tp_rxLen p))" and off: "off = unat (tp_rxLen p) - dlen"
    and st': "st' = tcp_Receive k ch buf n st"
  shows "tcp_ints st' ! n = int dlen \<and> tcp_bufs st' ! buf = take dlen (rx_view p) @ drop dlen (tcp_bufs st ! buf) \<and>
    tcp_log st' = tcp_log st @ [(ch, None)] \<and> length (tcp_store st') = length (tcp_store st) \<and>
    length (tcp_bufs st') = length (tcp_bufs st) \<and> length (tcp_ints st') = length (tcp_ints st) \<and>
    pcb_at st' k = (if off = 0 then p\<lparr>tp_rxLen := 0, rcv_wnd := of_nat tcpBufferSize\<rparr>
      else p\<lparr>tp_rxQueue := drop off (tp_rxQueue p) @ drop (length (tp_rxQueue p) - off) (tp_rxQueue p),
             tp_rxLen := tp_rxLen p - of_nat dlen, rcv_wnd := rcv_wnd p + of_nat dlen\<rparr>)"
proof -
  define u where "u = upd_pcb k (\<lambda>p. p\<lparr>tp_rcvCmd := \<lparr>rc_n = n, rc_data = buf, rc_errCh = Some ch\<rparr>\<rparr>) st"
  have u: "k < length (tcp_store u)" "tp_rcvCmd (pcb_at u k) = \<lparr>rc_n = n, rc_data = buf, rc_errCh = Some ch\<rparr>"
    "p = (pcb_at u k)\<lparr>tp_rcvCmd := rcv_cmd_zero\<rparr>" "tcp_bufs u = tcp_bufs st" "tcp_ints u = tcp_ints st"
    "tcp_log u = tcp_log st" "length (tcp_store u) = length (tcp_store st)"
    using k s(2) by (simp_all add: u_def p)
  show ?thesis
    using signal_receive_data [OF u(1-3) s(3), of dlen off st'] b dl off st' s(2)
      tcp_Receive_established [of st k ch buf n] s(1) p
    by (simp add: u_def [symmetric] u(4-7))
qed

section \<open>The byte stream\<close>

text \<open>What a connection promises its user. A user asks for data, and has asked when an earlier request
  was not served yet. Data that arrive are handed out at once when the user has asked, and wait
  otherwise; a request takes all that waits, or waits itself when nothing does; data that are
  repeated change nothing. \<open>Arrives d\<close> are data in sequence, \<open>Repeats i d\<close> data from \<open>i\<close> bytes back on.\<close>

datatype 'a stream_event = Arrives 'a | Repeats nat 'a | Receives

fun user_step :: "bool \<Rightarrow> 'd list \<Rightarrow> 'd list stream_event \<Rightarrow> 'd list \<times> bool \<times> 'd list" where
  "user_step asked w (Arrives d) = (if asked then (w @ d, False, []) else ([], False, w @ d))"
| "user_step asked w (Repeats i d) = ([], asked, w)"
| "user_step asked w Receives =
     (if asked then ([], True, w) else if w = [] then ([], True, []) else (w, False, []))"

text \<open>What the user gets in each step, and how things stand at the end.\<close>

fun user_stream :: "bool \<Rightarrow> 'd list \<Rightarrow> 'd list stream_event list \<Rightarrow> 'd list list \<times> bool \<times> 'd list" where
  "user_stream asked w [] = ([], asked, w)"
| "user_stream asked w (e # es) =
     (case user_step asked w e of
        (d, asked', w') \<Rightarrow> (case user_stream asked' w' es of (ds, r) \<Rightarrow> (d # ds, r)))"

fun arrivals :: "'d list stream_event list \<Rightarrow> 'd list" where
  "arrivals [] = []"
| "arrivals (Arrives d # es) = d @ arrivals es"
| "arrivals (Repeats i d # es) = arrivals es"
| "arrivals (Receives # es) = arrivals es"

text \<open>What fits: no arrival is empty or exceeds the free space of the receive buffer, whose size is \<open>cap\<close>, and
  the user's buffer, of \<open>room\<close> bytes, holds what a request is served with.\<close>

fun event_fits :: "nat \<Rightarrow> nat \<Rightarrow> bool \<Rightarrow> nat \<Rightarrow> 'd list stream_event \<Rightarrow> bool" where
  "event_fits cap room asked used (Arrives d) =
     (d \<noteq> [] \<and> used + length d \<le> cap \<and> (asked \<longrightarrow> used + length d \<le> room))"
| "event_fits cap room asked used (Repeats i d) = True"
| "event_fits cap room asked used Receives = (asked \<or> used \<le> room)"

fun stream_fits :: "nat \<Rightarrow> nat \<Rightarrow> bool \<Rightarrow> 'd list \<Rightarrow> 'd list stream_event list \<Rightarrow> bool" where
  "stream_fits cap room asked w [] = True"
| "stream_fits cap room asked w (e # es) =
     (event_fits cap room asked (length w) e \<and>
      (case user_step asked w e of (d, asked', w') \<Rightarrow> stream_fits cap room asked' w' es))"

text \<open>The stream loses and repeats nothing.\<close>

lemma user_stream_conserves:
  "user_stream asked w es = (ds, asked', w') \<Longrightarrow> concat ds @ w' = w @ arrivals es"
proof (induction es arbitrary: asked w ds)
  case (Cons e es)
  obtain d a1 w1 where 1: "user_step asked w e = (d, a1, w1)" by (metis prod.exhaust)
  obtain ds1 r where 2: "user_stream a1 w1 es = (ds1, r)" by (metis prod.exhaust)
  with Cons.prems 1 have "ds = d # ds1" "r = (asked', w')" by auto
  moreover have "d @ w1 @ arrivals es = w @ arrivals (e # es)"
    using 1 by (cases e) (auto split: if_splits)
  ultimately show ?case using Cons.IH [of a1 w1 ds1] 2 by simp
qed simp

text \<open>A run of an implementation, with what the user gets in each of its steps.\<close>

fun stream_run ::
    "('e \<Rightarrow> 's \<Rightarrow> 's) \<Rightarrow> ('s \<Rightarrow> 's \<Rightarrow> 'd list) \<Rightarrow> 'e list \<Rightarrow> 's \<Rightarrow> 'd list list \<times> 's" where
  "stream_run step gets [] s = ([], s)"
| "stream_run step gets (e # es) s =
     (let s1 = step e s in case stream_run step gets es s1 of (ds, s2) \<Rightarrow> (gets s s1 # ds, s2))"

text \<open>An implementation of the stream: \<open>ok n\<close> is a state fit for \<open>n\<close> more bytes, \<open>good\<close> an event it is made
  for, \<open>content\<close> the data of an event.\<close>

locale byte_stream =
  fixes step :: "'a stream_event \<Rightarrow> 's \<Rightarrow> 's" and gets :: "'s \<Rightarrow> 's \<Rightarrow> 'd list"
    and content :: "'a \<Rightarrow> 'd list" and asked :: "'s \<Rightarrow> bool" and view :: "'s \<Rightarrow> 'd list"
    and ok :: "nat \<Rightarrow> 's \<Rightarrow> bool" and good :: "'a stream_event \<Rightarrow> bool" and cap :: nat and room :: nat
  assumes step_refines: "ok (length (arrivals [map_stream_event content e]) + n) s \<Longrightarrow> good e \<Longrightarrow>
      event_fits cap room (asked s) (length (view s)) (map_stream_event content e) \<Longrightarrow>
      user_step (asked s) (view s) (map_stream_event content e) =
        (gets s (step e s), asked (step e s), view (step e s))"
    and step_ok: "ok (length (arrivals [map_stream_event content e]) + n) s \<Longrightarrow> good e \<Longrightarrow>
      event_fits cap room (asked s) (length (view s)) (map_stream_event content e) \<Longrightarrow> ok n (step e s)"
begin

lemma run_refines:
  "ok (length (arrivals (map (map_stream_event content) es))) s \<Longrightarrow> \<forall>e \<in> set es. good e \<Longrightarrow>
   stream_fits cap room (asked s) (view s) (map (map_stream_event content) es) \<Longrightarrow>
   stream_run step gets es s = (ds, s') \<Longrightarrow>
   user_stream (asked s) (view s) (map (map_stream_event content) es) = (ds, asked s', view s')"
proof (induction es arbitrary: s ds)
  case (Cons e es)
  obtain ds1 where run: "stream_run step gets es (step e s) = (ds1, s')" and ds: "ds = gets s (step e s) # ds1"
    using Cons.prems(4) by (auto simp: Let_def split: prod.splits)
  have n: "arrivals (map (map_stream_event content) (e # es)) =
      arrivals [map_stream_event content e] @ arrivals (map (map_stream_event content) es)"
    by (cases e) simp_all
  have e: "ok (length (arrivals [map_stream_event content e]) + length (arrivals (map (map_stream_event content) es))) s"
    "good e" "event_fits cap room (asked s) (length (view s)) (map_stream_event content e)"
    using Cons.prems(1) [unfolded n length_append] Cons.prems(2,3) by simp_all
  show ?case
    using Cons.IH [OF step_ok [OF e] _ _ run] Cons.prems(2,3) step_refines [OF e] by (simp add: ds)
qed simp

end

section \<open>A connection as a stream\<close>

text \<open>A segment as it reaches \<open>segmentArrives\<close>: its data, the fields of its header apart from the sequence number, its
  sender, and the initial number that the handler would choose. The sequence number is \<open>back\<close> bytes
  before \<open>RCV.NXT\<close>.\<close>

record tcp_arrival =
  ar_data :: bytes
  ar_flag :: u8
  ar_ack :: u32
  ar_wnd :: u16
  ar_up :: u16
  ar_from :: endpoint
  ar_iss :: u32

definition arrival_segment :: "tcp_pcb \<Rightarrow> nat \<Rightarrow> tcp_arrival \<Rightarrow> segment" where
  "arrival_segment p back a = \<lparr>sg_seq = rcv_nxt p - of_nat back, sg_ack = ar_ack a,
     sg_len = of_nat (length (ar_data a)), sg_wnd = ar_wnd a, sg_up = ar_up a\<rparr>"

definition tcp_arrives :: "nat \<Rightarrow> nat \<Rightarrow> tcp_arrival \<Rightarrow> 'a tcp_state_scheme \<Rightarrow> 'a tcp_state_scheme" where
  "tcp_arrives k back a st =
     snd (segmentArrives arp_Resolve (ar_iss a) k (arrival_segment (pcb_at st k) back a) (ar_flag a)
       (ar_data a) (of_nat (length (ar_data a))) (ar_from a) st)"

text \<open>The user calls \<open>RECEIVE\<close> with the channel \<open>ch\<close>, the buffer \<open>buf\<close> and the counter \<open>n\<close>, whether bytes wait
  or not and whether an earlier call is served or not.\<close>

definition tcp_stream_step ::
    "nat \<Rightarrow> nat \<Rightarrow> nat \<Rightarrow> nat \<Rightarrow> tcp_arrival stream_event \<Rightarrow> 'a tcp_state_scheme \<Rightarrow> 'a tcp_state_scheme" where
  "tcp_stream_step k ch buf n e st =
     (case e of Arrives a \<Rightarrow> tcp_arrives k 0 a st | Repeats i a \<Rightarrow> tcp_arrives k i a st
      | Receives \<Rightarrow> tcp_Receive k ch buf n st)"

text \<open>What the user reads: once the channel says that all is well, as many bytes of the buffer as the counter
  tells.\<close>

definition user_gets :: "nat \<Rightarrow> nat \<Rightarrow> nat \<Rightarrow> 'a tcp_state_scheme \<Rightarrow> 'a tcp_state_scheme \<Rightarrow> bytes" where
  "user_gets ch buf n st st' =
     (if (ch, None) \<in> set (drop (length (tcp_log st)) (tcp_log st'))
      then take (nat (tcp_ints st' ! n)) (tcp_bufs st' ! buf) else [])"

definition tcp_asked :: "nat \<Rightarrow> 'a tcp_state_scheme \<Rightarrow> bool" where
  "tcp_asked k st \<longleftrightarrow> rc_errCh (tp_rcvCmd (pcb_at st k)) \<noteq> None"

text \<open>A segment in sequence sets ACK and none of RST, SYN and FIN, and acknowledges nothing that was not sent; a
  repeated one lies before \<open>RCV.NXT\<close>, at most \<open>base\<close> bytes back.\<close>

fun in_sequence :: "u32 \<Rightarrow> nat \<Rightarrow> tcp_arrival stream_event \<Rightarrow> bool" where
  "in_sequence nxt base (Arrives a) =
     (ar_ack a \<le> nxt \<and> isSet (ar_flag a) ACK \<and> \<not> isSet (ar_flag a) RST \<and>
      \<not> isSet (ar_flag a) SYN \<and> \<not> isSet (ar_flag a) FIN)"
| "in_sequence nxt base (Repeats i a) = (ar_data a \<noteq> [] \<and> length (ar_data a) \<le> i \<and> i \<le> base)"
| "in_sequence nxt base Receives = True"

text \<open>A connection between two such steps. A request waits only on an empty buffer, and no \<open>SEND\<close> or \<open>CLOSE\<close>
  waits on its channel.\<close>

definition streaming ::
    "nat \<Rightarrow> nat \<Rightarrow> nat \<Rightarrow> nat \<Rightarrow> nat \<Rightarrow> u32 \<Rightarrow> nat \<Rightarrow> nat \<Rightarrow> 'a tcp_state_scheme \<Rightarrow> bool" where
  "streaming k ch buf n room nxt base m st \<longleftrightarrow> k < length (tcp_store st) \<and>
     receiving m ((pcb_at st k)\<lparr>tp_rcvCmd := rcv_cmd_zero\<rparr>) \<and>
     snd_nxt (pcb_at st k) = nxt \<and> base \<le> unat (rcv_nxt (pcb_at st k)) \<and>
     (tp_rcvCmd (pcb_at st k) = rcv_cmd_zero \<or>
      tp_rcvCmd (pcb_at st k) = \<lparr>rc_n = n, rc_data = buf, rc_errCh = Some ch\<rparr> \<and> tp_rxLen (pcb_at st k) = 0) \<and>
     (\<forall>e \<in> set (tp_retxQueue (pcb_at st k)). re_errCh e \<noteq> Some ch) \<and>
     buf < length (tcp_bufs st) \<and> length (tcp_bufs st ! buf) = room \<and> n < length (tcp_ints st)"

lemma streamingD:
  assumes "streaming k ch buf n room nxt base m st"
  shows "k < length (tcp_store st)" "tp_state (pcb_at st k) = StEstablished"
    "length (tp_rxQueue (pcb_at st k)) = 65535" "unat (tp_rxLen (pcb_at st k)) + unat (rcv_wnd (pcb_at st k)) = 65535"
    "snd_una (pcb_at st k) \<le> snd_nxt (pcb_at st k)" "unat (rcv_nxt (pcb_at st k)) + m + 65535 < 2 ^ 32"
    "snd_nxt (pcb_at st k) = nxt" "base \<le> unat (rcv_nxt (pcb_at st k))"
    "buf < length (tcp_bufs st)" "length (tcp_bufs st ! buf) = room" "n < length (tcp_ints st)"
    "\<forall>e \<in> set (tp_retxQueue (pcb_at st k)). re_errCh e \<noteq> Some ch"
    "if tcp_asked k st
     then tp_rcvCmd (pcb_at st k) = \<lparr>rc_n = n, rc_data = buf, rc_errCh = Some ch\<rparr> \<and> tp_rxLen (pcb_at st k) = 0
     else tp_rcvCmd (pcb_at st k) = rcv_cmd_zero"
    "length (rx_view (pcb_at st k)) = unat (tp_rxLen (pcb_at st k))"
  using assms unat_u16_less [of "tp_rxLen (pcb_at st k)"]
  by (auto simp: streaming_def receiving_def tcpBufferSize_def tcp_asked_def rcv_cmd_zero_def rx_view_def)

lemma streaming_weaken: "streaming k ch buf n room nxt base m st \<Longrightarrow> m' \<le> m \<Longrightarrow> streaming k ch buf n room nxt base m' st"
  by (auto simp: streaming_def receiving_def)

text \<open>The three effects of \<open>RECEIVE\<close>: refused while an earlier call waits, waiting when nothing does, served with
  all that waits.\<close>

lemma stream_receive:
  assumes ok: "streaming k ch buf n room nxt base m st" and fits: "tcp_asked k st \<or> unat (tp_rxLen (pcb_at st k)) \<le> room"
    and st': "st' = tcp_Receive k ch buf n st"
  shows "user_step (tcp_asked k st) (rx_view (pcb_at st k)) Receives =
      (user_gets ch buf n st st', tcp_asked k st', rx_view (pcb_at st' k)) \<and>
    streaming k ch buf n room nxt base m st'"
proof -
  note d = streamingD [OF ok]
  consider (asked) "tcp_asked k st" | (empty) "\<not> tcp_asked k st" "tp_rxLen (pcb_at st k) = 0"
    | (data) "\<not> tcp_asked k st" "0 < unat (tp_rxLen (pcb_at st k))"
    by (metis gr0I unat_eq_zero)
  then show ?thesis
  proof cases
    case asked
    then obtain msg where "st' = chan_send ch (Some msg) st"
      using d(2) by (auto simp: st' tcp_Receive_def receive_request_def tcp_asked_def)
    then have "tcp_store st' = tcp_store st" "tcp_log st' = tcp_log st @ [(ch, Some msg)]"
      "tcp_bufs st' = tcp_bufs st" "tcp_ints st' = tcp_ints st" by simp_all
    then show ?thesis using asked ok by (simp add: user_gets_def tcp_asked_def streaming_def)
  next
    case empty
    let ?u = "upd_pcb k (\<lambda>p. p\<lparr>tp_rcvCmd := \<lparr>rc_n = n, rc_data = buf, rc_errCh = Some ch\<rparr>\<rparr>) st"
    have "st' = ?u"
      using empty d(1,2,13) tcp_Receive_established [of st k ch buf n] signal_receive_none [of ?u k] by (simp add: st')
    then show ?thesis
      using empty ok d(1) by (simp add: user_gets_def tcp_asked_def streaming_def rx_view_def)
  next
    case data
    let ?p = "pcb_at st k"
    have size: "unat (tp_rxLen ?p) \<le> length (tcp_bufs st ! buf)" using fits data d(10) by simp
    have cmd: "tp_rcvCmd ?p = rcv_cmd_zero" using d(13) data by simp
    have rcv: "tcp_ints st' ! n = int (unat (tp_rxLen ?p)) \<and>
        tcp_bufs st' ! buf = rx_view ?p @ drop (unat (tp_rxLen ?p)) (tcp_bufs st ! buf) \<and>
        tcp_log st' = tcp_log st @ [(ch, None)] \<and> length (tcp_store st') = length (tcp_store st) \<and>
        length (tcp_bufs st') = length (tcp_bufs st) \<and> length (tcp_ints st') = length (tcp_ints st) \<and>
        pcb_at st' k = ?p\<lparr>tp_rxLen := 0, rcv_wnd := of_nat tcpBufferSize\<rparr>"
      using tcp_Receive_data [OF d(1) refl d(2) cmd data(2) d(9,11) refl refl st'] size
      by (simp add: min_absorb2 rx_view_def)
    then show ?thesis
      using data cmd ok size d(10,14)
      by (auto simp: user_gets_def tcp_asked_def streaming_def rcv_cmd_zero_def receiving_def tcpBufferSize_def rx_view_def)
  qed
qed

text \<open>A repeated segment is not acceptable.\<close>

lemma stream_repeats:
  assumes ok: "streaming k ch buf n room nxt base m st" and "in_sequence nxt base (Repeats i a)"
    and st': "st' = tcp_arrives k i a st"
  shows "user_step (tcp_asked k st) (rx_view (pcb_at st k)) (Repeats i d) =
      (user_gets ch buf n st st', tcp_asked k st', rx_view (pcb_at st' k)) \<and>
    streaming k ch buf n room nxt base m st'"
proof -
  note d = streamingD [OF ok]
  let ?p = "pcb_at st k"
  let ?seg = "arrival_segment ?p i a"
  define l where "l = length (ar_data a)"
  have l: "0 < l" "l \<le> i" "i \<le> unat (rcv_nxt ?p)" using assms(2) d(8) by (auto simp: l_def)
  have i: "unat (of_nat i :: u32) = i" "unat (of_nat l :: u32) = l"
    unfolding unat_of_nat using l d(6) by simp_all
  have seq: "unat (rcv_nxt ?p - of_nat i) = unat (rcv_nxt ?p) - i"
    using l i by (simp add: unat_sub word_le_nat_alt)
  have "unat (rcv_nxt ?p - of_nat i + of_nat l) = unat (rcv_nxt ?p) - i + l"
    using seq i l d(6) by (subst unat_add_lem [THEN iffD1]) simp_all
  then have last: "unat (rcv_nxt ?p - of_nat i + of_nat l - 1) < unat (rcv_nxt ?p)"
    using l by (subst unat_sub) (simp_all add: word_le_nat_alt)
  have "\<not> seg_acceptable ?p ?seg"
    using l last seq i unfolding seg_acceptable_def Let_def arrival_segment_def
    by (auto simp: word_le_nat_alt l_def [symmetric])
  then have "st' = st \<or> st' = snd (TxHelperTCP arp_Resolve k ACK [] 0 None st)"
    using d(2) unfolding st' tcp_arrives_def
    by (cases "TxHelperTCP arp_Resolve k ACK [] 0 None st")
       (auto simp: segmentArrives_def seg_default_def seg_check_seq_def)
  moreover have "pcb_at (snd (TxHelperTCP arp_Resolve k ACK [] 0 None st)) k = ?p"
    by (rule arp_tcp.TxHelper_ack_pcb [OF d(1)])
  ultimately have "pcb_at st' k = ?p" "tcp_log st' = tcp_log st" "tcp_bufs st' = tcp_bufs st"
    "tcp_ints st' = tcp_ints st" "length (tcp_store st') = length (tcp_store st)" by auto
  then show ?thesis using ok by (simp add: user_gets_def tcp_asked_def streaming_def)
qed

lemma arrival_length:
  assumes "length d + used \<le> 65535"
  shows "unat (of_nat (length d) :: u32) = length d" "unat (of_nat (length d) :: u16) = length d"
  unfolding unat_of_nat using assms by simp_all

text \<open>Text in sequence: it joins what waits, or serves the waiting request.\<close>

lemma stream_arrives:
  assumes ok: "streaming k ch buf n room nxt base (length (ar_data a) + m) st" and "in_sequence nxt base (Arrives a)"
    and fits: "event_fits tcpBufferSize room (tcp_asked k st) (length (rx_view (pcb_at st k))) (Arrives (ar_data a))"
    and st': "st' = tcp_arrives k 0 a st"
  shows "user_step (tcp_asked k st) (rx_view (pcb_at st k)) (Arrives (ar_data a)) =
      (user_gets ch buf n st st', tcp_asked k st', rx_view (pcb_at st' k)) \<and>
    streaming k ch buf n room nxt base m st'"
proof -
  note d = streamingD [OF ok]
  let ?p = "pcb_at st k" and ?d = "ar_data a"
  have f: "?d \<noteq> []" "length ?d + unat (tp_rxLen ?p) \<le> 65535" "tcp_asked k st \<Longrightarrow> unat (tp_rxLen ?p) + length ?d \<le> room"
    using fits d(14) by (simp_all add: tcpBufferSize_def)
  note len = arrival_length [OF f(2)]
  have pos: "(of_nat (length ?d) :: u32) \<noteq> 0" using f(1) len(1) by auto
  have wnd: "length ?d \<le> unat (rcv_wnd ?p)" using f(2) d(4) by simp
  then have "0 < unat (rcv_wnd ?p)" using f(1) by (cases ?d) auto
  then have acc: "seg_acceptable ?p (arrival_segment ?p 0 a)"
    using d(6) by (intro arp_tcp.at_nxt_acceptable) (simp_all add: arrival_segment_def word_less_nat_alt)
  have l: "unat (tp_rxLen ?p + of_nat (length ?d)) = unat (tp_rxLen ?p) + length ?d"
    using len f(2) by (subst unat_add_lem [THEN iffD1]) simp_all
  have wd: "unat (rcv_wnd ?p - of_nat (length ?d)) = unat (rcv_wnd ?p) - length ?d"
    using len wnd by (simp add: unat_sub word_le_nat_alt)
  have nx: "unat (rcv_nxt ?p + of_nat (length ?d)) = unat (rcv_nxt ?p) + length ?d"
    using len d(6) by (subst unat_add_lem [THEN iffD1]) simp_all
  obtain st2 es where
    s: "st' = snd (TxHelperTCP arp_Resolve k ACK [] 0 None (signal_receive k st2))" and
    2: "k < length (tcp_store st2)" "tp_state (pcb_at st2 k) = StEstablished"
      "snd_una (pcb_at st2 k) \<le> snd_nxt (pcb_at st2 k)" "snd_nxt (pcb_at st2 k) = snd_nxt ?p"
      "tp_rxQueue (pcb_at st2 k) = copy_at (unat (tp_rxLen ?p)) ?d (tp_rxQueue ?p)"
      "tp_rxLen (pcb_at st2 k) = tp_rxLen ?p + of_nat (length ?d)"
      "rcv_nxt (pcb_at st2 k) = rcv_nxt ?p + of_nat (length ?d)"
      "rcv_wnd (pcb_at st2 k) = rcv_wnd ?p - of_nat (length ?d)" "tp_rcvCmd (pcb_at st2 k) = tp_rcvCmd ?p" and
    3: "length (tcp_store st2) = length (tcp_store st)" "tcp_bufs st2 = tcp_bufs st" "tcp_ints st2 = tcp_ints st"
      "tcp_log st2 = tcp_log st @ notices None es" "set es \<subseteq> set (tp_retxQueue ?p)"
      "set (tp_retxQueue (pcb_at st2 k)) \<subseteq> set (tp_retxQueue ?p)"
    by (rule arp_tcp.text_taken [OF d(1) refl d(2,5) acc _ _ _ _ pos st' [unfolded tcp_arrives_def]])
       (use assms(2) d(7) in \<open>simp_all add: arrival_segment_def ucast_of_nat_u16\<close>)
  have quiet: "(ch, None) \<notin> set (notices None es)"
    using 3(5) d(12) by (auto simp: notices_mem)
  have queue: "\<forall>e \<in> set (tp_retxQueue (pcb_at st2 k)). re_errCh e \<noteq> Some ch" using 3(6) d(12) by auto
  have view: "rx_view (pcb_at st2 k) = rx_view ?p @ ?d"
    using copy_at_view [of "unat (tp_rxLen ?p)" ?d "tp_rxQueue ?p"] d(3) f(2)
    by (simp add: rx_view_def 2(5,6) l)
  show ?thesis
  proof (cases "tcp_asked k st")
    case False
    then have cmd: "tp_rcvCmd ?p = rcv_cmd_zero" using d(13) by simp
    then have "signal_receive k st2 = st2" by (intro signal_receive_none) (simp add: 2(9))
    then have st2: "pcb_at st' k = pcb_at st2 k" "length (tcp_store st') = length (tcp_store st2)"
      "tcp_log st' = tcp_log st2" "tcp_bufs st' = tcp_bufs st2" "tcp_ints st' = tcp_ints st2"
      using arp_tcp.TxHelper_ack_pcb [OF 2(1)] by (simp_all add: s)
    have "streaming k ch buf n room nxt base m st'"
      using 2 3 d queue cmd l wd nx f(2) unfolding streaming_def st2
      by (simp add: receiving_def tcpBufferSize_def)
    moreover have "tcp_asked k st' = False" "user_gets ch buf n st st' = []"
      using quiet cmd by (simp_all add: tcp_asked_def user_gets_def st2 2(9) 3(4) rcv_cmd_zero_def)
    ultimately show ?thesis using False view by (simp add: st2)
  next
    case True
    then have cmd: "tp_rcvCmd ?p = \<lparr>rc_n = n, rc_data = buf, rc_errCh = Some ch\<rparr>" "tp_rxLen ?p = 0"
      using d(13) by simp_all
    have size: "length ?d \<le> room" using f(3) [OF True] by simp
    have rx: "unat (tp_rxLen (pcb_at st2 k)) = length ?d" using l cmd(2) by (simp add: 2(6))
    define st3 where "st3 = signal_receive k st2"
    have rcv: "tcp_ints st3 ! n = int (length ?d) \<and>
        tcp_bufs st3 ! buf = rx_view (pcb_at st2 k) @ drop (length ?d) (tcp_bufs st ! buf) \<and>
        tcp_log st3 = tcp_log st2 @ [(ch, None)] \<and> length (tcp_store st3) = length (tcp_store st2) \<and>
        length (tcp_bufs st3) = length (tcp_bufs st) \<and> length (tcp_ints st3) = length (tcp_ints st) \<and>
        pcb_at st3 k = (pcb_at st2 k)\<lparr>tp_rcvCmd := rcv_cmd_zero, tp_rxLen := 0, rcv_wnd := of_nat tcpBufferSize\<rparr>"
      using signal_receive_data [OF 2(1) 2(9) [unfolded cmd(1)] refl _ _ _ refl refl st3_def] f(1) size rx d(9-11) 3(2,3)
      by (simp add: min_absorb2 rx_view_def)
    have st': "pcb_at st' k = pcb_at st3 k" "length (tcp_store st') = length (tcp_store st3)"
      "tcp_log st' = tcp_log st3" "tcp_bufs st' = tcp_bufs st3" "tcp_ints st' = tcp_ints st3"
      using arp_tcp.TxHelper_ack_pcb [of k st3] 2(1) rcv by (simp_all add: s st3_def)
    have w: "rx_view ?p = []" "length (rx_view (pcb_at st2 k)) = length ?d" using cmd(2) view by (simp_all add: rx_view_def)
    have q: "length (tp_rxQueue (pcb_at st2 k)) = 65535"
      using d(3) f(2) by (simp add: 2(5) copy_at_def)
    have "streaming k ch buf n room nxt base m st'"
      using 2(1-4,7) 3(1) d(6-11) queue rcv q nx w size unfolding streaming_def st'
      by (simp add: receiving_def tcpBufferSize_def)
    moreover have "tcp_asked k st' = False" "user_gets ch buf n st st' = rx_view (pcb_at st2 k)"
      using rcv w by (simp_all add: tcp_asked_def user_gets_def st' 3(4) rcv_cmd_zero_def)
    moreover have "rx_view (pcb_at st' k) = []" using rcv by (simp add: st' rx_view_def)
    ultimately show ?thesis using True view by simp
  qed
qed

lemma stream_step:
  assumes "streaming k ch buf n room nxt base (length (arrivals [map_stream_event ar_data e]) + m) st"
    and "in_sequence nxt base e"
    and "event_fits tcpBufferSize room (tcp_asked k st) (length (rx_view (pcb_at st k))) (map_stream_event ar_data e)"
    and "st' = tcp_stream_step k ch buf n e st"
  shows "user_step (tcp_asked k st) (rx_view (pcb_at st k)) (map_stream_event ar_data e) =
      (user_gets ch buf n st st', tcp_asked k st', rx_view (pcb_at st' k)) \<and>
    streaming k ch buf n room nxt base m st'"
proof (cases e)
  case (Arrives a)
  show ?thesis
    using stream_arrives [of k ch buf n room nxt base a m st st'] assms
    unfolding Arrives by (simp only: stream_event.map arrivals.simps append_Nil2 tcp_stream_step_def stream_event.case)
next
  case (Repeats i a)
  show ?thesis
    using stream_repeats [of k ch buf n room nxt base m st i a st' "ar_data a"] assms
    unfolding Repeats by (simp only: stream_event.map arrivals.simps list.size add_0 tcp_stream_step_def stream_event.case)
next
  case Receives
  show ?thesis
    using stream_receive [of k ch buf n room nxt base m st st'] assms streamingD(14) [OF assms(1)]
    unfolding Receives by (simp only: stream_event.map arrivals.simps list.size add_0 tcp_stream_step_def
      stream_event.case event_fits.simps)
qed

interpretation tcp_stream: byte_stream "tcp_stream_step k ch buf n" "user_gets ch buf n" ar_data "tcp_asked k"
    "\<lambda>st. rx_view (pcb_at st k)" "streaming k ch buf n room nxt base" "in_sequence nxt base" tcpBufferSize room
  for k ch buf n room nxt base
  by unfold_locales (use stream_step in blast)+

section \<open>Properties\<close>

text \<open>C1. TCP delivers a byte stream. The connection is established, and its sequence numbers do not wrap around
  within the run. Segments arrive in sequence, which is what the code assumes of them, and fit the free space,
  or they repeat bytes that were received before. The user calls \<open>RECEIVE\<close> at any time, in any order with them: with
  bytes waiting, with none, or with an earlier call still waiting. The segments may acknowledge anything that
  was sent. The user's buffer may be of any size, as long as no request is served with more than it holds.
  Then in each step the user gets exactly what the stream \<open>user_stream\<close> promises, so a waiting request is served by
  the next arrival and a call with bytes waiting takes all of them at once, and all that the user got
  with what still waits is what waited at first with what arrived, in order, none lost and none twice.
  A request that gets less than what waits is treated below.\<close>

theorem tcp_stream_in_order:
  assumes "texts = map (map_stream_event ar_data) es"
    and "streaming k ch buf n room nxt base (length (arrivals texts)) st" "\<forall>e \<in> set es. in_sequence nxt base e"
    and "stream_fits tcpBufferSize room (tcp_asked k st) (rx_view (pcb_at st k)) texts"
    and "stream_run (tcp_stream_step k ch buf n) (user_gets ch buf n) es st = (got, st')"
  shows "user_stream (tcp_asked k st) (rx_view (pcb_at st k)) texts = (got, tcp_asked k st', rx_view (pcb_at st' k)) \<and>
    concat got @ rx_view (pcb_at st' k) = rx_view (pcb_at st k) @ arrivals texts"
proof -
  have "user_stream (tcp_asked k st) (rx_view (pcb_at st k)) texts = (got, tcp_asked k st', rx_view (pcb_at st' k))"
    using tcp_stream.run_refines assms unfolding assms(1) by blast
  with user_stream_conserves [OF this] show ?thesis by blast
qed

text \<open>C32. \<open>RECEIVE\<close> with a buffer too small for what waits hands out the first bytes, as it should, but
  then moves the wrong part to the front: the remaining bytes are read from \<open>rxLen - n\<close> instead of
  \<open>n\<close>, which is right only when exactly half was taken.\<close>

theorem tcp_Receive_small_buffer:
  assumes "k < length (tcp_store st)" "p = pcb_at st k" "tp_state p = StEstablished"
    and "tp_rcvCmd p = rcv_cmd_zero" "length (tp_rxQueue p) = tcpBufferSize"
    and "buf < length (tcp_bufs st)" "n < length (tcp_ints st)"
    and "m = length (tcp_bufs st ! buf)" "m < unat (tp_rxLen p)" "2 * (unat (tp_rxLen p) - m) \<le> tcpBufferSize"
    and "st' = tcp_Receive k ch buf n st"
  shows "tcp_bufs st' ! buf = take m (rx_view p) \<and> tcp_ints st' ! n = int m \<and>
    rx_view (pcb_at st' k) = take (unat (tp_rxLen p) - m) (drop (unat (tp_rxLen p) - m) (tp_rxQueue p)) \<and>
    drop m (rx_view p) = take (unat (tp_rxLen p) - m) (drop m (tp_rxQueue p))"
proof -
  define off where "off = unat (tp_rxLen p) - m"
  have "m = min (length (tcp_bufs st ! buf)) (unat (tp_rxLen p))" using assms(8,9) by simp
  note rcv = tcp_Receive_data [OF assms(1,2) _ assms(4) _ assms(6,7) this off_def assms(11)]
  have m: "unat (of_nat m :: u16) = m"
    unfolding unat_of_nat using less_trans [OF assms(9) unat_u16_less] by simp
  have "unat (tp_rxLen p - of_nat m) = off"
    using m assms(9) by (simp add: unat_sub word_le_nat_alt off_def)
  moreover have "off + off \<le> length (tp_rxQueue p)" "0 < off" using assms(5,9,10) by (simp_all add: off_def)
  moreover have "pcb_at st' k = p\<lparr>tp_rxQueue := drop off (tp_rxQueue p) @ drop (length (tp_rxQueue p) - off) (tp_rxQueue p),
             tp_rxLen := tp_rxLen p - of_nat m, rcv_wnd := rcv_wnd p + of_nat m\<rparr>"
    using rcv assms(2,3,9) \<open>0 < off\<close> by simp
  ultimately have "rx_view (pcb_at st' k) = take off (drop off (tp_rxQueue p))"
    by (simp add: rx_view_def)
  with rcv assms(2,3,8,9) show ?thesis
    by (simp add: off_def [symmetric] rx_view_def drop_take) (simp add: off_def)
qed

text \<open>The FIN of a segment that also carries text is lost: it is counted in \<open>RCV.NXT\<close> and thereby
  acknowledged to the peer, but the step for the FIN is never reached, so the connection stays in
  ESTABLISHED and never learns that the peer closed.\<close>

theorem tcp_FIN_with_text_lost:
  assumes "k < length (tcp_store st)" "p = pcb_at st k" "tp_state p = StEstablished"
    and "snd_una p \<le> snd_nxt p" "tp_rcvCmd p = rcv_cmd_zero" "seg_acceptable p seg"
    and "sg_ack seg = snd_nxt p" "sg_len seg = dataLen + 1" "dataLen \<noteq> 0"
    and "st' = snd (segmentArrives arp_Resolve iss k seg (ACK OR FIN) d dataLen foreign st)"
  shows "tcp_Status k st' = StEstablished \<and> rcv_nxt (pcb_at st' k) = sg_seq seg + dataLen + 1"
proof -
  have "\<not> isSet (ACK OR FIN) RST" "\<not> isSet (ACK OR FIN) SYN" "isSet (ACK OR FIN) ACK"
    by (simp_all add: isSet_def ACK_def RST_def SYN_def FIN_def)
  then obtain st2 es where "st' = snd (TxHelperTCP arp_Resolve k ACK [] 0 None (signal_receive k st2))"
    "k < length (tcp_store st2)" "tp_state (pcb_at st2 k) = StEstablished"
    "rcv_nxt (pcb_at st2 k) = sg_seq seg + sg_len seg" "tp_rcvCmd (pcb_at st2 k) = tp_rcvCmd p"
    by (rule arp_tcp.text_taken [OF assms(1-4,6) _ _ _ _ assms(9,10)]) (simp_all add: assms(7))
  then show ?thesis
    using arp_tcp.TxHelper_ack_pcb [of k st2] signal_receive_none [of st2 k] assms(5)
    by (simp add: tcp_Status_def assms(8) add.assoc)
qed

definition stream_demo :: "bytes \<Rightarrow> bytes \<Rightarrow> tcp_state" where
  "stream_demo q b = tcp_demo\<lparr>tcp_store := [pcb_zero\<lparr>tp_state := StEstablished, tp_rxLen := of_nat (length q),
     rcv_wnd := 65535 - of_nat (length q), tp_rxQueue := q @ replicate (65535 - length q) 0\<rparr>],
     tcp_bufs := [b], tcp_ints := [0]\<rparr>"

lemma stream_demo_fields:
  "tcp_store (stream_demo q b) = [pcb_zero\<lparr>tp_state := StEstablished, tp_rxLen := of_nat (length q),
     rcv_wnd := 65535 - of_nat (length q), tp_rxQueue := q @ replicate (65535 - length q) 0\<rparr>]"
  "tcp_bufs (stream_demo q b) = [b]" "tcp_ints (stream_demo q b) = [0]"
  by (simp_all add: stream_demo_def)

text \<open>A request that waits, text that serves it, the same text again, more text, and a second request;
  the user's buffer has two bytes.\<close>

definition demo_text :: "bytes \<Rightarrow> tcp_arrival" where
  "demo_text d = \<lparr>ar_data = d, ar_flag = ACK, ar_ack = 0, ar_wnd = 9, ar_up = 0, ar_from = endpoint_zero, ar_iss = 0\<rparr>"

definition late_demo :: tcp_state where
  "late_demo = (stream_demo [] [0, 0])\<lparr>tcp_store := [pcb_zero\<lparr>tp_state := StEstablished, rcv_nxt := 100, rcv_wnd := 65535\<rparr>]\<rparr>"

theorem tcp_stream_in_order_witness:
  "fst (stream_run (tcp_stream_step 0 5 0 0) (user_gets 5 0 0)
       [Receives, Arrives (demo_text [1, 2]), Repeats 2 (demo_text [1, 2]), Arrives (demo_text [3]), Receives]
       late_demo) = [[], [1, 2], [], [], [3]]"
proof -
  let ?es = "[Receives, Arrives (demo_text [1, 2]), Repeats 2 (demo_text [1, 2]), Arrives (demo_text [3]), Receives]"
  have st: "tcp_store late_demo = [pcb_zero\<lparr>tp_state := StEstablished, rcv_nxt := 100, rcv_wnd := 65535\<rparr>]"
    "tcp_bufs late_demo = [[0, 0]]" "tcp_ints late_demo = [0]"
    by (simp_all add: late_demo_def stream_demo_fields)
  have ok: "streaming 0 5 0 0 2 0 100 3 late_demo"
    by (simp add: st streaming_def receiving_def pcb_zero_def tcpBufferSize_def)
  have n: "length (arrivals (map (map_stream_event ar_data) ?es)) = 3" by (simp add: demo_text_def)
  have es: "\<forall>e \<in> set ?es. in_sequence 0 100 e" by (simp add: demo_text_def flag_ack)
  have view: "rx_view (pcb_at late_demo 0) = []" "\<not> tcp_asked 0 late_demo"
    by (simp_all add: st pcb_zero_def rx_view_def tcp_asked_def rcv_cmd_zero_def)
  obtain got st' where run: "stream_run (tcp_stream_step 0 5 0 0) (user_gets 5 0 0) ?es late_demo = (got, st')"
    by (rule prod.exhaust)
  from tcp_stream_in_order [OF refl ok [folded n] es _ run] view have "got = [[], [1, 2], [], [], [3]]"
    by (simp add: demo_text_def tcpBufferSize_def)
  with run show ?thesis by (simp only: fst_conv)
qed

theorem tcp_Receive_small_buffer_witness:
  "rx_view (pcb_at (tcp_Receive 0 5 0 0 (stream_demo [1, 2, 3, 4] [0])) 0) = [4, 0, 0]"
proof -
  let ?st = "stream_demo [1, 2, 3, 4] [0]"
  let ?p = "pcb_at ?st 0"
  have "0 < length (tcp_store ?st)" "0 < length (tcp_bufs ?st)" "0 < length (tcp_ints ?st)"
    "tp_state ?p = StEstablished" "tp_rcvCmd ?p = rcv_cmd_zero" "length (tp_rxQueue ?p) = tcpBufferSize"
    "1 = length (tcp_bufs ?st ! 0)" "1 < unat (tp_rxLen ?p)" "2 * (unat (tp_rxLen ?p) - 1) \<le> tcpBufferSize"
    by (simp_all add: stream_demo_fields pcb_zero_def tcpBufferSize_def)
  note rcv = tcp_Receive_small_buffer [OF this(1) refl this(4,5,6,2,3,7,8,9) refl, of 5]
  have two: "replicate 2 (0 :: byte) = [0, 0]" by (simp add: numeral_2_eq_2)
  from rcv show ?thesis by (simp add: stream_demo_fields pcb_zero_def two)
qed

theorem tcp_FIN_with_text_lost_witness:
  "rcv_nxt (pcb_at (snd (segmentArrives arp_Resolve 0 0
     \<lparr>sg_seq = 0, sg_ack = 0, sg_len = 3, sg_wnd = 9, sg_up = 0\<rparr> (ACK OR FIN) [1, 2] 2 endpoint_zero
     (stream_demo [] []))) 0) = 3"
proof -
  let ?st = "stream_demo [] []" and ?seg = "\<lparr>sg_seq = 0, sg_ack = 0, sg_len = 3, sg_wnd = 9, sg_up = 0\<rparr>"
  let ?p = "pcb_at ?st 0"
  have "0 < length (tcp_store ?st)" "tp_state ?p = StEstablished" "snd_una ?p \<le> snd_nxt ?p"
    "tp_rcvCmd ?p = rcv_cmd_zero" "seg_acceptable ?p ?seg" "sg_ack ?seg = snd_nxt ?p" "sg_len ?seg = 2 + 1"
    by (simp_all add: stream_demo_fields pcb_zero_def seg_acceptable_def)
  from tcp_FIN_with_text_lost [OF this(1) refl this(2-7) _ refl, of 0 "[1, 2]" endpoint_zero]
  show ?thesis by simp
qed

end
