(* ===== verification/TcpConnect.thy ===== *)
theory TcpConnect
  imports TcpStream
begin

text \<open>
  The life of a connection: active and passive opening, the orderly close, and the timer.
\<close>

section \<open>Calls that send\<close>

text \<open>What a successful round of tries leaves: the control block as it was, with one more entry in the
  retransmission queue.\<close>

context tcp_layer begin

lemma try_send_success:
  assumes k: "k < length (tcp_store st)" and w: "waits wait"
    and q: "isSet flag (SYN OR FIN) \<or> data \<noteq> []" and r: "err \<noteq> None \<or> 0 < n"
    and s: "try_send n resolve wait k flag data trigger errCh err st = (None, st')"
  shows "\<exists>t. pcb_at st' k = (pcb_at st k)\<lparr>tp_retxQueue := tp_retxQueue (pcb_at st k) @
       [helper_entry (pcb_at st k) t flag data trigger (Some errCh)]\<rparr> \<and>
    length (tcp_store st') = length (tcp_store st)"
  using k r s
proof (induction n arbitrary: err st)
  case (Suc n)
  obtain e st1 where tx: "TxHelperTCP resolve k flag data trigger (Some errCh) st = (e, st1)" by force
  have p1: "pcb_at st1 k = (if e = None then (pcb_at st k)\<lparr>tp_retxQueue := tp_retxQueue (pcb_at st k) @
            [helper_entry (pcb_at st k) (now st) flag data trigger (Some errCh)]\<rparr> else pcb_at st k)"
    "length (tcp_store st1) = length (tcp_store st)"
    using TxHelper_pcb [OF Suc.prems(1), of flag data trigger "Some errCh"] q
      TxHelper_fields(1) [of k flag data trigger "Some errCh" st] by (simp_all add: tx)
  show ?case
  proof (cases e)
    case None
    with Suc.prems(3) p1 tx show ?thesis by auto
  next
    case (Some m)
    have w1: "tcp_store (wait st1) = tcp_store st1" using waitsD [OF w] by simp
    have "try_send n resolve wait k flag data trigger errCh (Some m) (wait st1) = (None, st')"
      using Suc.prems(3) Some tx by (simp split: if_splits)
    from Suc.IH [OF _ _ this] w1 p1 Some Suc.prems(1) show ?thesis by auto
  qed
qed simp

end

lemma syn_flags: "isSet SYN (SYN OR FIN)" "isSet SYN SYN" "isSet (SYN OR ACK) SYN" "isSet (SYN OR ACK) ACK"
  "\<not> isSet (SYN OR ACK) RST" "\<not> isSet SYN RST" "\<not> isSet SYN ACK"
  by (simp_all add: isSet_def SYN_def FIN_def ACK_def RST_def)

lemma fin_flags: "isSet (ACK OR FIN) (SYN OR FIN)" "\<not> isSet (ACK OR FIN) SYN" "\<not> isSet (ACK OR FIN) RST"
  "isSet (ACK OR FIN) ACK" "isSet (ACK OR FIN) FIN"
  by (simp_all add: isSet_def SYN_def FIN_def ACK_def RST_def)

section \<open>Opening\<close>

context tcp_layer begin

lemma tcp_Open_sent:
  assumes k: "k < length (tcp_store st)" and p: "p = pcb_at st k" "tp_state p = StClosed"
    and w: "waits wait"
    and s: "st1 = tcp_Open resolve wait iss k ch foreign True timeout st" "state_of k st1 = StSYNSent"
  shows "\<exists>t. pcb_at st1 k = p\<lparr>tp_state := StSYNSent, tp_timeout := timeout, tp_foreign := foreign, tp_iss := iss,
      snd_una := iss, snd_nxt := iss + 1, tp_retxQueue := tp_retxQueue p @
      [\<lparr>re_data = [], re_seq = iss, re_flag = SYN, re_first = t, re_last = t, re_retxCount = 0,
        re_errCh = Some ch, re_trigger = triggerOpen\<rparr>]\<rparr> \<and>
    length (tcp_store st1) = length (tcp_store st)"
proof -
  define u where "u = upd_pcb k (\<lambda>p. p\<lparr>tp_timeout := timeout, tp_foreign := foreign, tp_iss := iss,
                     snd_una := iss, snd_nxt := iss + 1\<rparr>) st"
  have ku: "k < length (tcp_store u)" using k by (simp add: u_def)
  obtain r s2 where tx: "try_send 3 resolve wait k SYN [] triggerOpen ch None u = (r, s2)" by force
  have s2: "tcp_core (pcb_at s2 k) = tcp_core (pcb_at u k)" "length (tcp_store s2) = length (tcp_store u)"
    using try_send_core [OF ku waitsD [OF w], of 3 SYN "[]" triggerOpen ch None] tx by simp_all
  have any: "ep_addr foreign \<noteq> AddrAny"
    using s p by (auto simp: tcp_Open_def tcp_open_active_def)
  have r: "r = None"
  proof (cases r)
    case (Some e)
    then have "state_of k st1 = state_of k s2"
      using s p any by (simp add: tcp_Open_def tcp_open_active_def u_def [symmetric] tx)
    also have "\<dots> = StClosed" using tcp_core_fields(1) [OF s2(1)] p k by (simp add: u_def)
    finally show ?thesis using s by simp
  qed simp
  then obtain t where "pcb_at s2 k = (pcb_at u k)\<lparr>tp_retxQueue := tp_retxQueue (pcb_at u k) @
       [helper_entry (pcb_at u k) t SYN [] triggerOpen (Some ch)]\<rparr>"
    using try_send_success [OF ku w _ _ tx [unfolded r]] syn_flags(1) by auto
  then show ?thesis
    using s p any k s2(2) r
    by (intro exI [of _ t])
       (simp add: tcp_Open_def tcp_open_active_def u_def [symmetric] tx,
        simp add: u_def helper_entry_def syn_flags)
qed

end

lemma next_word: "(a :: u32) \<noteq> 0xffffffff \<Longrightarrow> a < a + 1"
proof -
  assume a: "a \<noteq> 0xffffffff"
  have "1 + a \<noteq> 0"
  proof
    assume "1 + a = 0"
    then have "a = - 1" by (metis add.inverse_unique)
    then have "a = 0xffffffff" by simp
    with a show False by simp
  qed
  from unatSuc [OF this] show "a < a + 1" by (simp add: word_less_nat_alt add.commute)
qed

lemma wrap_word: "(4294967296 :: u32) = 0"
  by transfer (simp add: take_bit_eq_mod)

context tcp_layer begin

lemma seg_synsent_acked:
  assumes k: "k < length (tcp_store st)" and p: "p = pcb_at st k"
    and s: "snd_una p = tp_iss p" "snd_nxt p = tp_iss p + 1" "tp_iss p \<noteq> 0xffffffff"
    and q: "tp_retxQueue p = [e]" "re_seq e = tp_iss p" "re_errCh e = Some ch"
    and a: "sg_ack seg = tp_iss p + 1" and st': "st' = snd (seg_synsent resolve k seg (SYN OR ACK) st)"
  shows "state_of k st' = StEstablished \<and> snd_una (pcb_at st' k) = tp_iss p + 1 \<and>
    rcv_nxt (pcb_at st' k) = sg_seq seg + 1 \<and> tp_retxQueue (pcb_at st' k) = [] \<and>
    tcp_log st' = tcp_log st @ [(ch, None)]"
proof -
  have lt: "tp_iss p < tp_iss p + 1" by (rule next_word [OF s(3)])
  then have le: "tp_iss p \<le> tp_iss p + 1" "\<not> tp_iss p + 1 \<le> tp_iss p" by (simp_all add: not_le)
  define u where "u = upd_pcb k (\<lambda>q. q\<lparr>snd_una := tp_iss p + 1\<rparr>)
      (upd_pcb k (\<lambda>q. q\<lparr>rcv_nxt := sg_seq seg + 1, tp_irs := sg_seq seg\<rparr>) st)"
  have u: "k < length (tcp_store u)" "pcb_at u k = p\<lparr>rcv_nxt := sg_seq seg + 1, tp_irs := sg_seq seg, snd_una := tp_iss p + 1\<rparr>"
    "tcp_log u = tcp_log st" using k p by (simp_all add: u_def)
  obtain r b where b: "queueAck k u = (r, b)" by force
  have b': "r = None" "k < length (tcp_store b)" "snd_una (pcb_at b k) = tp_iss p + 1"
    "tp_iss (pcb_at b k) = tp_iss p" "rcv_nxt (pcb_at b k) = sg_seq seg + 1" "tp_retxQueue (pcb_at b k) = []"
    using queueAck_fields [OF u(1)] queueAck_core(5) [OF u(1)] u b lt q by simp_all
  have log: "tcp_log b = tcp_log st @ [(ch, None)]"
    using queueAck_eq [of k u] b u q lt by auto
  define c where "c = upd_pcb k (\<lambda>q. q\<lparr>snd_wnd := sg_wnd seg, snd_wl1 := sg_seq seg, snd_wl2 := tp_iss p + 1\<rparr>)
      (tcp_transition k StEstablished b)"
  have c: "k < length (tcp_store c)" "tp_retxQueue (pcb_at c k) = []" "tcp_log c = tcp_log b"
    "state_of k c = StEstablished" "snd_una (pcb_at c k) = tp_iss p + 1" "rcv_nxt (pcb_at c k) = sg_seq seg + 1"
    using b' by (simp_all add: c_def)
  define d where "d = upd_pcb k (\<lambda>p. p\<lparr>tp_retxQueue := []\<rparr>) c"
  have sig: "signalCmd k triggerOpen c = (None, d)"
    by (simp add: signalCmd_def c removeRetx_def d_def)
  have "seg_synsent resolve k seg (SYN OR ACK) st = TxHelperTCP resolve k ACK [] 0 None d"
    unfolding seg_synsent_def Let_def
    using a s lt le b b' sig by (simp add: syn_flags p [symmetric] u_def [symmetric] c_def [symmetric]
        del: upd_pcb_upd)
  then show ?thesis
    using c log by (simp add: st' TxHelper_pcb d_def flag_ack) (simp add: isSet_def ACK_def SYN_def FIN_def)
qed

end

text \<open>C10. Active opening: once \<open>OPEN\<close> has sent its SYN, the matching SYN and ACK establishes the
  connection, empties the retransmission queue and tells the user once that all is well, unless the
  initial sequence number was \<open>2 ^ 32 - 1\<close>: numbers are compared without regard to wrap-around, so that
  connection is always answered with a RST.\<close>

theorem tcp_active_open_established:
  assumes "k < length (tcp_store st)" "tp_state (pcb_at st k) = StClosed" "tp_retxQueue (pcb_at st k) = []"
    and "waits wait" "st1 = tcp_Open arp_Resolve wait iss k ch foreign True timeout st"
    and "tcp_Status k st1 = StSYNSent" "sg_ack seg = iss + 1"
    and "(r, st2) = segmentArrives arp_Resolve iss' k seg (SYN OR ACK) data dataLen from_ep st1"
  shows "if iss = 0xffffffff
    then (r, st2) = tcp_TxHandler arp_Resolve (tp_local (pcb_at st k)) foreign [] 0 0 RST 0 0 st1 \<and>
      tcp_Status k st2 = StSYNSent
    else tcp_Status k st2 = StEstablished \<and> snd_una (pcb_at st2 k) = iss + 1 \<and>
      rcv_nxt (pcb_at st2 k) = sg_seq seg + 1 \<and> tp_retxQueue (pcb_at st2 k) = [] \<and>
      tcp_log st2 = tcp_log st1 @ [(ch, None)]"
proof -
  define p where "p = pcb_at st k"
  obtain t where st1: "pcb_at st1 k = p\<lparr>tp_state := StSYNSent, tp_timeout := timeout, tp_foreign := foreign,
      tp_iss := iss, snd_una := iss, snd_nxt := iss + 1, tp_retxQueue :=
      [\<lparr>re_data = [], re_seq = iss, re_flag = SYN, re_first = t, re_last = t, re_retxCount = 0,
        re_errCh = Some ch, re_trigger = triggerOpen\<rparr>]\<rparr>" "length (tcp_store st1) = length (tcp_store st)"
    using arp_tcp.tcp_Open_sent [OF assms(1) p_def _ assms(4,5)] assms(2,3,6) by (auto simp: p_def tcp_Status_def)
  have k1: "k < length (tcp_store st1)" using assms(1) st1 by simp
  have arr: "(r, st2) = seg_synsent arp_Resolve k seg (SYN OR ACK) st1"
    using assms(8) st1 by (simp add: segmentArrives_def)
  show ?thesis
  proof (cases "iss = 0xffffffff")
    case True
    then have "(r, st2) = tcp_TxHandler arp_Resolve (tp_local p) foreign [] 0 0 RST 0 0 st1"
      using arr st1 assms(7) wrap_word by (simp add: seg_synsent_def syn_flags)
    moreover from this have "tcp_store st2 = tcp_store st1"
      using arp_tcp.tcp_tx_fields(1) by (metis snd_conv)
    ultimately show ?thesis using True st1 by (simp add: p_def tcp_Status_def)
  next
    case False
    with arp_tcp.seg_synsent_acked [OF k1 refl, of _ ch seg st2] st1 arr assms(7) show ?thesis
      by (simp add: tcp_Status_def) (metis snd_conv)
  qed
qed

context tcp_layer begin

text \<open>An acceptable segment with an acknowledgement and nothing else.\<close>

lemma seg_default_ack_only:
  assumes "seg_acceptable (pcb_at st k) seg" "\<not> isSet flag RST" "\<not> isSet flag SYN" "\<not> isSet flag FIN"
    and "seg_check_ack resolve k seg flag st = GoOn st1"
  shows "seg_default resolve k seg flag data 0 st = (None, st1)"
  using assms by (simp add: seg_default_ack seg_text_def seg_fin_def)

lemma seg_listen_syn:
  assumes k: "k < length (tcp_store st)" and p: "p = pcb_at st k"
    and st': "st' = snd (seg_listen resolve iss k seg SYN [] 0 foreign st)"
  shows "k < length (tcp_store st') \<and> tcp_core (pcb_at st' k) = tcp_core (p\<lparr>tp_foreign := foreign,
      rcv_wnd := of_nat tcpBufferSize, rcv_nxt := sg_seq seg + 1, tp_irs := sg_seq seg, tp_iss := iss,
      snd_nxt := iss + 1, snd_una := iss, tp_state := StSYNReceived\<rparr>) \<and>
    tp_rcvCmd (pcb_at st' k) = tp_rcvCmd p"
proof -
  have copy: "copy_at n [] q = q" for n and q :: bytes by (simp add: copy_at_def)
  define u where "u = upd_pcb k (\<lambda>p. p\<lparr>tp_rxQueue := copy_at (unat (tp_rxLen p)) [] (tp_rxQueue p),
                     tp_rxLen := tp_rxLen p + ucast (0 :: u32)\<rparr>)
      (tcp_transition k StSYNReceived (upd_pcb k (\<lambda>p. p\<lparr>tp_foreign := foreign, rcv_wnd := of_nat tcpBufferSize,
                     rcv_nxt := sg_seq seg + 1, tp_irs := sg_seq seg, tp_iss := iss,
                     snd_nxt := iss + 1, snd_una := iss\<rparr>) st))"
  have u: "k < length (tcp_store u)" using k by (simp add: u_def)
  have "st' = snd (TxHelperTCP resolve k (SYN OR ACK) [] 0 None u)"
    by (simp add: st' seg_listen_def syn_flags u_def Let_def del: upd_pcb_upd)
  then show ?thesis
    using TxHelper_core [OF u, of "SYN OR ACK" "[]" 0 None] u k
    by (simp add: TxHelper_pcb) (simp add: u_def p copy tcp_core_def)
qed

end

text \<open>The acknowledgement that ends a passive opening, unless the initial number was the last one.\<close>

lemma syn_received_acked:
  assumes "k < length (tcp_store st)" "q = pcb_at st k" "tp_state q = StSYNReceived" "rcv_wnd q = 65535"
    and "tp_rxLen q = 0" "length (tp_rxQueue q) = tcpBufferSize" "tp_rcvCmd q = rcv_cmd_zero"
    and "snd_una q = iss" "snd_nxt q = iss + 1" "unat (rcv_nxt q) + n + 65535 < 2 ^ 32"
    and "sg_seq ack = rcv_nxt q" "sg_ack ack = iss + 1"
    and st': "st' = snd (segmentArrives arp_Resolve iss' k ack ACK [] 0 foreign st)"
  shows "if iss = 0xffffffff then tcp_Status k st' = StSYNReceived else receiving n (pcb_at st' k)"
proof -
  note q = assms(3-10) [unfolded assms(2)]
  have acc: "seg_acceptable (pcb_at st k) ack"
    by (rule arp_tcp.at_nxt_acceptable) (use assms(2,11) q in simp_all)
  have st': "st' = snd (seg_default arp_Resolve k ack ACK [] 0 st)"
    using q(1) st' by (simp add: segmentArrives_def)
  show ?thesis
  proof (cases "iss = 0xffffffff")
    case True
    let ?tx = "tcp_TxHandler arp_Resolve (tp_local (pcb_at st k)) (tp_foreign (pcb_at st k)) [] 0 0 RST 0 0 st"
    have "seg_check_ack arp_Resolve k ack ACK st = flow_return ?tx"
      using True q assms(12) by (simp add: seg_check_ack_def flag_ack wrap_word Let_def)
    then have "st' = snd ?tx"
      unfolding st' by (cases ?tx) (simp add: arp_tcp.seg_default_ack [OF acc flag_ack(1,2)])
    with True q show ?thesis by (simp add: tcp_Status_def)
  next
    case False
    then have lt: "iss < iss + 1" by (rule next_word)
    let ?u = "tcp_transition k StEstablished st"
    obtain st3 where 3: "ack_advance arp_Resolve k ack ?u = GoOn st3" "state_of k st3 = StEstablished"
      "rcv_same (pcb_at ?u k) (pcb_at st3 k)" "snd_nxt (pcb_at st3 k) = iss + 1" "snd_una (pcb_at st3 k) = iss + 1"
      by (rule arp_tcp.ack_advance_new [of k ?u ack]) (use assms(1,12) q lt in auto)
    have "seg_check_ack arp_Resolve k ack ACK st = GoOn st3"
      using 3 q lt assms(12) by (simp add: seg_check_ack_def flag_ack ack_by_state_def Let_def less_imp_le)
    then have "st' = st3"
      unfolding st' by (subst arp_tcp.seg_default_ack_only [OF acc flag_ack(1-3)]) simp_all
    then show ?thesis
      using 3 q assms(1) False by (simp add: tcp_Status_def receiving_def rcv_same_def tcpBufferSize_def)
  qed
qed

text \<open>C11. Passive opening: a SYN and then an acknowledgement in sequence establish a listening connection,
  with the sender of the SYN as its peer and a full window, fit to receive. An initial sequence number
  of \<open>2 ^ 32 - 1\<close> never gets there.\<close>

theorem tcp_passive_open_established:
  assumes "k < length (tcp_store st)" "tp_state (pcb_at st k) = StListen" "tp_rxLen (pcb_at st k) = 0"
    and "tp_rcvCmd (pcb_at st k) = rcv_cmd_zero" "length (tp_rxQueue (pcb_at st k)) = tcpBufferSize"
    and "unat (sg_seq syn) + 1 + n + 65535 < 2 ^ 32"
    and "st1 = snd (segmentArrives arp_Resolve iss k syn SYN [] 0 foreign st)"
    and "sg_seq ack = sg_seq syn + 1" "sg_ack ack = iss + 1"
    and "st2 = snd (segmentArrives arp_Resolve iss' k ack ACK [] 0 foreign st1)"
  shows "tp_foreign (pcb_at st1 k) = foreign \<and> tcp_Status k st1 = StSYNReceived \<and>
    (if iss = 0xffffffff then tcp_Status k st2 = StSYNReceived else receiving n (pcb_at st2 k))"
proof -
  let ?p = "pcb_at st k" and ?q = "pcb_at st1 k"
  have l: "st1 = snd (seg_listen arp_Resolve iss k syn SYN [] 0 foreign st)"
    using assms(2,7) by (simp add: segmentArrives_def)
  note listen = arp_tcp.seg_listen_syn [OF assms(1) refl l]
  have q: "state_of k st1 = StSYNReceived" "tp_foreign ?q = foreign" "rcv_wnd ?q = 65535" "rcv_nxt ?q = sg_seq syn + 1"
    "snd_nxt ?q = iss + 1" "snd_una ?q = iss" "tp_rxLen ?q = 0" "tp_rxQueue ?q = tp_rxQueue ?p"
    "tp_rcvCmd ?q = rcv_cmd_zero"
    using tcp_core_fields [of ?q, OF listen [THEN conjunct2, THEN conjunct1]] listen assms(3,4)
    by (simp_all add: tcpBufferSize_def)
  have "unat (rcv_nxt ?q) = unat (sg_seq syn) + 1"
    unfolding q(4) using assms(6) by (subst unat_add_lem [THEN iffD1]) simp_all
  then show ?thesis
    using syn_received_acked [OF _ refl _ _ _ _ _ _ _ _ _ _ assms(10), of iss n] listen q assms(5,6,8,9)
    by (simp add: tcp_Status_def)
qed

section \<open>Closing\<close>

context tcp_layer begin

lemma tcp_Close_sent:
  assumes k: "k < length (tcp_store st)" and p: "p = pcb_at st k" "tp_state p = StEstablished"
    and w: "waits wait"
    and s: "st1 = tcp_Close resolve wait k ch st" "state_of k st1 = StFINWait1"
  shows "\<exists>t. pcb_at st1 k = p\<lparr>tp_state := StFINWait1, snd_nxt := snd_nxt p + 1,
      tp_retxQueue := tp_retxQueue p @
      [\<lparr>re_data = [], re_seq = snd_nxt p, re_flag = ACK OR FIN, re_first = t, re_last = t, re_retxCount = 0,
        re_errCh = Some ch, re_trigger = triggerClose\<rparr>]\<rparr> \<and>
    length (tcp_store st1) = length (tcp_store st)"
proof -
  obtain r s2 where tx: "try_send 3 resolve wait k (ACK OR FIN) [] triggerClose ch None st = (r, s2)" by force
  have s2: "tcp_core (pcb_at s2 k) = tcp_core p" "length (tcp_store s2) = length (tcp_store st)"
    using try_send_core [OF k waitsD [OF w], of 3 "ACK OR FIN" "[]" triggerClose ch None] tx p by simp_all
  have close: "st1 = close_fin resolve wait k ch StFINWait1 st" using s p by (simp add: tcp_Close_def)
  have r: "r = None"
  proof (cases r)
    case (Some e)
    then have "state_of k st1 = state_of k s2" by (simp add: close close_fin_def tx)
    also have "\<dots> = StEstablished" using tcp_core_fields(1) [OF s2(1)] p by simp
    finally show ?thesis using s by simp
  qed simp
  then obtain t where "pcb_at s2 k = p\<lparr>tp_retxQueue := tp_retxQueue p @
       [helper_entry p t (ACK OR FIN) [] triggerClose (Some ch)]\<rparr>"
    using try_send_success [OF k w _ _ tx [unfolded r]] fin_flags(1) p by auto
  then show ?thesis
    using k s2(2) r
    by (intro exI [of _ t]) (simp add: close close_fin_def tx, simp add: helper_entry_def fin_flags)
qed

lemma fin_acked:
  assumes k: "k < length (tcp_store st)" and p: "p = pcb_at st k" "tp_state p = StFINWait1"
    and acc: "seg_acceptable p seg" and a: "sg_ack seg = snd_nxt p" "snd_una p < snd_nxt p"
    and q: "tp_retxQueue p = [e]" "re_seq e < snd_nxt p" "re_errCh e = Some ch"
    and st': "st' = snd (segmentArrives resolve iss k seg ACK data 0 foreign st)"
  shows "state_of k st' = StFINWait2 \<and> tp_retxQueue (pcb_at st' k) = [] \<and> rcv_same p (pcb_at st' k) \<and>
    snd_una (pcb_at st' k) = snd_nxt p \<and> snd_nxt (pcb_at st' k) = snd_nxt p \<and>
    tcp_log st' = tcp_log st @ [(ch, None)] \<and> length (tcp_store st') = length (tcp_store st)"
proof -
  obtain st1 where 1: "ack_advance resolve k seg st = GoOn st1"
    "length (tcp_store st1) = length (tcp_store st)" "state_of k st1 = StFINWait1"
    "rcv_same p (pcb_at st1 k)" "snd_nxt (pcb_at st1 k) = snd_nxt p"
    "snd_una (pcb_at st1 k) = snd_nxt p" "tp_retxQueue (pcb_at st1 k) = []"
    "tcp_log st1 = tcp_log st @ [(ch, None)]"
    by (rule ack_advance_new [OF k, of seg]) (use assms in auto)
  let ?st2 = "tcp_transition k StFINWait2 st1"
  have "seg_check_ack resolve k seg ACK st = GoOn ?st2"
    using 1 p a by (simp add: seg_check_ack_def flag_ack ack_by_state_def Let_def)
  with seg_default_ack_only [of st k seg ACK ?st2] acc p have "seg_default resolve k seg ACK data 0 st = (None, ?st2)"
    by (simp add: flag_ack)
  then have "st' = ?st2" using st' p by (simp add: segmentArrives_def)
  then show ?thesis using 1 k by (simp add: rcv_same_def)
qed

lemma fin_arrives:
  assumes k: "k < length (tcp_store st)" and p: "p = pcb_at st k" "tp_state p = StFINWait2"
    and acc: "seg_acceptable p seg" and a: "sg_ack seg = snd_nxt p" "snd_una p = snd_nxt p"
    and q: "tp_retxQueue p = []" "tp_rcvCmd p = rcv_cmd_zero"
    and st': "st' = snd (segmentArrives resolve iss k seg (ACK OR FIN) data 0 foreign st)"
  shows "state_of k st' = StTimeWait \<and> tp_lastTxTime (pcb_at st' k) = now st \<and> now st' = now st \<and>
    rcv_nxt (pcb_at st' k) = sg_seq seg + 1 \<and> tp_retxQueue (pcb_at st' k) = [] \<and>
    length (tcp_store st') = length (tcp_store st)"
proof -
  define st1 where "st1 = upd_pcb k (\<lambda>p. p\<lparr>tp_retxQueue := []\<rparr>) st"
  have "signalCmd k triggerClose st = (None, st1)"
    using q p by (simp add: signalCmd_def removeRetx_def st1_def)
  then have "seg_check_ack resolve k seg (ACK OR FIN) st = GoOn st1"
    using p a q by (simp add: seg_check_ack_def fin_flags ack_advance_def ack_by_state_def Let_def)
  moreover have "signal_receive k st1 = st1"
    using k q p by (simp add: signal_receive_def st1_def rcv_cmd_zero_def Let_def)
  moreover define st3 where "st3 = upd_pcb k (\<lambda>p. p\<lparr>tp_lastTxTime := now st\<rparr>)
      (tcp_transition k StTimeWait (upd_pcb k (\<lambda>p. p\<lparr>rcv_nxt := sg_seq seg + 1\<rparr>) st1))"
  ultimately have "seg_default resolve k seg (ACK OR FIN) data 0 st = TxHelperTCP resolve k ACK [] 0 None st3"
    using acc p k
    by (cases "TxHelperTCP resolve k ACK [] 0 None st3")
       (simp add: seg_default_ack fin_flags seg_text_def seg_fin_def Let_def st1_def st3_def del: upd_pcb_upd)
  then have "st' = snd (TxHelperTCP resolve k ACK [] 0 None st3)"
    using st' p by (simp add: segmentArrives_def)
  then show ?thesis using k by (simp add: st3_def st1_def TxHelper_ack_pcb)
qed

end



text \<open>In the demo states every packet leaves through the null device.\<close>

lemma length_tcp_sent: "length (snd (tcp_header2data h p s d)) = 20 + length p"
  by (simp add: tcp_sent tcp_encode_def be_bytes)

lemma u16_max: "\<not> (65535 :: u16) < x"
proof -
  have "unat x \<le> 65535" using unat_u16_less [of x] by linarith
  then show ?thesis by (simp add: word_less_nat_alt)
qed

lemma tcp_demo_tx:
  assumes "devices st = devices tcp_demo" "routes st = routes tcp_demo" "ifaces st = ifaces tcp_demo"
    and "ep_addr src = AddrAny" "ep_addr dst \<noteq> AddrBroadcast" "length payload \<le> 60000"
  shows "tcp_TxHandler resolve src dst payload seq ack flag wnd up st = (None, snd (generateId st))"
  using assms
  by (simp add: tcp_TxHandler_def ip_TxHandler_def LookupTable_def tcp_demo_def AddrAny_def generateId_def ip_output_def
      DeviceOutput_def isUp_def DeviceFlagUp_def dev_TxHandler_defs DeviceFlagNeedARP_def Let_def case_prod_beta
      length_tcp_sent u16_max HeaderSizeMin_def PayloadSizeMax_def TcpHeaderSizeMin_def)

lemma tcp_demo_helper:
  assumes "devices st = devices tcp_demo" "routes st = routes tcp_demo" "ifaces st = ifaces tcp_demo"
    and "ep_addr (tp_local (pcb_at st k)) = AddrAny" "ep_addr (tp_foreign (pcb_at st k)) \<noteq> AddrBroadcast"
    and "length data \<le> 60000"
  shows "fst (TxHelperTCP resolve k flag data trigger errCh st) = None"
  using assms by (simp add: TxHelperTCP_def Let_def tcp_demo_tx)

definition demo_peer :: endpoint where
  "demo_peer = \<lparr>ep_addr = 8, ep_port = 80\<rparr>"

lemma demo_peer_addr: "ep_addr demo_peer = 8"
  by (simp add: demo_peer_def)

lemma tcp_demo2_fields:
  "tcp_store tcp_demo2 = [pcb_zero\<lparr>tp_state := StClosed, tp_local := endpoint_zero\<rparr>]"
  "devices tcp_demo2 = devices tcp_demo" "routes tcp_demo2 = routes tcp_demo" "ifaces tcp_demo2 = ifaces tcp_demo"
  by (simp_all add: tcp_demo2_def)

theorem tcp_active_open_established_witness:
  "tcp_Status 0 (snd (segmentArrives arp_Resolve 0 0
     \<lparr>sg_seq = 300, sg_ack = 6, sg_len = 1, sg_wnd = 9, sg_up = 0\<rparr> (SYN OR ACK) [] 0 demo_peer
     (tcp_Open arp_Resolve id 5 0 9 demo_peer True 100 tcp_demo2))) = StEstablished"
proof -
  let ?st1 = "tcp_Open arp_Resolve id 5 0 9 demo_peer True 100 tcp_demo2"
  let ?seg = "\<lparr>sg_seq = 300, sg_ack = 6, sg_len = 1, sg_wnd = 9, sg_up = 0\<rparr> :: segment"
  define u where "u = upd_pcb 0 (\<lambda>p. p\<lparr>tp_timeout := 100, tp_foreign := demo_peer, tp_iss := 5,
                     snd_una := 5, snd_nxt := 6\<rparr>) tcp_demo2"
  have "fst (TxHelperTCP arp_Resolve 0 SYN [] triggerOpen (Some 9) u) = None"
    by (rule tcp_demo_helper)
       (simp_all add: u_def upd_pcb_def tcp_demo2_fields pcb_zero_def endpoint_zero_def AddrAny_def
         AddrBroadcast_def demo_peer_addr)
  then have sent: "tcp_Status 0 ?st1 = StSYNSent"
    by (cases "TxHelperTCP arp_Resolve 0 SYN [] triggerOpen (Some 9) u")
       (simp add: tcp_Open_def tcp_open_active_def tcp_demo2_fields u_def [symmetric] demo_peer_addr
         AddrAny_def numeral_3_eq_3 tcp_Status_def, insert arp_tcp.TxHelper_fields(1) [of 0 SYN "[]" triggerOpen "Some 9" u],
        simp add: u_def tcp_demo2_fields)
  obtain r st2 where a: "(r, st2) = segmentArrives arp_Resolve 0 0 ?seg (SYN OR ACK) [] 0 demo_peer ?st1"
    by (metis surj_pair)
  have "waits id" by (simp add: waits_def)
  from tcp_active_open_established [of 0 tcp_demo2, OF _ _ _ this refl sent _ a] show ?thesis
    by (simp add: tcp_demo2_fields pcb_zero_def a [symmetric])
qed

theorem tcp_passive_open_established_witness:
  "receiving 5 (pcb_at (snd (segmentArrives arp_Resolve 0 0
     \<lparr>sg_seq = 301, sg_ack = 8, sg_len = 0, sg_wnd = 9, sg_up = 0\<rparr> ACK [] 0 demo_peer
     (snd (segmentArrives arp_Resolve 7 0
       \<lparr>sg_seq = 300, sg_ack = 0, sg_len = 1, sg_wnd = 9, sg_up = 0\<rparr> SYN [] 0 demo_peer tcp_demo)))) 0)"
proof -
  let ?syn = "\<lparr>sg_seq = 300, sg_ack = 0, sg_len = 1, sg_wnd = 9, sg_up = 0\<rparr> :: segment"
  let ?ack = "\<lparr>sg_seq = 301, sg_ack = 8, sg_len = 0, sg_wnd = 9, sg_up = 0\<rparr> :: segment"
  from tcp_passive_open_established [of 0 tcp_demo ?syn 5, OF _ _ _ _ _ _ refl _ _ refl, of ?ack 7 demo_peer 0]
  show ?thesis by (simp add: tcp_demo_def pcb_zero_def)
qed



end
