(* ===== verification/TcpTimer.thy ===== *)
theory TcpTimer
  imports TcpConnect
begin

text \<open>
  Retransmission, the timer, and the error paths of TCP.
\<close>

section \<open>Acknowledged entries and the timeout\<close>

lemma queueAck_loop_rto:
  "tcp_rto (snd (queueAck_loop i es una del st)) = tcp_rto st \<and> (\<forall>e \<in> set es. \<not> re_seq e < una) \<or>
   (\<exists>e \<in> set es. re_seq e < una) \<and> rto_lbound \<le> tcp_rto (snd (queueAck_loop i es una del st)) \<and>
     tcp_rto (snd (queueAck_loop i es una del st)) \<le> rto_ubound"
proof (induction es arbitrary: i del st)
  case (Cons e es)
  show ?case
  proof (cases "re_seq e < una")
    case True
    then show ?thesis
      using Cons.IH [of "i + 1" "del @ [i]" "calculateRTO (now st - re_last e) (send_opt (re_errCh e) None st)"]
        calculateRTO_bounds [of "now st - re_last e" "send_opt (re_errCh e) None st"] by auto
  next
    case False
    then show ?thesis using Cons.IH [of "i + 1" del st] by auto
  qed
qed simp

section \<open>A round of the timer\<close>

context tcp_layer begin

lemma timer_entries_quiet:
  assumes "\<forall>e \<in> set es. re_retxCount e = 0 \<and> \<not> re_first e + tp_timeout (pcb_at st k) < now st"
  shows "tcp_store (snd (snd (timer_entries resolve k i es del st))) = tcp_store st"
  using assms
proof (induction es arbitrary: i st)
  case (Cons e es)
  have count: "\<not> maxRetxCount \<le> (1 :: u8)" by (simp add: maxRetxCount_def word_le_nat_alt)
  have IH: "tcp_store (snd (snd (timer_entries resolve k j es del s))) = tcp_store s"
    if "tcp_store s = tcp_store st" "now s = now st" for s j
    using Cons.IH [of s j] Cons.prems that by simp
  obtain r s1 where tx: "tcp_TxHandler resolve (tp_local (pcb_at st k)) (tp_foreign (pcb_at st k))
                     (re_data e) (re_seq e) (rcv_nxt (pcb_at st k)) (re_flag e)
                     (snd_wnd (pcb_at st k)) 0 st = (r, s1)" by force
  then have "tcp_store s1 = tcp_store st" "now s1 = now st" by (metis snd_conv tcp_tx_fields(1,6))+
  with IH show ?case using Cons.prems count by (simp add: tx)
qed simp

lemma timer_entries_stopped:
  assumes "\<forall>e \<in> set es. re_retxCount e = 0" "fst (timer_entries resolve k i es del st) \<noteq> None"
  shows "tcp_store (snd (snd (timer_entries resolve k i es del st))) = tcp_store st"
  using assms
proof (induction es arbitrary: i st)
  case (Cons e es)
  have count: "\<not> maxRetxCount \<le> (1 :: u8)" by (simp add: maxRetxCount_def word_le_nat_alt)
  obtain r s1 where tx: "tcp_TxHandler resolve (tp_local (pcb_at st k)) (tp_foreign (pcb_at st k))
                     (re_data e) (re_seq e) (rcv_nxt (pcb_at st k)) (re_flag e)
                     (snd_wnd (pcb_at st k)) 0 st = (r, s1)" by force
  then have "tcp_store s1 = tcp_store st" by (metis snd_conv tcp_tx_fields(1))
  then show ?case
    using Cons.prems count Cons.IH [of "Suc i" st] Cons.IH [of "Suc i" s1]
    by (auto simp: tx split: if_splits)
qed simp

lemma timer_entries_timeout:
  assumes "k < length (tcp_store st)" "\<forall>e \<in> set es. re_retxCount e = 0"
    and "\<exists>e \<in> set es. re_first e + tp_timeout (pcb_at st k) < now st"
    and "fst (timer_entries resolve k i es del st) = None"
  shows "state_of k (snd (snd (timer_entries resolve k i es del st))) = StClosed \<and>
    tp_retxQueue (pcb_at (snd (snd (timer_entries resolve k i es del st))) k) = []"
  using assms
proof (induction es arbitrary: i st)
  case (Cons e es)
  have count: "\<not> maxRetxCount \<le> (1 :: u8)" by (simp add: maxRetxCount_def word_le_nat_alt)
  show ?case
  proof (cases "re_first e + tp_timeout (pcb_at st k) < now st")
    case True
    with Cons.prems(1) show ?thesis by (simp add: signalErr_eq)
  next
    case False
    have IH: "state_of k (snd (snd (timer_entries resolve k j es del s))) = StClosed \<and>
        tp_retxQueue (pcb_at (snd (snd (timer_entries resolve k j es del s))) k) = []"
      if "tcp_store s = tcp_store st" "now s = now st" "fst (timer_entries resolve k j es del s) = None" for s j
      using Cons.IH [of s j] Cons.prems False that by auto
    obtain r s1 where tx: "tcp_TxHandler resolve (tp_local (pcb_at st k)) (tp_foreign (pcb_at st k))
                     (re_data e) (re_seq e) (rcv_nxt (pcb_at st k)) (re_flag e)
                     (snd_wnd (pcb_at st k)) 0 st = (r, s1)" by force
    then have "tcp_store s1 = tcp_store st" "now s1 = now st" by (metis snd_conv tcp_tx_fields(1,6))+
    then show ?thesis
      using False Cons.prems(2,4) count IH by (auto simp: tx stops_iff split: if_splits)
  qed
qed simp

end

section \<open>Properties\<close>

text \<open>C28. An acknowledgement takes exactly the entries whose number lies before \<open>SND.UNA\<close> out of the
  retransmission queue, keeps the others in order, and tells the channel of each entry it takes once
  that all is well. So an entry of which only a first part is acknowledged is taken too: its \<open>SEND\<close> is
  told that all is well, though the comment of \<open>segmentArrives\<close> promises that for buffers that are fully
  acknowledged, and the rest of it is never sent again. The timeout is estimated anew when an entry was
  taken, and lies between one second and one minute.\<close>

theorem tcp_queueAck_exact:
  assumes "k < length (tcp_store st)" "p = pcb_at st k" "(r, st') = queueAck k st"
  shows "r = None \<and> pcb_at st' k = p\<lparr>tp_retxQueue := filter (\<lambda>e. snd_una p \<le> re_seq e) (tp_retxQueue p)\<rparr> \<and>
    tcp_log st' = tcp_log st @ notices None (filter (\<lambda>e. re_seq e < snd_una p) (tp_retxQueue p)) \<and>
    (\<forall>e \<in> set (tp_retxQueue p). \<forall>ch. re_errCh e = Some ch \<longrightarrow>
      re_seq e < snd_una p \<longrightarrow> unat (snd_una p) < unat (re_seq e) + length (re_data e) \<longrightarrow>
      e \<notin> set (tp_retxQueue (pcb_at st' k)) \<and> (ch, None) \<in> set (drop (length (tcp_log st)) (tcp_log st'))) \<and>
    (if \<exists>e \<in> set (tp_retxQueue p). re_seq e < snd_una p
     then rto_lbound \<le> tcp_rto st' \<and> tcp_rto st' \<le> rto_ubound else tcp_rto st' = tcp_rto st)"
proof -
  have "tcp_rto st' = tcp_rto (snd (queueAck_loop 0 (tp_retxQueue p) (snd_una p) [] st))"
    using assms(2,3) by (simp add: queueAck_def split: prod.splits sum.splits)
  with queueAck_loop_rto [of 0 "tp_retxQueue p" "snd_una p" "[]" st]
  have "if \<exists>e \<in> set (tp_retxQueue p). re_seq e < snd_una p
     then rto_lbound \<le> tcp_rto st' \<and> tcp_rto st' \<le> rto_ubound else tcp_rto st' = tcp_rto st" by auto
  moreover have q: "r = None" "pcb_at st' k = p\<lparr>tp_retxQueue := filter (\<lambda>e. snd_una p \<le> re_seq e) (tp_retxQueue p)\<rparr>"
    "tcp_log st' = tcp_log st @ notices None (filter (\<lambda>e. re_seq e < snd_una p) (tp_retxQueue p))"
    using queueAck_eq [of k st, unfolded not_less] assms by auto
  moreover have "e \<notin> set (tp_retxQueue (pcb_at st' k)) \<and> (ch, None) \<in> set (drop (length (tcp_log st)) (tcp_log st'))"
    if "e \<in> set (tp_retxQueue p)" "re_errCh e = Some ch" "re_seq e < snd_una p" for e ch
    using that by (auto simp: q notices_mem)
  ultimately show ?thesis by blast
qed

text \<open>C30. A round of the timer: a connection with an entry older than the user's timeout is closed and its
  queue emptied, unless a send before that entry stops the goroutine. On any other the queue keeps its entries as they are: the timer works on copies, so no
  entry's count or time ever changes, an overdue segment is sent again in every round without the
  intervals growing, and the limit of three is never met.\<close>

theorem tcp_timer_round:
  assumes "tcp_ok st" "k < length (tcp_store st)" "p = pcb_at st k"
    and "\<not> (tp_state p = StTimeWait \<and> tp_lastTxTime p + MSL < now st)"
    and "q = filter (\<lambda>e. snd_una p \<le> re_seq e) (tp_retxQueue p)"
    and "(err, st') = timer_pcb arp_Resolve k st"
  shows "if err = None \<and> (\<exists>e \<in> set q. re_first e + tp_timeout p < now st)
    then tcp_Status k st' = StClosed \<and> tp_retxQueue (pcb_at st' k) = []
    else pcb_at st' k = p\<lparr>tp_retxQueue := q\<rparr> \<and> (\<forall>e \<in> set q. re_retxCount e = 0)"
proof -
  obtain r st1 where a: "queueAck k st = (r, st1)" by force
  have 1: "r = None" "pcb_at st1 k = p\<lparr>tp_retxQueue := q\<rparr>" "now st1 = now st"
    "length (tcp_store st1) = length (tcp_store st)"
    using queueAck_eq [of k st, unfolded not_less] a assms(2,3,5) by auto
  have ok: "\<forall>e \<in> set q. re_retxCount e = 0"
  proof -
    have "pcb_ok p" using assms(1-3) by (simp add: tcp_ok_def)
    then show ?thesis by (auto simp: assms(5) pcb_ok_def entry_ok_def)
  qed
  obtain r2 del st2 where t: "timer_entries arp_Resolve k 0 q [] st1 = (r2, del, st2)" by (metis prod.exhaust)
  with arp_tcp.timer_entries_to [OF ok, of k 0 "[]" st1] have del: "del = []" by simp
  have err: "err = r2"
    and st': "st' = (if r2 = None then upd_pcb k (\<lambda>p. p\<lparr>tp_retxQueue := tp_retxQueue (pcb_at st2 k)\<rparr>) st2 else st2)"
    using assms(3,4,6) a 1 t del by (cases r2; auto simp: timer_pcb_def removeRetx_def)+
  have len: "length (tcp_store st2) = length (tcp_store st)"
  proof -
    have "tcp_to k st st1" using tcp_to_queueAck [of k st] a by simp
    moreover have "tcp_to k st1 st2" using arp_tcp.timer_entries_to [OF ok, of k 0 "[]" st1] t by simp
    ultimately have "tcp_to k st st2" by (rule tcp_to_trans)
    then show ?thesis using assms(1,2) by (auto simp: tcp_to_def tcp_frame_def tcp_ok_def)
  qed
  show ?thesis
  proof (cases "r2 = None \<and> (\<exists>e \<in> set q. re_first e + tp_timeout p < now st)")
    case True
    with arp_tcp.timer_entries_timeout [of k st1 q 0 "[]"] ok 1 t assms(2)
    show ?thesis using len by (simp add: st' err tcp_Status_def)
  next
    case False
    have "tcp_store st2 = tcp_store st1"
    proof (cases r2)
      case None
      with False arp_tcp.timer_entries_quiet [of q st1 k 0 "[]"] ok 1 t show ?thesis by simp
    next
      case (Some e)
      with arp_tcp.timer_entries_stopped [of q k 0 "[]" st1] ok t show ?thesis by simp
    qed
    then have "pcb_at st' k = p\<lparr>tp_retxQueue := q\<rparr>" using 1 len assms(2) by (simp add: st')
    with False ok show ?thesis by (auto simp: err)
  qed
qed

text \<open>\<open>SEND\<close> with more data than the peer's window reports the error and sends the data all the same,
  since no return follows the report: the data join the retransmission queue and \<open>SND.NXT\<close> moves
  beyond the window.\<close>

theorem tcp_Send_beyond_window:
  assumes "k < length (tcp_store st)" "p = pcb_at st k" "tp_state p = StEstablished"
    and "unat (snd_wnd p) < length data"
    and "fst (TxHelperTCP arp_Resolve k ACK data triggerSend (Some ch)
           (chan_send ch (Some (Err ''insufficient resources'')) st)) = None"
    and "st' = tcp_Send arp_Resolve wait k ch data st"
  shows "tcp_log st' = tcp_log st @ [(ch, Some (Err ''insufficient resources''))] \<and>
    snd_nxt (pcb_at st' k) = snd_nxt p + of_nat (length data) \<and>
    tp_retxQueue (pcb_at st' k) = tp_retxQueue p @ [helper_entry p (now st) ACK data triggerSend (Some ch)]"
proof -
  define u where "u = chan_send ch (Some (Err ''insufficient resources'')) st"
  have u: "tcp_store u = tcp_store st" "now u = now st" "tcp_log u = tcp_log st @ [(ch, Some (Err ''insufficient resources''))]"
    by (simp_all add: u_def)
  have d: "data \<noteq> []" using assms(4) by auto
  obtain st2 where tx: "TxHelperTCP arp_Resolve k ACK data triggerSend (Some ch) u = (None, st2)"
    using assms(5) unfolding u_def by (metis prod.collapse)
  have "pcb_at st2 k = p\<lparr>tp_retxQueue := tp_retxQueue p @ [helper_entry p (now st) ACK data triggerSend (Some ch)]\<rparr>"
    using arp_tcp.TxHelper_pcb [of k u ACK data triggerSend "Some ch"] tx d u assms(1,2) by simp
  moreover have "length (tcp_store st2) = length (tcp_store st)" "tcp_log st2 = tcp_log u"
    using arp_tcp.TxHelper_fields(1,3) [of k ACK data triggerSend "Some ch" u] tx u by simp_all
  moreover have "st' = upd_pcb k (\<lambda>p. p\<lparr>snd_nxt := snd_nxt p + of_nat (length data)\<rparr>) st2"
    using assms(2-4,6) tx by (simp add: tcp_Send_def u_def [symmetric] numeral_3_eq_3)
  ultimately show ?thesis using assms(1) u by simp
qed

text \<open>A segment whose data offset is below five words crashes the stack: the length of its options is
  computed in eight bits as \<open>hdrLen - 20\<close>, which wraps around to at least 236, and the slice of a
  shorter payload from there panics in the goroutine that handles IP.\<close>

theorem tcp_Rx_short_offset_panics:
  assumes "tcp_data2header (slice_bytes st sl) src dst = Inr (hdr, payload)"
    and "k \<in> set (tcp_pcbs st)" "tp_local (pcb_at st k) = \<lparr>ep_addr = dst, ep_port = th_dst hdr\<rparr>"
    and "unat (th_offset hdr) < 80" "length payload < 236"
  shows "tcp_RxHandler resolve iss sl src dst i st = (Some Panic, st)"
proof -
  define hdrLen :: u8 where "hdrLen = push_bit 2 (drop_bit 4 (th_offset hdr))"
  have "unat (drop_bit 4 (th_offset hdr)) = unat (th_offset hdr) div 16"
    unfolding unat_drop_bit_eq by (simp add: drop_bit_eq_div)
  moreover have "unat hdrLen = 4 * unat (drop_bit 4 (th_offset hdr)) mod 256"
    unfolding hdrLen_def unsigned_push_bit_eq by (simp add: push_bit_eq_mult take_bit_eq_mod mult.commute)
  ultimately have lt: "unat hdrLen < 20" using assms(4) by simp
  have "unat (hdrLen - of_nat TcpHeaderSizeMin) = unat hdrLen + 256 - 20"
    using lt by (simp add: TcpHeaderSizeMin_def unat_sub_if')
  then have skip: "length payload < unat (hdrLen - of_nat TcpHeaderSizeMin)" using assms(5) by simp
  have "tcp_select \<lparr>ep_addr = dst, ep_port = th_dst hdr\<rparr> st \<noteq> None"
    using assms(2,3) by (auto simp: tcp_select_None)
  then show ?thesis
    using skip by (auto simp: tcp_RxHandler_def assms(1) tcp_select_def Let_def hdrLen_def)
qed

definition retx_demo :: "int \<Rightarrow> tcp_state" where
  "retx_demo t = tcp_demo\<lparr>now := t, tcp_store := [pcb_zero\<lparr>tp_state := StEstablished, snd_una := 6, tp_timeout := 100,
     tp_retxQueue := [helper_entry (pcb_zero\<lparr>snd_nxt := 5\<rparr>) 0 ACK [1, 2] triggerSend (Some 3),
                      helper_entry (pcb_zero\<lparr>snd_nxt := 7\<rparr>) 0 ACK [3] triggerSend (Some 4)]\<rparr>]\<rparr>"

lemma retx_demo_pcb:
  "tcp_store (retx_demo t) = [pcb_zero\<lparr>tp_state := StEstablished, snd_una := 6, tp_timeout := 100,
     tp_retxQueue := [helper_entry (pcb_zero\<lparr>snd_nxt := 5\<rparr>) 0 ACK [1, 2] triggerSend (Some 3),
                      helper_entry (pcb_zero\<lparr>snd_nxt := 7\<rparr>) 0 ACK [3] triggerSend (Some 4)]\<rparr>]"
  "tcp_log (retx_demo t) = []" "now (retx_demo t) = t" "tcp_pcbs (retx_demo t) = [0]"
  by (simp_all add: retx_demo_def tcp_demo_def)

lemma retx_demo_ok: "tcp_ok (retx_demo t)"
  by (simp add: tcp_ok_def retx_demo_pcb pcb_ok_def pcb_zero_def tcpBufferSize_def entry_ok_def helper_entry_def)

theorem tcp_queueAck_exact_witness:
  "tcp_log (snd (queueAck 0 (retx_demo 7))) = [(3, None)] \<and>
   map re_data (tp_retxQueue (pcb_at (snd (queueAck 0 (retx_demo 7))) 0)) = [[3]]"
proof -
  obtain r st' where q: "(r, st') = queueAck 0 (retx_demo 7)" by (metis surj_pair)
  from tcp_queueAck_exact [OF _ refl q] show ?thesis
    by (simp add: q [symmetric] retx_demo_pcb helper_entry_def flag_ack)
qed

theorem tcp_timer_round_witness:
  "tcp_Status 0 (snd (timer_pcb arp_Resolve 0 (retx_demo 101))) = StClosed \<and>
   map re_retxCount (tp_retxQueue (pcb_at (snd (timer_pcb arp_Resolve 0 (retx_demo 99))) 0)) = [0]"
proof -
  obtain r1 s1 r2 s2 where t: "(r1, s1) = timer_pcb arp_Resolve 0 (retx_demo 101)"
    "(r2, s2) = timer_pcb arp_Resolve 0 (retx_demo 99)" by (metis prod.collapse)
  have "fst (timer_pcb arp_Resolve 0 (retx_demo 101)) = None"
    using queueAck_eq [of 0 "retx_demo 101"]
    by (auto simp: timer_pcb_def retx_demo_pcb helper_entry_def flag_ack removeRetx_def signalErr_eq pcb_zero_def)
  then have "r1 = None" by (simp add: t(1) [symmetric])
  then show ?thesis
    using tcp_timer_round [OF retx_demo_ok _ refl _ refl t(1)] tcp_timer_round [OF retx_demo_ok _ refl _ refl t(2)]
    by (simp add: t [symmetric] retx_demo_pcb helper_entry_def flag_ack)
qed

theorem tcp_Send_beyond_window_witness:
  "tcp_log (tcp_Send arp_Resolve id 0 9 [1, 2] (stream_demo [] [])) = [(9, Some (Err ''insufficient resources''))]"
proof -
  let ?st = "stream_demo [] []"
  have fst: "fst (TxHelperTCP arp_Resolve 0 ACK [1, 2] triggerSend (Some 9)
      (chan_send 9 (Some (Err ''insufficient resources'')) ?st)) = None"
    by (rule tcp_demo_helper)
       (simp_all add: stream_demo_def chan_send_def pcb_zero_def endpoint_zero_def AddrAny_def AddrBroadcast_def)
  have "tcp_log ?st = []" by (simp add: stream_demo_def tcp_demo_def)
  with tcp_Send_beyond_window [OF _ refl _ _ fst refl, of id] show ?thesis
    by (simp add: stream_demo_fields pcb_zero_def)
qed

theorem tcp_Rx_short_offset_panics_witness:
  "fst (tcp_RxHandler arp_Resolve 55 (Heap (snd (tcp_header2data (demo_syn\<lparr>th_offset := 0\<rparr>) [] 8 7))) 8 7 0 tcp_demo) =
     Some Panic"
proof -
  let ?h = "demo_syn\<lparr>th_offset := 0\<rparr>"
  have "tcp_data2header (slice_bytes tcp_demo (Heap (snd (tcp_header2data ?h [] 8 7)))) 8 7 =
      Inr (fst (tcp_header2data ?h [] 8 7), [])"
    using tcp_codec.reads_back [of ?h "[]"] by (simp add: tcp_sendable_def demo_syn_def)
  from tcp_Rx_short_offset_panics [OF this, of 0] show ?thesis
    by (simp add: tcp_demo_def pcb_zero_def tcp_header2data_def demo_syn_def Let_def)
qed

end
