(* ===== verification/Handshake.thy ===== *)
theory Handshake
  imports Flows TcpTimer
begin

text \<open>
  TCP through the layers of a stack that was set up: a frame with a segment reaches its connection, and a
  connection is opened by two frames from the tap device.
\<close>

section \<open>A connection through the layers\<close>

text \<open>A frame that carries a segment, with a header of twenty bytes, in a packet; what the connection is
  handed of it.\<close>

definition tcp_frame :: "ether_addr \<Rightarrow> ether_addr \<Rightarrow> ip_header \<Rightarrow> tcp_header \<Rightarrow> bytes \<Rightarrow> bytes" where
  "tcp_frame s d iph h p = packet_frame s d iph (snd (tcp_header2data h p (ih_src iph) (ih_dst iph)))"

definition segment_of :: "tcp_header \<Rightarrow> bytes \<Rightarrow> segment" where
  "segment_of h p = \<lparr>sg_seq = th_seq h, sg_ack = th_ack h,
     sg_len = (if isSet (th_flag h) (SYN OR FIN) then of_nat (length p) + 1 else of_nat (length p)),
     sg_wnd = th_window h, sg_up = th_urgent h\<rparr>"

definition plain_segment :: "ip_header \<Rightarrow> tcp_header \<Rightarrow> bytes \<Rightarrow> bool" where
  "plain_segment iph h p \<longleftrightarrow> ip_sendable iph (snd (tcp_header2data h p (ih_src iph) (ih_dst iph))) \<and>
     ih_flags iph = 0 \<and> ih_proto iph = ProtoTCP \<and> tcp_sendable h p \<and> th_offset h = 0x50"

lemma tcp_Rx_segment:
  assumes "slice_bytes st sl = snd (tcp_header2data h p src dst)" "tcp_sendable h p" "th_offset h = 0x50"
    and "tcp_select \<lparr>ep_addr = dst, ep_port = th_dst h\<rparr> st = Some k"
  shows "tcp_RxHandler resolve iss sl src dst i st = segmentArrives resolve iss k (segment_of h p) (th_flag h) p
    (of_nat (length p)) \<lparr>ep_addr = src, ep_port = th_src h\<rparr> st"
proof -
  note rd = tcp_codec.reads_back [OF assms(2), of src dst]
  have f: "fst (tcp_header2data h p src dst) = h\<lparr>th_checksum := th_checksum (fst (tcp_header2data h p src dst))\<rparr>"
    by (simp add: tcp_header2data_def Let_def)
  obtain c where rd: "tcp_data2header (slice_bytes st sl) src dst = Inr (h\<lparr>th_checksum := c\<rparr>, p)"
    using rd f unfolding assms(1) by metis
  have len: "length (slice_bytes st sl) = 20 + length p" unfolding assms(1) by (rule length_tcp_sent)
  show ?thesis
    using assms(3,4)
    by (simp add: tcp_RxHandler_def rd len tcp_select_def Let_def TcpHeaderSizeMin_def segment_of_def)
qed

lemma tap_turns_segment:
  assumes "stack_ok (stack_ready name file hwaddr) st" "devices st ! 2 = Ether e" "protoBuffers st ! 0 = []"
    and "length p \<le> 1460" and plain: "plain_segment iph h p"
    and sel: "tcp_select \<lparr>ep_addr = ih_dst iph, ep_port = th_dst h\<rparr> st = Some k"
  obtains buf st' where "st' = st\<lparr>devices := (devices st)[2 := Ether (e\<lparr>e_rxbuf := buf\<rparr>)]\<rparr>"
    "stack_ok (stack_ready name file hwaddr) st'"
    "tap_turns iss (tcp_frame s (e_addr e) iph h p) st = snd (segmentArrives arp_Resolve iss k (segment_of h p) (th_flag h) p
    (of_nat (length p)) \<lparr>ep_addr = ih_src iph, ep_port = th_src h\<rparr> st')"
proof -
  note plain = plain [unfolded plain_segment_def]
  obtain buf sl st' where st': "st' = st\<lparr>devices := (devices st)[2 := Ether (e\<lparr>e_rxbuf := buf\<rparr>)]\<rparr>"
    and ok: "stack_ok (stack_ready name file hwaddr) st'"
    and sl: "slice_bytes st' sl = snd (tcp_header2data h p (ih_src iph) (ih_dst iph))"
    and sl_at: "sl = RxBuf 2 34 (length (snd (tcp_header2data h p (ih_src iph) (ih_dst iph))))"
    and turn: "tap_turns iss (tcp_frame s (e_addr e) iph h p) st = snd (stack_rx iss TcpProto sl (ih_src iph) (ih_dst iph) 1 st')"
    unfolding tcp_frame_def
    by (rule tap_turns_packet [OF assms(1-3), of "snd (tcp_header2data h p (ih_src iph) (ih_dst iph))" iph TcpProto iss s])
       (use plain assms(4) in \<open>simp_all add: length_tcp_sent\<close>)
  have "tcp_select \<lparr>ep_addr = ih_dst iph, ep_port = th_dst h\<rparr> st' = Some k"
    using sel by (simp add: st' tcp_select_def)
  from tcp_Rx_segment [OF sl _ _ this] plain show ?thesis
    by (intro that [OF st' ok]) (simp add: turn stack_rx_def)
qed

lemma tcp_Tx_gateway:
  assumes "ip_kept (stack_ready name file hwaddr) st" "devices st ! 2 = Ether e"
    and "\<not> f_closed (e_file e)" "\<not> f_fails (e_file e)"
    and "arp_view st 0xc0000201 = Some gw" "length payload \<le> 1460" "ep_addr src = 0xc0000202"
  shows "tcp_TxHandler arp_Resolve src dst payload seq ack flag wnd up st =
    (None, st\<lparr>ip_id := ip_id st + 1, devices := (devices st)[2 := Ether (e\<lparr>e_file := (e_file e)\<lparr>f_out := f_out (e_file e) @
       [ether_header2data \<lparr>eh_src = e_addr e, eh_dst = gw, eh_type = ProtoTypeIP\<rparr>
         (gateway_packet ProtoTCP (snd (tcp_header2data \<lparr>th_src = ep_port src, th_dst = ep_port dst, th_seq = seq, th_ack = ack,
            th_offset = 0x50, th_flag = flag, th_window = wnd, th_checksum = 0, th_urgent = up\<rparr> payload
            (ep_addr src) (ep_addr dst))) (ep_addr dst) (ip_id st + 1))]\<rparr>\<rparr>)]\<rparr>)"
  using assms(6,7)
  by (simp add: tcp_TxHandler_def Let_def case_prod_beta TcpHeaderSizeMin_def PayloadSizeMax_def HeaderSizeMin_def length_tcp_sent
      sends_to_gateway [OF assms(1-5)])

text \<open>What a listening connection does with a SYN that carries no data.\<close>

lemma syn_answered:
  assumes "ip_kept (stack_ready name file hwaddr) st" "devices st ! 2 = Ether e"
    and "\<not> f_closed (e_file e)" "\<not> f_fails (e_file e)" "arp_view st 0xc0000201 = Some gw"
    and "k < length (tcp_store st)" "tp_state (pcb_at st k) = StListen" "ep_addr (tp_local (pcb_at st k)) = 0xc0000202"
    and "st' = snd (segmentArrives arp_Resolve iss k seg SYN [] 0 foreign st)"
  shows "devices st' = (devices st)[2 := Ether (e\<lparr>e_file := (e_file e)\<lparr>f_out := f_out (e_file e) @
       [ether_header2data \<lparr>eh_src = e_addr e, eh_dst = gw, eh_type = ProtoTypeIP\<rparr>
         (gateway_packet ProtoTCP (snd (tcp_header2data \<lparr>th_src = ep_port (tp_local (pcb_at st k)), th_dst = ep_port foreign,
            th_seq = iss, th_ack = sg_seq seg + 1, th_offset = 0x50, th_flag = SYN OR ACK, th_window = 65535,
            th_checksum = 0, th_urgent = rcv_up (pcb_at st k)\<rparr> [] 0xc0000202 (ep_addr foreign)))
            (ep_addr foreign) (ip_id st + 1))]\<rparr>\<rparr>)] \<and>
    protoBuffers st' = protoBuffers st \<and> tcp_pcbs st' = tcp_pcbs st"
proof -
  define u where "u = upd_pcb k (\<lambda>p. p\<lparr>tp_rxQueue := copy_at (unat (tp_rxLen p)) [] (tp_rxQueue p),
                     tp_rxLen := tp_rxLen p + ucast (0 :: u32)\<rparr>)
      (tcp_transition k StSYNReceived (upd_pcb k (\<lambda>p. p\<lparr>tp_foreign := foreign, rcv_wnd := of_nat tcpBufferSize,
                     rcv_nxt := sg_seq seg + 1, tp_irs := sg_seq seg, tp_iss := iss,
                     snd_nxt := iss + 1, snd_una := iss\<rparr>) st))"
  have st': "st' = snd (TxHelperTCP arp_Resolve k (SYN OR ACK) [] 0 None u)"
    using assms(7) by (simp add: assms(9) segmentArrives_def seg_listen_def syn_flags u_def Let_def del: upd_pcb_upd)
  obtain store where s: "u = st\<lparr>tcp_store := store\<rparr>" by (simp add: u_def upd_pcb_def tcp_transition_def)
  have p: "ep_port (tp_local (pcb_at u k)) = ep_port (tp_local (pcb_at st k))" "ep_addr (tp_local (pcb_at u k)) = 0xc0000202"
    "tp_foreign (pcb_at u k) = foreign" "tp_iss (pcb_at u k) = iss" "rcv_nxt (pcb_at u k) = sg_seq seg + 1"
    "rcv_wnd (pcb_at u k) = 65535" "rcv_up (pcb_at u k) = rcv_up (pcb_at st k)"
    using assms(6,8) by (simp_all add: u_def tcpBufferSize_def)
  have k: "ip_kept (stack_ready name file hwaddr) u"
    unfolding s by (rule ip_kept_trans [OF assms(1)]) (simp add: ip_kept_def net_kept_def list.rel_refl)
  have v: "arp_view u 0xc0000201 = Some gw" using assms(5) arp_view_cong [of u st] by (simp add: s)
  have d: "devices u ! 2 = Ether e" using assms(2) by (simp add: s)
  show ?thesis
    unfolding st' TxHelperTCP_def Let_def
    by (simp add: syn_flags p tcp_Tx_gateway [OF k d assms(3,4) v] queueAdd_def upd_pcb_def) (simp add: s)
qed


text \<open>C5. A connection is established through all the layers: a frame with a SYN for a listening
  connection is answered by one frame for the gateway with SYN and ACK, the initial number and the
  number after the SYN's, and a frame with the acknowledgement of it then opens the connection, fit to
  receive \<open>n\<close> bytes, unless the initial number was the last one.\<close>

theorem handshake_through_layers:
  assumes "stack_ok (stack_ready name file hwaddr) st" "devices st ! 2 = Ether e" "protoBuffers st ! 0 = []"
    and "\<not> f_closed (e_file e)" "\<not> f_fails (e_file e)" "arp_view st 0xc0000201 = Some gw"
    and "tcp_select \<lparr>ep_addr = 0xc0000202, ep_port = port\<rparr> st = Some k" "tp_state (pcb_at st k) = StListen"
    and "tp_rxLen (pcb_at st k) = 0" "tp_rcvCmd (pcb_at st k) = rcv_cmd_zero"
    and "plain_segment iph syn []" "th_flag syn = SYN" "th_dst syn = port" "ih_dst iph = 0xc0000202"
    and "plain_segment iph2 ack []" "th_flag ack = ACK" "th_dst ack = port" "ih_dst iph2 = 0xc0000202"
    and "th_seq ack = th_seq syn + 1" "th_ack ack = iss + 1" "unat (th_seq syn) + 1 + n + 65535 < 2 ^ 32"
    and "st1 = tap_turns iss (tcp_frame s (e_addr e) iph syn []) st"
    and "st2 = tap_turns iss' (tcp_frame s (e_addr e) iph2 ack []) st1"
  shows "tcp_Status k st1 = StSYNReceived \<and> tp_foreign (pcb_at st1 k) = \<lparr>ep_addr = ih_src iph, ep_port = th_src syn\<rparr> \<and>
    tap_frames st1 = tap_frames st @ [ether_header2data \<lparr>eh_src = e_addr e, eh_dst = gw, eh_type = ProtoTypeIP\<rparr>
      (gateway_packet ProtoTCP (snd (tcp_header2data \<lparr>th_src = port, th_dst = th_src syn, th_seq = iss,
         th_ack = th_seq syn + 1, th_offset = 0x50, th_flag = SYN OR ACK, th_window = 65535, th_checksum = 0,
         th_urgent = rcv_up (pcb_at st k)\<rparr> [] 0xc0000202 (ih_src iph))) (ih_src iph) (ip_id st + 1))] \<and>
    (if iss = 0xffffffff then tcp_Status k st2 = StSYNReceived else receiving n (pcb_at st2 k))"
proof -
  have kept: "ip_kept (stack_ready name file hwaddr) st" using assms(1) by (simp add: stack_ok_def grounded_def)
  have n: "2 < length (devices st)" using stack_ready_kept(4,5) [OF kept] by simp
  have tcp: "tcp_ok st" using assms(1) by (simp add: stack_ok_def)
  have k: "k < length (tcp_store st)" "tp_local (pcb_at st k) = \<lparr>ep_addr = 0xc0000202, ep_port = port\<rparr>"
    using tcp_select_Some [OF assms(7)] tcp by (auto simp: tcp_ok_def)
  have rxq: "length (tp_rxQueue (pcb_at st k)) = tcpBufferSize"
    using tcp k(1) by (auto simp: tcp_ok_def pcb_ok_def)
  let ?f = "\<lparr>ep_addr = ih_src iph, ep_port = th_src syn\<rparr>"
  obtain buf s0 where s0_def: "s0 = st\<lparr>devices := (devices st)[2 := Ether (e\<lparr>e_rxbuf := buf\<rparr>)]\<rparr>"
    and ok0: "stack_ok (stack_ready name file hwaddr) s0"
    and 1: "st1 = snd (segmentArrives arp_Resolve iss k (segment_of syn []) SYN [] 0 ?f s0)"
    by (rule tap_turns_segment [OF assms(1-3) _ assms(11), of k iss s]) (use assms(7,12-14,22) in auto)
  have s0: "k < length (tcp_store s0)" "pcb_at s0 k = pcb_at st k" "devices s0 ! 2 = Ether (e\<lparr>e_rxbuf := buf\<rparr>)"
    "ip_kept (stack_ready name file hwaddr) s0" "arp_view s0 0xc0000201 = Some gw" "ip_id s0 = ip_id st"
    using n k(1) ok0 assms(6) arp_view_cong [of s0 st] by (simp_all add: s0_def stack_ok_def grounded_def)
  have l: "st1 = snd (seg_listen arp_Resolve iss k (segment_of syn []) SYN [] 0 ?f s0)"
    using 1 s0(2) assms(8) by (simp add: segmentArrives_def)
  have st1: "devices st1 = (devices s0)[2 := Ether (e\<lparr>e_rxbuf := buf, e_file := (e_file e)\<lparr>f_out := f_out (e_file e) @
       [ether_header2data \<lparr>eh_src = e_addr e, eh_dst = gw, eh_type = ProtoTypeIP\<rparr>
         (gateway_packet ProtoTCP (snd (tcp_header2data \<lparr>th_src = port, th_dst = th_src syn,
            th_seq = iss, th_ack = th_seq syn + 1, th_offset = 0x50, th_flag = SYN OR ACK, th_window = 65535,
            th_checksum = 0, th_urgent = rcv_up (pcb_at st k)\<rparr> [] 0xc0000202 (ih_src iph)))
            (ih_src iph) (ip_id st + 1))]\<rparr>\<rparr>)]"
    "protoBuffers st1 = protoBuffers st" "tcp_pcbs st1 = tcp_pcbs st"
    using syn_answered [OF s0(4,3) _ _ s0(5,1), of st1 iss "segment_of syn []" ?f] 1 s0(2,6) assms(4,5,8) k(2)
    by (simp_all add: segment_of_def s0_def)
  note listen = arp_tcp.seg_listen_syn [OF s0(1) refl l]
  let ?q = "pcb_at st1 k"
  have q: "tp_state ?q = StSYNReceived" "tp_foreign ?q = ?f" "rcv_wnd ?q = 65535" "rcv_nxt ?q = th_seq syn + 1"
    "snd_nxt ?q = iss + 1" "snd_una ?q = iss" "tp_rxLen ?q = 0" "tp_rxQueue ?q = tp_rxQueue (pcb_at st k)"
    "tp_rcvCmd ?q = rcv_cmd_zero" "tp_local ?q = \<lparr>ep_addr = 0xc0000202, ep_port = port\<rparr>"
    using tcp_core_fields [of ?q, OF listen [THEN conjunct2, THEN conjunct1]] listen assms(9,10) s0(2) k(2)
    by (simp_all add: tcpBufferSize_def segment_of_def)
  have ok1: "stack_ok (stack_ready name file hwaddr) st1" unfolding assms(22) by (rule tap_turns_ok [OF assms(1)])
  have sel1: "tcp_select \<lparr>ep_addr = 0xc0000202, ep_port = port\<rparr> st1 = Some k"
    by (rule tcp_select_unique [OF _ _ q(10)])
       (use ok1 tcp_select_Some [OF assms(7)] in \<open>simp_all add: stack_ok_def st1 s0_def\<close>)
  obtain e1 where e1: "devices st1 ! 2 = Ether e1" "e_addr e1 = e_addr e"
    using n by (simp add: st1 s0_def)
  have b1: "protoBuffers st1 ! 0 = []" using assms(3) by (simp add: st1 s0_def)
  obtain buf2 s1 where s1: "s1 = st1\<lparr>devices := (devices st1)[2 := Ether (e1\<lparr>e_rxbuf := buf2\<rparr>)]\<rparr>"
    and 2: "st2 = snd (segmentArrives arp_Resolve iss' k (segment_of ack []) ACK [] 0
      \<lparr>ep_addr = ih_src iph2, ep_port = th_src ack\<rparr> s1)"
    by (rule tap_turns_segment [OF ok1 e1(1) b1 _ assms(15), of k iss' s])
       (use sel1 assms(16-18,23) e1(2) in auto)
  have "unat (rcv_nxt ?q) = unat (th_seq syn) + 1"
    unfolding q(4) using assms(21) by (subst unat_add_lem [THEN iffD1]) simp_all
  then have "if iss = 0xffffffff then tcp_Status k st2 = StSYNReceived else receiving n (pcb_at st2 k)"
    using syn_received_acked [OF _ refl _ _ _ _ _ _ _ _ _ _ 2, of iss n] s1 listen q assms(19-21) rxq
    by (simp add: segment_of_def)
  moreover have "tap_frames st1 = tap_frames st @ [ether_header2data \<lparr>eh_src = e_addr e, eh_dst = gw, eh_type = ProtoTypeIP\<rparr>
      (gateway_packet ProtoTCP (snd (tcp_header2data \<lparr>th_src = port, th_dst = th_src syn, th_seq = iss,
         th_ack = th_seq syn + 1, th_offset = 0x50, th_flag = SYN OR ACK, th_window = 65535, th_checksum = 0,
         th_urgent = rcv_up (pcb_at st k)\<rparr> [] 0xc0000202 (ih_src iph))) (ih_src iph) (ip_id st + 1))]"
    using assms(2) n by (simp add: tap_frames_def st1 s0_def)
  ultimately show ?thesis using q(1,2) by (simp add: tcp_Status_def)
qed

section \<open>Witness\<close>

text \<open>A stack that knows the gateway, with a connection that listens on port 80; a SYN for it and the
  acknowledgement of the answer.\<close>

definition listen_stack :: stack_state where
  "listen_stack = ping_stack\<lparr>tcp_store := [pcb_zero\<lparr>tp_local := \<lparr>ep_addr = 0xc0000202, ep_port = 80\<rparr>\<rparr>], tcp_pcbs := [0]\<rparr>"

lemma grounded_tcp_table: "grounded st0 (st\<lparr>tcp_store := store, tcp_pcbs := pcbs\<rparr>) = grounded st0 st"
  for st :: "'a tcp_state_scheme"
  by (simp add: grounded_def ip_kept_def net_kept_def layers_ok_def net_ok_def dev_ok_def ip_protos_ok_def
      routes_ok_def arp_ok_def udp_ok_def)

lemma listen_stack_ok: "stack_ok (stack_ready ''tap0'' demo_tap [2, 0, 0, 0, 0, 1]) listen_stack"
proof -
  have "grounded (stack_ready ''tap0'' demo_tap [2, 0, 0, 0, 0, 1]) listen_stack"
    using ping_stack_ok by (simp add: stack_ok_def listen_stack_def grounded_tcp_table)
  moreover have "tcp_ok listen_stack"
    by (simp add: listen_stack_def tcp_ok_def pcb_ok_def pcb_zero_def)
  ultimately show ?thesis by (simp add: stack_ok_def)
qed

lemma listen_stack_simps:
  "devices listen_stack ! 2 = Ether (tap_dev ''tap0'' demo_tap [2, 0, 0, 0, 0, 1])" "protoBuffers listen_stack ! 0 = []"
  "arp_view listen_stack 0xc0000201 = Some (EtherAddr 2 0 0 0 0 9)" "pcb_at listen_stack 0 =
    pcb_zero\<lparr>tp_local := \<lparr>ep_addr = 0xc0000202, ep_port = 80\<rparr>\<rparr>"
  "tcp_select \<lparr>ep_addr = 0xc0000202, ep_port = 80\<rparr> listen_stack = Some 0"
  using ping_stack_simps arp_view_cong [of listen_stack ping_stack] by (simp_all add: listen_stack_def tcp_select_def)

definition demo_packet :: ip_header where
  "demo_packet = ping_ip\<lparr>ih_tol := 40, ih_proto := ProtoTCP\<rparr>"

definition demo_segment :: "u32 \<Rightarrow> u32 \<Rightarrow> u8 \<Rightarrow> tcp_header" where
  "demo_segment seq ack flag = \<lparr>th_src = 4000, th_dst = 80, th_seq = seq, th_ack = ack, th_offset = 0x50, th_flag = flag,
     th_window = 1000, th_checksum = 0, th_urgent = 0\<rparr>"

lemma demo_plain: "plain_segment demo_packet (demo_segment seq ack flag) []"
  by (simp add: plain_segment_def demo_packet_def ping_ip_def demo_segment_def ip_sendable_def tcp_sendable_def
      length_tcp_sent)

theorem handshake_through_layers_witness:
  "\<exists>st1 st2. st1 = tap_turns 7 (tcp_frame (EtherAddr 2 0 0 0 0 9) (EtherAddr 2 0 0 0 0 1) demo_packet (demo_segment 300 0 SYN) [])
      listen_stack \<and>
    st2 = tap_turns 0 (tcp_frame (EtherAddr 2 0 0 0 0 9) (EtherAddr 2 0 0 0 0 1) demo_packet (demo_segment 301 8 ACK) []) st1 \<and>
    tcp_Status 0 st1 = StSYNReceived \<and> length (tap_frames st1) = 1 \<and> tcp_Status 0 st2 = StEstablished"
proof -
  let ?e = "tap_dev ''tap0'' demo_tap [2, 0, 0, 0, 0, 1]"
  have a: "EtherAddr 2 0 0 0 0 1 = e_addr ?e" by (simp add: tap_dev_def bytes_to_ether_def get_ether_def eval_nat_numeral)
  have f: "\<not> f_closed (e_file ?e)" "\<not> f_fails (e_file ?e)" "tap_frames listen_stack = []"
    by (simp_all add: tap_dev_def demo_tap_def tap_frames_def listen_stack_simps)
  note w = handshake_through_layers [OF listen_stack_ok listen_stack_simps(1,2) f(1,2) listen_stack_simps(3,5) _ _ _
      demo_plain _ _ _ demo_plain _ _ _ _ _ _ refl refl, of 300 0 SYN 301 8 ACK 7 0 "EtherAddr 2 0 0 0 0 9" 0]
  show ?thesis
    unfolding a using w
    by (simp add: listen_stack_simps(4) demo_segment_def demo_packet_def ping_ip_def pcb_zero_def f(3) receiving_def
        tcp_Status_def)
qed

end
