(* ===== verification/Examples.thy ===== *)
theory Examples
  imports Handshake
begin

text \<open>
  Two programs that use the stack: the one that waits to be pinged (\<open>example/icmp\<close>) and the UDP echo server
  (\<open>example/udp\<close>). What the other goroutines do while \<open>main\<close> sleeps is an argument, as are the answers of the
  tap driver and of the creation of the log file.
\<close>

section \<open>The programs\<close>

text \<open>How \<open>main\<close> ends: errors are printed, a panic or a blocked send is not an error.\<close>

definition main_end :: "error option \<Rightarrow> error option" where
  "main_end err = (if stops err then err else None)"

definition icmp_main ::
    "error option \<Rightarrow> error + string \<times> dev_file \<Rightarrow> error + bytes \<Rightarrow> ('a stack_state_scheme \<Rightarrow> 'a stack_state_scheme) \<Rightarrow>
     'a stack_state_scheme \<Rightarrow> error option \<times> 'a stack_state_scheme" where
  "icmp_main created opened hwaddr sleep st =
     (case created of
        Some err \<Rightarrow> (None, st)
      | None \<Rightarrow>
          (case NetInit True opened hwaddr st of
             (Some err, st1) \<Rightarrow> (main_end (Some err), st1)
           | (None, st1) \<Rightarrow>
               (case NetShutdown (sleep (NetRun st1)) of (err, st2) \<Rightarrow> (main_end err, st2))))"

definition udp_srcAddr :: string where "udp_srcAddr = ''192.0.2.2:8080''"

text \<open>The error of \<open>Str2Endpoint\<close> is dropped; it comes with the zero endpoint.\<close>

definition udp_echo_open ::
    "error + string \<times> dev_file \<Rightarrow> error + bytes \<Rightarrow> 'a stack_state_scheme \<Rightarrow> (error + nat) \<times> 'a stack_state_scheme" where
  "udp_echo_open opened hwaddr st =
     (case NetInit True opened hwaddr st of
        (Some err, st1) \<Rightarrow> (Inl err, st1)
      | (None, st1) \<Rightarrow>
          (let src = (case Str2Endpoint udp_srcAddr of Inr e \<Rightarrow> e | Inl err \<Rightarrow> endpoint_zero);
               (soc, st2) = udp_Open (NetRun st1)
           in case udp_Bind soc src st2 of
                (Some err, st3) \<Rightarrow> (Inl err, st3)
              | (None, st3) \<Rightarrow> (Inr soc, st3)))"

text \<open>A round of the loop; what \<open>Send\<close> returns is dropped.\<close>

definition udp_echo_round :: "nat \<Rightarrow> 'a udp_state_scheme \<Rightarrow> (error option \<times> 'a udp_state_scheme) option" where
  "udp_echo_round soc st =
     (case udp_Listen False soc st of
        (Inl err, st1) \<Rightarrow> Some (main_end (Some err), st1)
      | (Inr (n, data, endpoint), st1) \<Rightarrow>
          if n > 0
          then (case udp_Send arp_Resolve soc (slice_bytes st1 data) endpoint st1 of
                  None \<Rightarrow> None
                | Some (err, st2) \<Rightarrow> Some (main_end err, st2))
          else Some (None, st1))"

text \<open>The loop sleeps between rounds, once for each element of the list, until the clock fires.\<close>

fun udp_echo_loop ::
    "nat \<Rightarrow> ('a udp_state_scheme \<Rightarrow> 'a udp_state_scheme) list \<Rightarrow> 'a udp_state_scheme \<Rightarrow>
     (error option \<times> 'a udp_state_scheme) option" where
  "udp_echo_loop soc [] st = udp_echo_round soc st"
| "udp_echo_loop soc (sleep # rest) st =
     (case udp_echo_round soc st of
        None \<Rightarrow> None
      | Some (Some err, st1) \<Rightarrow> Some (Some err, st1)
      | Some (None, st1) \<Rightarrow> udp_echo_loop soc rest (sleep st1))"

definition udp_main ::
    "error option \<Rightarrow> error + string \<times> dev_file \<Rightarrow> error + bytes \<Rightarrow> ('a stack_state_scheme \<Rightarrow> 'a stack_state_scheme) list \<Rightarrow>
     'a stack_state_scheme \<Rightarrow> (error option \<times> 'a stack_state_scheme) option" where
  "udp_main created opened hwaddr naps st =
     (case created of
        Some err \<Rightarrow> Some (None, st)
      | None \<Rightarrow>
          (case udp_echo_open opened hwaddr st of
             (Inl err, st1) \<Rightarrow> Some (main_end (Some err), st1)
           | (Inr soc, st1) \<Rightarrow>
               (case udp_echo_loop soc naps st1 of
                  None \<Rightarrow> None
                | Some (Some err, st2) \<Rightarrow> Some (Some err, st2)
                | Some (None, st2) \<Rightarrow>
                    (case NetShutdown (snd (udp_Close soc st2)) of (err, st3) \<Rightarrow> Some (main_end err, st3)))))"

section \<open>The echo\<close>

definition echo_endpoint :: endpoint where
  "echo_endpoint = \<lparr>ep_addr = 0xc0000202, ep_port = 8080\<rparr>"

lemma udp_srcAddr_read: "Str2Endpoint udp_srcAddr = Inr echo_endpoint"
  by (simp add: udp_srcAddr_def echo_endpoint_def Str2Endpoint_def Str2Addr_def Atoi_def unsigned_value_def is_digit_def)

lemma udp_echo_opened:
  "udp_echo_open (Inr (name, file)) (Inr hwaddr) stack_empty =
     (Inr 0, (NetRun (stack_ready name file hwaddr))\<lparr>
        udp_store := [\<lparr>up_state = UdpOpen, up_local = echo_endpoint, up_rxQueue = []\<rparr>], udp_pcbs := [0]\<rparr>)"
proof -
  have e: "udp_store (NetRun (stack_ready name file hwaddr)) = []" "udp_pcbs (NetRun (stack_ready name file hwaddr)) = []"
    by (simp_all add: NetRun_def net_Open_def stack_ready_def stack_empty_def)
  show ?thesis
    by (simp add: udp_echo_open_def setup_fresh udp_srcAddr_read udp_Open_def udp_Bind_def Let_def e
        endpoint_zero_def echo_endpoint_def AddrAny_def)
qed

text \<open>A datagram that is delivered to a socket with an empty queue is sent back by the next round.\<close>

lemma udp_echo_round_eq:
  assumes "soc < length (udp_store st)" "udp_store st ! soc = p\<lparr>up_rxQueue := [\<lparr>ub_foreign = peer, ub_data = sl\<rparr>]\<rparr>"
    and "slice_bytes st sl = data" "data \<noteq> []" "up_local p = echo_endpoint"
  shows "udp_echo_round soc st = Some (map_prod main_end id (udp_TxHandler arp_Resolve echo_endpoint peer data
    (st\<lparr>udp_store := (udp_store st)[soc := p\<lparr>up_rxQueue := []\<rparr>]\<rparr>)))"
proof -
  define st1 where "st1 = st\<lparr>udp_store := (udp_store st)[soc := p\<lparr>up_rxQueue := []\<rparr>]\<rparr>"
  have "udp_Listen False soc st = (Inr (length data, sl, peer), st1)"
    using assms(2,3) by (simp add: udp_Listen_def st1_def)
  moreover have "slice_bytes st1 sl = data"
    using assms(3) by (cases sl) (simp_all add: st1_def)
  moreover have "up_local (udp_store st1 ! soc) = echo_endpoint" using assms(1,5) by (simp add: st1_def)
  then have "udp_Send arp_Resolve soc data peer st1 = Some (udp_TxHandler arp_Resolve echo_endpoint peer data st1)"
    by (simp add: udp_Send_def echo_endpoint_def AddrAny_def)
  ultimately show ?thesis
    using assms(4) unfolding st1_def [symmetric]
    by (simp add: udp_echo_round_def map_prod_def case_prod_beta)
qed

lemma udp_Tx_gateway:
  assumes "ip_kept (stack_ready name file hwaddr) st" "devices st ! 2 = Ether e"
    and "\<not> f_closed (e_file e)" "\<not> f_fails (e_file e)"
    and "arp_view st 0xc0000201 = Some gw" "length data \<le> 1472" "ep_addr src = 0xc0000202"
  shows "udp_TxHandler arp_Resolve src dst data st =
    (None, st\<lparr>ip_id := ip_id st + 1, devices := (devices st)[2 := Ether (e\<lparr>e_file := (e_file e)\<lparr>f_out := f_out (e_file e) @
       [ether_header2data \<lparr>eh_src = e_addr e, eh_dst = gw, eh_type = ProtoTypeIP\<rparr>
         (gateway_packet ProtoUDP (snd (udp_header2data \<lparr>uh_src = ep_port src, uh_dst = ep_port dst,
            uh_len = of_nat (8 + length data), uh_checksum = 0\<rparr> data (ep_addr src) (ep_addr dst)))
            (ep_addr dst) (ip_id st + 1))]\<rparr>\<rparr>)]\<rparr>)"
proof -
  have "length (snd (udp_header2data \<lparr>uh_src = ep_port src, uh_dst = ep_port dst,
      uh_len = of_nat (8 + length data), uh_checksum = 0\<rparr> data (ep_addr src) (ep_addr dst))) \<le> 1480"
    using assms(6) by (simp add: length_udp_sent)
  from sends_to_gateway [OF assms(1-5) this] assms(6,7) show ?thesis
    by (simp add: udp_TxHandler_def Let_def case_prod_beta PayloadSizeMax_def HeaderSizeMin_def UdpHeaderSize_def)
qed

text \<open>A frame with a datagram for the echo server, and what its socket gets of it: a part of the device's
  buffer.\<close>

definition udp_frame :: "ether_addr \<Rightarrow> ether_addr \<Rightarrow> ip_header \<Rightarrow> udp_header \<Rightarrow> bytes \<Rightarrow> bytes" where
  "udp_frame s d iph h data = packet_frame s d iph (snd (udp_header2data h data (ih_src iph) (ih_dst iph)))"

definition echo_datagram :: "ip_header \<Rightarrow> udp_header \<Rightarrow> bytes \<Rightarrow> bool" where
  "echo_datagram iph h data \<longleftrightarrow> ip_sendable iph (snd (udp_header2data h data (ih_src iph) (ih_dst iph))) \<and>
     ih_flags iph = 0 \<and> ih_proto iph = ProtoUDP \<and> ih_dst iph = 0xc0000202 \<and>
     udp_sendable h data \<and> uh_dst h = 8080 \<and> length data \<le> 1472"

definition echo_entry :: "ip_header \<Rightarrow> udp_header \<Rightarrow> bytes \<Rightarrow> udp_buffer" where
  "echo_entry iph h data = \<lparr>ub_foreign = \<lparr>ep_addr = ih_src iph, ep_port = uh_src h\<rparr>, ub_data = RxBuf 2 42 (length data)\<rparr>"

lemma udp_frame_delivered:
  assumes "stack_ok (stack_ready name file hwaddr) st" "devices st ! 2 = Ether e" "protoBuffers st ! 0 = []"
    and "udp_pcbSelect 0xc0000202 8080 st = Some soc" "length (up_rxQueue (udp_store st ! soc)) < pcbBufSize"
    and "echo_datagram iph h data"
  obtains buf st' where "st' = st\<lparr>devices := (devices st)[2 := Ether (e\<lparr>e_rxbuf := buf\<rparr>)]\<rparr>"
    "stack_ok (stack_ready name file hwaddr) st'" "take (length data) (drop 42 buf) = data"
    "tap_turns iss (udp_frame s (e_addr e) iph h data) st = st'\<lparr>udp_store := (udp_store st')[soc := (udp_store st ! soc)
      \<lparr>up_rxQueue := up_rxQueue (udp_store st ! soc) @ [echo_entry iph h data]\<rparr>]\<rparr>"
proof -
  define dg where "dg = snd (udp_header2data h data (ih_src iph) 0xc0000202)"
  have d: "ip_sendable iph dg" "ih_flags iph = 0" "ih_proto iph = ProtoUDP" "ih_dst iph = 0xc0000202"
    "udp_sendable h data" "uh_dst h = 8080" "length dg \<le> 1480"
    using assms(6) by (auto simp: echo_datagram_def dg_def length_udp_sent)
  obtain buf sl st' where st': "st' = st\<lparr>devices := (devices st)[2 := Ether (e\<lparr>e_rxbuf := buf\<rparr>)]\<rparr>"
    and ok: "stack_ok (stack_ready name file hwaddr) st'" and sl: "slice_bytes st' sl = dg"
    and sl_at: "sl = RxBuf 2 34 (length dg)"
    and turn: "tap_turns iss (packet_frame s (e_addr e) iph dg) st =
      snd (stack_rx iss UdpProto sl (ih_src iph) (ih_dst iph) 1 st')"
    by (rule tap_turns_packet [OF assms(1-3), of dg iph UdpProto iss s]) (use d in simp_all)
  have rd: "udp_data2header dg (ih_src iph) 0xc0000202 = Inr (fst (udp_header2data h data (ih_src iph) 0xc0000202), data)"
    unfolding dg_def by (rule udp_codec.reads_back) (use d in simp)
  have hdr: "uh_dst (fst (udp_header2data h data (ih_src iph) 0xc0000202)) = 8080"
    "uh_src (fst (udp_header2data h data (ih_src iph) 0xc0000202)) = uh_src h"
    using d by (simp_all add: udp_header2data_def Let_def)
  have len: "slice_from UdpHeaderSize sl = RxBuf 2 42 (length data)"
    by (simp add: sl_at dg_def length_udp_sent UdpHeaderSize_def)
  have store: "udp_store st' = udp_store st" by (simp add: st')
  have "udp_pcbSelect 0xc0000202 8080 st' = Some soc" using assms(4) by (simp add: udp_pcbSelect_def st')
  then have "snd (stack_rx iss UdpProto sl (ih_src iph) (ih_dst iph) 1 st') = st'\<lparr>udp_store := (udp_store st')[soc :=
      (udp_store st ! soc)\<lparr>up_rxQueue := up_rxQueue (udp_store st ! soc) @ [echo_entry iph h data]\<rparr>]\<rparr>"
    using assms(5) d store by (simp add: stack_rx_def udp_RxHandler_def sl rd hdr len echo_entry_def Let_def)
  moreover have "take (length data) (drop 42 buf) = data"
  proof -
    have "2 < length (devices st)" using stack_ready_kept(4) [of _ _ _ st] assms(1) unfolding stack_ok_def grounded_def by force
    then have "take (8 + length data) (drop 34 buf) = dg"
      using sl by (simp add: sl_at st' dg_def length_udp_sent)
    then have "drop 8 (take (8 + length data) (drop 34 buf)) = data" by (simp add: dg_def udp_sent)
    then show ?thesis by (simp add: drop_take)
  qed
  ultimately show ?thesis
    using turn d by (intro that [OF st' ok]) (simp_all add: udp_frame_def dg_def)
qed

text \<open>C6. The UDP echo server answers through all the layers: a frame for the tap device with a datagram for its
  endpoint is queued on its socket by the turns of the device and of IP, and the next round of its loop
  sends one frame to the gateway, with the same data, for the port of the sender at its address.\<close>

theorem udp_echo_answered:
  assumes "stack_ok (stack_ready name file hwaddr) st" "devices st ! 2 = Ether e" "protoBuffers st ! 0 = []"
    and "\<not> f_closed (e_file e)" "\<not> f_fails (e_file e)" "arp_view st 0xc0000201 = Some gw"
    and "udp_pcbSelect 0xc0000202 8080 st = Some soc" "up_rxQueue (udp_store st ! soc) = []"
    and "echo_datagram iph h data" "data \<noteq> []"
    and "st1 = tap_turns iss (udp_frame s (e_addr e) iph h data) st"
  shows "\<exists>st2. udp_echo_round soc st1 = Some (None, st2) \<and> up_rxQueue (udp_store st2 ! soc) = [] \<and>
    tap_frames st2 = tap_frames st @ [ether_header2data \<lparr>eh_src = e_addr e, eh_dst = gw, eh_type = ProtoTypeIP\<rparr>
      (gateway_packet ProtoUDP (snd (udp_header2data \<lparr>uh_src = 8080, uh_dst = uh_src h, uh_len = of_nat (8 + length data),
         uh_checksum = 0\<rparr> data 0xc0000202 (ih_src iph))) (ih_src iph) (ip_id st + 1))]"
proof -
  have sock: "soc \<in> set (udp_pcbs st)" "up_local (udp_store st ! soc) = echo_endpoint"
    using udp_pcbSelect_Some [OF assms(7)] by (simp_all add: echo_endpoint_def)
  have k: "soc < length (udp_store st)"
    using sock(1) assms(1) by (simp add: stack_ok_def grounded_def layers_ok_def udp_ok_def)
  define p where "p = udp_store st ! soc"
  define peer where "peer = \<lparr>ep_addr = ih_src iph, ep_port = uh_src h\<rparr>"
  have q: "length (up_rxQueue (udp_store st ! soc)) < pcbBufSize" by (simp add: assms(8) pcbBufSize_def)
  obtain buf st' where st': "st' = st\<lparr>devices := (devices st)[2 := Ether (e\<lparr>e_rxbuf := buf\<rparr>)]\<rparr>"
    and ok: "stack_ok (stack_ready name file hwaddr) st'" and buf: "take (length data) (drop 42 buf) = data"
    and st1: "st1 = st'\<lparr>udp_store := (udp_store st')[soc := p\<lparr>up_rxQueue :=
      [\<lparr>ub_foreign = peer, ub_data = RxBuf 2 42 (length data)\<rparr>]\<rparr>]\<rparr>"
    by (rule udp_frame_delivered [OF assms(1-3,7) q assms(9), of iss s])
       (simp add: assms(8,11) p_def peer_def echo_entry_def)
  from ok have kept: "ip_kept (stack_ready name file hwaddr) st'" by (simp add: stack_ok_def grounded_def)
  have n: "2 < length (devices st)" using stack_ready_kept(4) [OF kept] by (simp add: st')
  have data: "slice_bytes st1 (RxBuf 2 42 (length data)) = data" using n buf by (simp add: st1 st')
  have k1: "soc < length (udp_store st1)" "udp_store st1 ! soc = p\<lparr>up_rxQueue :=
      [\<lparr>ub_foreign = peer, ub_data = RxBuf 2 42 (length data)\<rparr>]\<rparr>" "up_local p = echo_endpoint"
    using k sock(2) by (simp_all add: st1 st' p_def)
  have "p\<lparr>up_rxQueue := []\<rparr> = p" using assms(8) by (simp add: p_def)
  then have again: "st1\<lparr>udp_store := (udp_store st1)[soc := p\<lparr>up_rxQueue := []\<rparr>]\<rparr> = st'"
    by (simp add: st1 p_def) (simp add: st')
  have d: "devices st' ! 2 = Ether (e\<lparr>e_rxbuf := buf\<rparr>)" using n by (simp add: st')
  have view: "arp_view st' 0xc0000201 = Some gw" using assms(6) arp_view_cong [of st' st] by (simp add: st')
  have "length data \<le> 1472" using assms(9) by (simp add: echo_datagram_def)
  note turn = udp_echo_round_eq [OF k1(1,2) data assms(10) k1(3), unfolded again]
    udp_Tx_gateway [OF kept d _ _ view this, of echo_endpoint peer]
  show ?thesis
    using turn n assms(2,4,5,8)
    by (simp add: echo_endpoint_def peer_def main_end_def stops_iff tap_frames_def st' p_def)
qed

text \<open>C16. What waits on a socket is not safe from the next frame: when a second datagram, at least as long,
  arrives before the first was taken, the socket has both senders in order, but the data of the second
  under both, because what is queued are parts of the device's one buffer.\<close>

theorem udp_datagrams_overwritten:
  assumes "stack_ok (stack_ready name file hwaddr) st" "devices st ! 2 = Ether e" "protoBuffers st ! 0 = []"
    and "udp_pcbSelect 0xc0000202 8080 st = Some soc" "up_rxQueue (udp_store st ! soc) = []"
    and "echo_datagram iph h data" "echo_datagram iph2 h2 data2" "length data \<le> length data2"
    and "st2 = tap_turns iss2 (udp_frame s2 (e_addr e) iph2 h2 data2) (tap_turns iss (udp_frame s (e_addr e) iph h data) st)"
  shows "map (\<lambda>b. (ub_foreign b, slice_bytes st2 (ub_data b))) (up_rxQueue (udp_store st2 ! soc)) =
    [(\<lparr>ep_addr = ih_src iph, ep_port = uh_src h\<rparr>, take (length data) data2),
     (\<lparr>ep_addr = ih_src iph2, ep_port = uh_src h2\<rparr>, data2)]"
proof -
  have k: "soc < length (udp_store st)"
    using udp_pcbSelect_Some [OF assms(4)] assms(1) by (simp add: stack_ok_def grounded_def layers_ok_def udp_ok_def)
  have n: "2 < length (devices st)" using stack_ready_kept(4) [of _ _ _ st] assms(1) unfolding stack_ok_def grounded_def by force
  have q: "length (up_rxQueue (udp_store st ! soc)) < pcbBufSize" by (simp add: assms(5) pcbBufSize_def)
  define st1 where "st1 = tap_turns iss (udp_frame s (e_addr e) iph h data) st"
  have ok1: "stack_ok (stack_ready name file hwaddr) st1" unfolding st1_def by (rule tap_turns_ok [OF assms(1)])
  obtain buf where st1: "st1 = st\<lparr>devices := (devices st)[2 := Ether (e\<lparr>e_rxbuf := buf\<rparr>)],
      udp_store := (udp_store st)[soc := (udp_store st ! soc)\<lparr>up_rxQueue := [echo_entry iph h data]\<rparr>]\<rparr>"
    by (rule udp_frame_delivered [OF assms(1-4) q assms(6), of iss s]) (simp add: st1_def assms(5))
  define e1 where "e1 = e\<lparr>e_rxbuf := buf\<rparr>"
  have loc: "up_local ((udp_store st)[soc := (udp_store st ! soc)\<lparr>up_rxQueue := q\<rparr>] ! l) = up_local (udp_store st ! l)" for q l
    using k by (cases "l = soc") simp_all
  have s1: "devices st1 ! 2 = Ether e1" "e_addr e1 = e_addr e" "protoBuffers st1 ! 0 = []"
    "udp_pcbSelect 0xc0000202 8080 st1 = Some soc" "up_rxQueue (udp_store st1 ! soc) = [echo_entry iph h data]"
    using k n assms(3-5) by (simp_all add: st1 e1_def udp_pcbSelect_def loc)
  have q1: "length (up_rxQueue (udp_store st1 ! soc)) < pcbBufSize" by (simp add: s1(5) pcbBufSize_def)
  obtain buf2 where st2: "st2 = st1\<lparr>devices := (devices st1)[2 := Ether (e1\<lparr>e_rxbuf := buf2\<rparr>)],
      udp_store := (udp_store st1)[soc := (udp_store st1 ! soc)\<lparr>up_rxQueue := [echo_entry iph h data, echo_entry iph2 h2 data2]\<rparr>]\<rparr>"
    and buf2: "take (length data2) (drop 42 buf2) = data2"
    by (rule udp_frame_delivered [OF ok1 s1(1,3,4) q1 assms(7), of iss2 s2]) (simp add: assms(9) st1_def [symmetric] s1(2,5))
  have "take (length data) (drop 42 buf2) = take (length data) data2"
    using buf2 assms(8) by (metis min.absorb1 take_take)
  then show ?thesis
    using buf2 n k by (simp add: st2 st1 echo_entry_def)
qed

section \<open>Witness\<close>

text \<open>The stack as \<open>udp_echo_open\<close> leaves it, with the gateway in the cache.\<close>

definition echo_stack :: stack_state where
  "echo_stack = ping_stack\<lparr>running := running (NetRun ping_stack),
     udp_store := [\<lparr>up_state = UdpOpen, up_local = echo_endpoint, up_rxQueue = []\<rparr>], udp_pcbs := [0]\<rparr>"

lemma echo_stack_opened:
  "snd (udp_echo_open (Inr (''tap0'', demo_tap)) (Inr [2, 0, 0, 0, 0, 1]) stack_empty) =
     echo_stack\<lparr>caches := replicate cacheSize cache_entry_zero\<rparr>"
  unfolding udp_echo_opened by (simp add: echo_stack_def ping_stack_def NetRun_def net_Open_def stack_ready_def stack_empty_def)

lemma echo_stack_ok: "stack_ok (stack_ready ''tap0'' demo_tap [2, 0, 0, 0, 0, 1]) echo_stack"
proof -
  define st where "st = ping_stack\<lparr>running := running (NetRun ping_stack)\<rparr>"
  have "stack_ok (stack_ready ''tap0'' demo_tap [2, 0, 0, 0, 0, 1]) st"
    using ping_stack_ok state_vars(2) [of st "now ping_stack" ping_stack] by (simp add: st_def tcp_state.defs)
  moreover have "echo_stack = st\<lparr>udp_store := udp_store echo_stack, udp_pcbs := udp_pcbs echo_stack\<rparr>"
    by (simp add: st_def echo_stack_def)
  moreover have "udp_ok echo_stack" by (simp add: udp_ok_def echo_stack_def)
  ultimately show ?thesis using below_step_stack_ok [OF udp_vars_below] by metis
qed

lemma echo_stack_simps:
  "devices echo_stack ! 2 = Ether (tap_dev ''tap0'' demo_tap [2, 0, 0, 0, 0, 1])" "protoBuffers echo_stack ! 0 = []"
  "arp_view echo_stack 0xc0000201 = Some (EtherAddr 2 0 0 0 0 9)" "udp_pcbSelect 0xc0000202 8080 echo_stack = Some 0"
  "up_rxQueue (udp_store echo_stack ! 0) = []"
  using ping_stack_simps arp_view_cong [of echo_stack ping_stack]
  by (simp_all add: echo_stack_def udp_pcbSelect_def echo_endpoint_def)

definition demo_datagram :: "bytes \<Rightarrow> bytes" where
  "demo_datagram data = udp_frame (EtherAddr 2 0 0 0 0 9) (EtherAddr 2 0 0 0 0 1) (ping_ip\<lparr>ih_tol := 31, ih_proto := ProtoUDP\<rparr>)
     (demo_udp_header\<lparr>uh_dst := 8080\<rparr>) data"

lemma demo_datagram_fits:
  "length data = 3 \<Longrightarrow> echo_datagram (ping_ip\<lparr>ih_tol := 31, ih_proto := ProtoUDP\<rparr>) (demo_udp_header\<lparr>uh_dst := 8080\<rparr>) data"
  by (simp add: echo_datagram_def udp_sendable_def demo_udp_header_def ip_sendable_def ping_ip_def length_udp_sent)

lemma demo_tap_addr: "EtherAddr 2 0 0 0 0 1 = e_addr (tap_dev ''tap0'' demo_tap [2, 0, 0, 0, 0, 1])"
  by (simp add: tap_dev_def bytes_to_ether_def get_ether_def eval_nat_numeral)

theorem udp_echo_answered_witness:
  "\<exists>st2. udp_echo_round 0 (tap_turns 0 (demo_datagram [1, 2, 3]) echo_stack) = Some (None, st2) \<and> length (tap_frames st2) = 1"
proof -
  have "length [1, 2, 3 :: byte] = 3" by simp
  from udp_echo_answered [OF echo_stack_ok echo_stack_simps(1,2) _ _ echo_stack_simps(3-5) demo_datagram_fits [OF this] _ refl,
      of 0 "EtherAddr 2 0 0 0 0 9"]
  show ?thesis unfolding demo_datagram_def demo_tap_addr
    by (auto simp: demo_tap_def tap_dev_def tap_frames_def echo_stack_simps)
qed

theorem udp_datagrams_overwritten_witness:
  "map (slice_bytes (tap_turns 0 (demo_datagram [4, 5, 6]) (tap_turns 0 (demo_datagram [1, 2, 3]) echo_stack)) \<circ> ub_data)
     (up_rxQueue (udp_store (tap_turns 0 (demo_datagram [4, 5, 6]) (tap_turns 0 (demo_datagram [1, 2, 3]) echo_stack)) ! 0)) =
   [[4, 5, 6], [4, 5, 6]]"
proof -
  have l: "length [1, 2, 3 :: byte] = 3" "length [4, 5, 6 :: byte] = 3" by simp_all
  from udp_datagrams_overwritten [OF echo_stack_ok echo_stack_simps(1,2,4,5) demo_datagram_fits [OF l(1)]
      demo_datagram_fits [OF l(2)] _ refl, of 0 "EtherAddr 2 0 0 0 0 9" 0 "EtherAddr 2 0 0 0 0 9", THEN arg_cong, of "map snd"]
  show ?thesis unfolding demo_datagram_def demo_tap_addr by (simp add: comp_def)
qed

end
