(* ===== verification/TcpEcho.thy ===== *)
theory TcpEcho
  imports Examples
begin

text \<open>
  The TCP echo server (\<open>example/tcp/main.go\<close>). Its calls run as goroutines, started and not yet run until a step
  runs them; its channels are numbers, and what was sent on them is the part of TCP's log that it has not
  read. The channels have no buffer and the senders hold TCP's mutex, so messages are read in the order in
  which they were sent, and a message on a channel that is not read blocks all that come after it.
\<close>

section \<open>The program\<close>

definition errOpen :: nat where "errOpen = 0"
definition errRcv :: nat where "errRcv = 1"
definition errSnd :: nat where "errSnd = 2"
definition errClose :: nat where "errClose = 3"

lemmas echo_channels = errOpen_def errRcv_def errSnd_def errClose_def

text \<open>The goroutines; \<open>CallSend m\<close> is \<open>soc.Send(errSnd, buf[:m])\<close>. The buffer and \<open>n\<close> are the cells 0 of the
  memory that is shared with TCP.\<close>

datatype echo_call = CallOpen | CallReceive | CallSend nat | CallClose

record tcp_echo =
  te_rcv :: int
  te_seen :: nat
  te_calls :: "echo_call list"

definition echo_call_run ::
    "('a tcp_state_scheme \<Rightarrow> 'a tcp_state_scheme) \<Rightarrow> u32 \<Rightarrow> nat \<Rightarrow> echo_call \<Rightarrow> 'a tcp_state_scheme \<Rightarrow> 'a tcp_state_scheme" where
  "echo_call_run wait iss soc c st =
     (case c of
        CallOpen \<Rightarrow> tcp_Open arp_Resolve wait iss soc errOpen endpoint_zero False (5 * 60 * 1000000000) st
      | CallReceive \<Rightarrow> tcp_Receive soc errRcv 0 0 st
      | CallSend m \<Rightarrow> tcp_Send arp_Resolve wait soc errSnd (take m (tcp_bufs st ! 0)) st
      | CallClose \<Rightarrow> tcp_Close arp_Resolve wait soc errClose st)"

definition tcp_srcAddr :: string where "tcp_srcAddr = ''192.0.2.2:8080''"

definition tcp_echo_open ::
    "error option \<Rightarrow> error + string \<times> dev_file \<Rightarrow> error + bytes \<Rightarrow> 'a stack_state_scheme \<Rightarrow>
     (error + nat \<times> tcp_echo) \<times> 'a stack_state_scheme" where
  "tcp_echo_open created opened hwaddr st =
     (case (case created of None \<Rightarrow> NetInit True opened hwaddr st | Some err \<Rightarrow> (Some err, st)) of
        (Some err, st1) \<Rightarrow> (Inl err, st1)
      | (None, st1) \<Rightarrow>
          (let src = (case Str2Endpoint tcp_srcAddr of Inr e \<Rightarrow> e | Inl err \<Rightarrow> endpoint_zero)
           in case Newpcb src (NetRun st1) of
                (Inl err, st2) \<Rightarrow> (Inl err, st2)
              | (Inr soc, st2) \<Rightarrow>
                  (Inr (soc, \<lparr>te_rcv = 0, te_seen = length (tcp_log st2), te_calls = [CallOpen]\<rparr>),
                   st2\<lparr>tcp_bufs := [replicate 100 0], tcp_ints := [0]\<rparr>)))"

text \<open>A round of the loop; \<open>clock\<close> tells whether \<open>select\<close> takes the clock's case. The first component is whether
  the loop is left.\<close>

definition tcp_echo_turn :: "bool \<Rightarrow> nat \<Rightarrow> 'a tcp_state_scheme \<Rightarrow> tcp_echo \<Rightarrow> bool \<times> tcp_echo" where
  "tcp_echo_turn clock soc st E =
     (let E1 = (if te_rcv E = 0 \<and> tcp_Status soc st = StEstablished
                then E\<lparr>te_rcv := te_rcv E + 1, te_calls := te_calls E @ [CallReceive]\<rparr> else E)
      in if clock then (True, E1)
         else case drop (te_seen E1) (tcp_log st) of
                [] \<Rightarrow> (False, E1)
              | (ch, err) # _ \<Rightarrow>
                  if ch \<notin> {errOpen, errRcv, errSnd} then (False, E1)
                  else
                   (let E2 = E1\<lparr>te_seen := te_seen E1 + 1\<rparr>
                    in if err \<noteq> None then (True, E2)
                       else if ch = errRcv
                       then (False, E2\<lparr>te_rcv := te_rcv E2 - 1,
                               te_calls := te_calls E2 @ [CallSend (nat (tcp_ints st ! 0))]\<rparr>)
                       else (False, E2)))"

text \<open>What \<open>main\<close> does once it has read from \<open>errClose\<close>.\<close>

definition tcp_echo_end :: "error option \<Rightarrow> nat \<Rightarrow> 'a stack_state_scheme \<Rightarrow> error option \<times> 'a stack_state_scheme" where
  "tcp_echo_end err soc st =
     (if err \<noteq> None then (None, st)
      else case NetShutdown (snd (Deletepcb soc st)) of (e, st1) \<Rightarrow> (main_end e, st1))"

datatype echo_phase = Serving | Closing | Finished

text \<open>The steps of the server: a turn of the stack, a goroutine's call, a round of the loop, the end.\<close>

inductive tcp_echo_step ::
    "nat \<Rightarrow> echo_phase \<times> tcp_echo \<times> stack_state \<Rightarrow> echo_phase \<times> tcp_echo \<times> stack_state \<Rightarrow> bool" for soc where
  stack: "env_step st st' \<Longrightarrow> tcp_echo_step soc (ph, E, st) (ph, E, st')"
| call: "te_calls E = cs @ c # ds \<Longrightarrow> sleeps wait \<Longrightarrow>
    tcp_echo_step soc (ph, E, st) (ph, E\<lparr>te_calls := cs @ ds\<rparr>, echo_call_run wait iss soc c st)"
| loop: "tcp_echo_turn clock soc st E = (False, E1) \<Longrightarrow> tcp_echo_step soc (Serving, E, st) (Serving, E1, st)"
| leave: "tcp_echo_turn clock soc st E = (True, E1) \<Longrightarrow>
    tcp_echo_step soc (Serving, E, st) (Closing, E1\<lparr>te_calls := te_calls E1 @ [CallClose]\<rparr>, st)"
| finish: "drop (te_seen E) (tcp_log st) = (errClose, err) # msgs \<Longrightarrow>
    tcp_echo_step soc (Closing, E, st) (Finished, E\<lparr>te_seen := te_seen E + 1\<rparr>, snd (tcp_echo_end err soc st))"

section \<open>Properties\<close>

text \<open>After a setup that succeeds the server's connection is the first of the table, and closed.\<close>

lemma tcp_echo_opened:
  "tcp_echo_open None (Inr (name, file)) (Inr hwaddr) stack_empty =
     (Inr (0, \<lparr>te_rcv = 0, te_seen = 0, te_calls = [CallOpen]\<rparr>), (NetRun (stack_ready name file hwaddr))\<lparr>
        tcp_store := [pcb_zero\<lparr>tp_state := StClosed, tp_local := echo_endpoint\<rparr>], tcp_pcbs := [0],
        tcp_bufs := [replicate 100 0], tcp_ints := [0]\<rparr>)"
proof -
  have e: "tcp_store (NetRun (stack_ready name file hwaddr)) = []" "tcp_pcbs (NetRun (stack_ready name file hwaddr)) = []"
    "tcp_log (NetRun (stack_ready name file hwaddr)) = []"
    by (simp_all add: NetRun_def net_Open_def stack_ready_def stack_empty_def)
  have "Str2Endpoint tcp_srcAddr = Inr echo_endpoint"
    using udp_srcAddr_read by (simp add: tcp_srcAddr_def udp_srcAddr_def)
  then show ?thesis by (simp add: tcp_echo_open_def setup_fresh Newpcb_def Let_def e)
qed

text \<open>What the server does to the stack are steps of the stack: its goroutines' calls, and \<open>Deletepcb\<close> and
  \<open>NetShutdown\<close> at its end.\<close>

lemma tcp_echo_step_stack:
  assumes "tcp_echo_step soc (ph, E, st) (ph', E', st')" "soc < length (tcp_store st)"
  shows "stack_step\<^sup>*\<^sup>* st st'"
  using assms(1)
proof (cases rule: tcp_echo_step.cases)
  case stack
  then show ?thesis by (intro r_into_rtranclp stack_step.env)
next
  case (call cs c ds wait iss)
  have "stack_step st (echo_call_run wait iss soc c st)"
    using call assms(2) by (cases c) (simp_all add: echo_call_run_def stack_step.intros)
  with call show ?thesis by auto
next
  case (finish err msgs)
  have "stack_step\<^sup>*\<^sup>* st (snd (tcp_echo_end err soc st))"
    using rtranclp.rtrancl_into_rtrancl [OF r_into_rtranclp [of stack_step, OF stack_step.tcp_delete] stack_step.shutdown]
    by (simp add: tcp_echo_end_def case_prod_beta)
  with finish show ?thesis by simp
qed simp_all

text \<open>C29. The TCP echo server may send other bytes than it received: it starts to send a part of its buffer and,
  once the connection has more data, to receive into the same buffer, and nothing orders the two. If the
  send runs first it sends the first message; if the receive does, the first message is lost and as many
  bytes of the overwritten buffer are sent instead.\<close>

theorem tcp_echo_sends_overwritten:
  assumes "soc < length (tcp_store st')" "receiving m (pcb_at st' soc)" "rx_view (pcb_at st' soc) = d2" "d2 \<noteq> []"
    and "length d2 \<le> 100" "0 < length (tcp_bufs st')" "0 < length (tcp_ints st')" "tcp_bufs st' = tcp_bufs st"
    and "length (tcp_bufs st ! 0) = 100" "tcp_ints st ! 0 = int (length d1)" "take (length d1) (tcp_bufs st ! 0) = d1"
    and "te_rcv E = 1" "te_calls E = []" "drop (te_seen E) (tcp_log st) = [(errRcv, None)]" "tcp_log st' = tcp_log st"
    and "(b1, E1) = tcp_echo_turn False soc st E" "(b2, E2) = tcp_echo_turn False soc st' E1"
    and "received = echo_call_run wait iss soc CallReceive st'"
  shows "te_calls E2 = [CallSend (length d1), CallReceive] \<and>
    echo_call_run wait iss soc (CallSend (length d1)) st' = tcp_Send arp_Resolve wait soc errSnd d1 st' \<and>
    echo_call_run wait iss soc (CallSend (length d1)) received =
      tcp_Send arp_Resolve wait soc errSnd (take (length d1) (d2 @ drop (length d2) (tcp_bufs st ! 0))) received"
proof -
  define p where "p = pcb_at st' soc"
  have seen: "drop (Suc (te_seen E)) (tcp_log st) = []" using assms(14) by (metis drop_Suc tl_drop list.sel(3))
  have E1: "E1 = E\<lparr>te_seen := Suc (te_seen E), te_rcv := 0, te_calls := [CallSend (length d1)]\<rparr>"
    using assms(10,12-14,16) by (simp add: tcp_echo_turn_def Let_def echo_channels)
  have "state_of soc st' = StEstablished" using assms(2) by (simp add: receiving_def)
  then have calls: "te_calls E2 = [CallSend (length d1), CallReceive]"
    using assms(15,17) seen by (simp add: tcp_echo_turn_def E1 tcp_Status_def)
  have len: "length d2 = unat (tp_rxLen p)" using length_rx_view [OF assms(2)] by (simp add: p_def assms(3))
  then have "0 < unat (tp_rxLen p)" using assms(4) by (cases d2) auto
  from tcp_Receive_data [OF assms(1) p_def _ _ this assms(6,7) refl refl, of received errRcv] assms(2,3,5,8,9,18) len
  have "tcp_bufs received ! 0 = d2 @ drop (length d2) (tcp_bufs st ! 0)"
    by (simp add: receiving_def p_def echo_call_run_def min_absorb2)
  with calls show ?thesis using assms(8,11) by (simp add: echo_call_run_def)
qed

section \<open>Witness\<close>

text \<open>The server has received 1, 2, 3 and not yet read the message about it; then 4, 5, 6 arrive.\<close>

definition echo_demo :: "bytes \<Rightarrow> tcp_state" where
  "echo_demo waiting = (stream_demo waiting ([1, 2, 3] @ replicate 97 0))\<lparr>tcp_ints := [3], tcp_log := [(errRcv, None)]\<rparr>"

theorem tcp_echo_sends_overwritten_witness:
  "let E = \<lparr>te_rcv = 1, te_seen = 0, te_calls = []\<rparr>;
       E2 = snd (tcp_echo_turn False 0 (echo_demo [4, 5, 6]) (snd (tcp_echo_turn False 0 (echo_demo []) E)));
       received = echo_call_run id 0 0 CallReceive (echo_demo [4, 5, 6])
   in te_calls E2 = [CallSend 3, CallReceive] \<and>
      echo_call_run id 0 0 (CallSend 3) received = tcp_Send arp_Resolve id 0 errSnd [4, 5, 6] received"
proof -
  let ?st = "echo_demo []" and ?st' = "echo_demo [4, 5, 6]" and ?E = "\<lparr>te_rcv = 1, te_seen = 0, te_calls = []\<rparr>"
  have "0 < length (tcp_store ?st')" "receiving 0 (pcb_at ?st' 0)" "rx_view (pcb_at ?st' 0) = [4, 5, 6]"
    "0 < length (tcp_bufs ?st')" "0 < length (tcp_ints ?st')" "tcp_bufs ?st' = tcp_bufs ?st" "length (tcp_bufs ?st ! 0) = 100"
    "tcp_ints ?st ! 0 = int (length [1, 2, 3 :: byte])" "take (length [1, 2, 3 :: byte]) (tcp_bufs ?st ! 0) = [1, 2, 3]"
    "drop (te_seen ?E) (tcp_log ?st) = [(errRcv, None)]" "tcp_log ?st' = tcp_log ?st"
    by (simp_all add: echo_demo_def stream_demo_fields receiving_def rx_view_def pcb_zero_def tcpBufferSize_def)
  from tcp_echo_sends_overwritten [OF this(1-3) _ _ this(4-9) _ _ this(10,11) prod.collapse prod.collapse refl, of id 0]
  show ?thesis by (simp add: Let_def eval_nat_numeral)
qed

end
