(* ===== verification/Print.thy ===== *)
theory Print
  imports TcpHeader
begin

text \<open>
  The \<open>String\<close> methods that print addresses and headers for the log: \<open>device/ethernet_address.go\<close>,
  \<open>device/ethernet.go\<close>, \<open>arp/header.go\<close>, \<open>ip/header.go\<close>, \<open>icmp/header.go\<close>, \<open>udp/header.go\<close> and
  \<open>tcp/header.go\<close>. \<open>itoa\<close> is the verb \<open>%d\<close>, \<open>itox\<close> the verb \<open>%x\<close> of \<open>fmt\<close>.
\<close>

section \<open>Verbs and layout\<close>

definition hex_char :: "nat \<Rightarrow> char" where
  "hex_char d = (if d < 10 then char_of (48 + d) else char_of (87 + d))"

fun itox :: "nat \<Rightarrow> string" where
  "itox n = (if n < 16 then [hex_char n] else itox (n div 16) @ [hex_char (n mod 16)])"

declare itox.simps [simp del]

definition newline :: char where "newline = CHR 0x0A"
definition tab :: char where "tab = CHR 0x09"

text \<open>The layout of the raw strings: a line for each field, indented by two tabs, and a last tab.\<close>

fun log_block :: "string list \<Rightarrow> string" where
  "log_block [] = [newline, tab]"
| "log_block (f # fs) = [newline, tab, tab] @ f @ log_block fs"

section \<open>The methods\<close>

fun EtherAddr_String :: "ether_addr \<Rightarrow> string" where
  "EtherAddr_String (EtherAddr a b c d e f) =
     itox (unat a) @ '':'' @ itox (unat b) @ '':'' @ itox (unat c) @ '':'' @
     itox (unat d) @ '':'' @ itox (unat e) @ '':'' @ itox (unat f)"

definition EtherHeader_String :: "ether_header \<Rightarrow> string" where
  "EtherHeader_String h = log_block [
     ''Src: '' @ EtherAddr_String (eh_src h) @ '','',
     ''Dst: '' @ EtherAddr_String (eh_dst h) @ '','',
     ''Type: '' @ ProtoType_String (eh_type h)]"

definition ArpEther_String :: "arp_ether \<Rightarrow> string" where
  "ArpEther_String ae =
     (let hrd = (if ah_hrd ae = arpHrdEther then ''Ethernet('' @ itoa (unat arpHrdEther) @ '')'' else ''UNKNOWN'');
          pro = (if ah_pro ae = arpProIP then ''IPv4('' @ itoa (unat arpProIP) @ '')'' else ''UNKNOWN'');
          op = (if ah_op ae = arpOpReply then ''Reply('' @ itoa (unat arpOpReply) @ '')''
                else if ah_op ae = arpOpRequest then ''Request('' @ itoa (unat arpOpRequest) @ '')''
                else ''UNKNOWN'')
      in log_block [
        ''Hrd: '' @ hrd @ '','',
        ''Pro: '' @ pro @ '','',
        ''Hln: '' @ itoa (unat (ah_hln ae)) @ '','',
        ''Pln: '' @ itoa (unat (ah_pln ae)) @ '','',
        ''Op: '' @ op @ '','',
        ''Sha: '' @ EtherAddr_String (ah_sha ae) @ '','',
        ''Spa: '' @ Addr_String (ah_spa ae) @ '','',
        ''Tha: '' @ EtherAddr_String (ah_tha ae) @ '','',
        ''Tpa: '' @ Addr_String (ah_tpa ae) @ '',''])"

definition ip_Header_String :: "ip_header \<Rightarrow> string" where
  "ip_Header_String h = log_block [
     ''Version: '' @ itoa (unat (drop_bit 4 (ih_vhl h))) @ '','',
     ''Header Length: '' @ itoa (unat (push_bit 2 (ih_vhl h AND 0xf))) @ '','',
     ''Total Length: '' @ itoa (unat (ih_tol h)) @ '','',
     ''Tos: '' @ itoa (unat (ih_tos h)) @ '','',
     ''Id: '' @ itoa (unat (ih_id h)) @ '','',
     ''Flags: '' @ itox (unat (drop_bit 13 (ih_flags h))) @ '','',
     ''Fragment Offset: '' @ itoa (unat (ih_flags h AND 0x1fff)) @ '','',
     ''TTL: '' @ itoa (unat (ih_ttl h)) @ '','',
     ''ProtocolType: '' @ IpProtoType_String (ih_proto h) @ '','',
     ''Checksum: '' @ itox (unat (ih_checksum h)) @ '','',
     ''Src: '' @ Addr_String (ih_src h) @ '','',
     ''Dst: '' @ Addr_String (ih_dst h) @ '','']"

text \<open>The sequence number of an echo message is cut to its low byte.\<close>

definition icmp_Header_String :: "icmp_header \<Rightarrow> string" where
  "icmp_Header_String h =
     (if ic_typ h = TypeEchoReply \<or> ic_typ h = TypeEcho
      then log_block [
        ''typ: '' @ MessageType_String (ic_typ h) @ '', '',
        ''code: '' @ code2string (ic_typ h) (ic_code h) @ '','',
        ''checksum: '' @ itox (unat (ic_checksum h)) @ '','',
        ''id: '' @ itoa (unat (drop_bit 16 (ic_values h))) @ '','',
        ''seq: '' @ itoa (unat (ic_values h AND 0xff)) @ '','']
      else log_block [
        ''typ: '' @ MessageType_String (ic_typ h) @ '','',
        ''code: '' @ code2string (ic_typ h) (ic_code h) @ '','',
        ''checksum: '' @ itox (unat (ic_checksum h)) @ '','',
        ''values: '' @ itox (unat (ic_values h)) @ '',''])"

definition udp_Header_String :: "udp_header \<Rightarrow> string" where
  "udp_Header_String h = log_block [
     ''Src: '' @ itoa (unat (uh_src h)) @ '','',
     ''Dst: '' @ itoa (unat (uh_dst h)) @ '','',
     ''Len: '' @ itoa (unat (uh_len h)) @ '','',
     ''Checksum: '' @ itox (unat (uh_checksum h)) @ '','']"

definition tcp_Header_String :: "tcp_header \<Rightarrow> string" where
  "tcp_Header_String h = log_block [
     ''Dst: '' @ itoa (unat (th_dst h)) @ '', '',
     ''Src: '' @ itoa (unat (th_src h)) @ '','',
     ''Seq: '' @ itoa (unat (th_seq h)) @ '', '',
     ''Ack: '' @ itoa (unat (th_ack h)) @ '','',
     ''Offset: '' @ itoa (unat (drop_bit 4 (th_offset h))) @ '','',
     ''Control Flag: '' @ ControlFlag_String (th_flag h) @ '','',
     ''Window Size: '' @ itoa (unat (th_window h)) @ '','',
     ''Checksum: '' @ itox (unat (th_checksum h)) @ '','',
     ''Urgent Pointer: '' @ itox (unat (th_urgent h)) @ '','']"

section \<open>What the log tells apart\<close>

lemma of_char_hex_char:
  "d < 16 \<Longrightarrow> (of_char (hex_char d) :: nat) = (if d < 10 then 48 + d else 87 + d)"
  by (simp add: hex_char_def)

fun hex_value :: "nat \<Rightarrow> string \<Rightarrow> nat" where
  "hex_value acc [] = acc"
| "hex_value acc (c # cs) =
     hex_value (16 * acc + (if (of_char c :: nat) < 58 then of_char c - 48 else of_char c - 87)) cs"

lemma hex_value_append: "hex_value acc (xs @ ys) = hex_value (hex_value acc xs) ys"
  by (induction xs arbitrary: acc) auto

lemma hex_value_itox: "hex_value 0 (itox n) = n"
proof (induction n rule: itox.induct)
  case (1 n)
  then show ?case
    by (cases "n < 16") (auto simp: itox.simps [of n] hex_value_append of_char_hex_char)
qed

lemma itox_inj [simp]: "itox m = itox n \<longleftrightarrow> m = n"
  by (metis hex_value_itox)

lemma itoa_inj [simp]: "itoa m = itoa n \<longleftrightarrow> m = n"
  by (metis digits_value_itoa option.inject)

lemma itox_chars: "c \<in> set (itox n) \<Longrightarrow> 48 \<le> (of_char c :: nat) \<and> (of_char c :: nat) \<noteq> 58"
proof (induction n rule: itox.induct)
  case (1 n)
  then show ?case by (cases "n < 16") (auto simp: itox.simps [of n] of_char_hex_char split: if_split_asm)
qed

lemma itox_no_separator [simp]: "CHR '':'' \<notin> set (itox n)" "newline \<notin> set (itox n)"
  using itox_chars [of "CHR '':''" n] itox_chars [of newline n] by (auto simp: newline_def)

lemma itoa_no_newline [simp]: "newline \<notin> set (itoa n)"
  using itoa_digits [of newline n] by (auto simp: newline_def is_digit_def)

lemma EtherAddr_String_inj: "EtherAddr_String x = EtherAddr_String y \<longleftrightarrow> x = y"
proof -
  define parts where "parts s = map (hex_value 0) (split_on CHR '':'' s)" for s
  have parts: "parts (EtherAddr_String (EtherAddr a b c d e f)) = map unat [a, b, c, d, e, f]" for a b c d e f
    by (simp add: parts_def split_on_sep split_on_none hex_value_itox)
  have "x = y" if "EtherAddr_String x = EtherAddr_String y"
  proof -
    have "parts (EtherAddr_String x) = parts (EtherAddr_String y)" by (simp only: that)
    then show ?thesis by (cases x; cases y) (simp add: parts word_unat_eq_iff del: EtherAddr_String.simps)
  qed
  then show ?thesis by blast
qed

lemma log_block_inj:
  "length fs = length gs \<Longrightarrow> \<forall>f \<in> set fs. newline \<notin> set f \<Longrightarrow> \<forall>g \<in> set gs. newline \<notin> set g \<Longrightarrow>
     log_block fs = log_block gs \<longleftrightarrow> fs = gs"
proof (induction fs gs rule: list_induct2)
  case (Cons f fs g gs)
  have start: "\<exists>r. log_block hs = newline # r" for hs by (cases hs) simp_all
  have "f = g \<and> log_block fs = log_block gs" if eq: "f @ log_block fs = g @ log_block gs"
  proof -
    from start obtain r s where rs: "log_block fs = newline # r" "log_block gs = newline # s" by metis
    have "takeWhile (\<lambda>c. c \<noteq> newline) (x @ newline # t) = x" if "newline \<notin> set x" for x t
      using that by (subst takeWhile_append2) (auto intro: takeWhile_eq_all_conv [THEN iffD2])
    with Cons.prems eq rs have "f = g" by (metis list.set_intros(1))
    with eq show ?thesis by simp
  qed
  with Cons show ?case by auto
qed simp

text \<open>The log lines of a UDP header determine the header.\<close>

lemma udp_Header_String_inj: "udp_Header_String x = udp_Header_String y \<longleftrightarrow> x = y"
proof -
  have "udp_Header_String x = udp_Header_String y \<longleftrightarrow> unat (uh_src x) = unat (uh_src y) \<and>
      unat (uh_dst x) = unat (uh_dst y) \<and> unat (uh_len x) = unat (uh_len y) \<and>
      unat (uh_checksum x) = unat (uh_checksum y)"
    unfolding udp_Header_String_def by (subst log_block_inj) (simp_all, simp_all add: newline_def)
  then show ?thesis by (auto intro: udp_header.equality simp: word_unat_eq_iff)
qed

text \<open>Echo messages whose sequence numbers agree in the low byte have the same lines.\<close>

lemma icmp_echo_lines_equal:
  assumes "ic_typ x = TypeEcho" "drop_bit 16 v = drop_bit 16 (ic_values x)" "v AND 0xff = ic_values x AND 0xff"
  shows "icmp_Header_String (x\<lparr>ic_values := v\<rparr>) = icmp_Header_String x"
  using assms by (simp add: icmp_Header_String_def)

end
