(* ===== verification/Spec2Isabelle.thy ===== *)
theory Spec2Isabelle
  imports TcpEcho Print
begin

text \<open>
  A verification of go-network, a user-space TCP/IP stack on a tap device (\<open>pkg\<close>). The theories model
  the packages of the stack from the bytes of a frame up to the calls of TCP's user, and prove what
  the layers promise to each other and what the whole stack does.

  The parts of the program. A device (\<open>pkg/device\<close>) reads frames and hands their contents to the
  channel of a protocol (\<open>net.DeviceInputHanlder\<close>). The receive handlers of IP and ARP each take
  entries from their channel. IP calls the receive handler of ICMP, UDP or TCP; each of these answers, or
  delivers to a socket, by \<open>ip.TxHandler\<close>, which looks up the route and asks ARP for the hardware
  address before \<open>net.DeviceOutput\<close> writes a frame. UDP's users call \<open>Open\<close>, \<open>Bind\<close>, \<open>Send\<close>, \<open>Listen\<close>,
  \<open>Close\<close> on sockets; TCP's users \<open>Open\<close>, \<open>Send\<close>, \<open>Receive\<close>, \<open>Close\<close>, \<open>Abort\<close> on connections. Two
  timers run beside the handlers, one for ARP's cache and one for TCP's retransmission and states.
  \<open>NetInit\<close>, \<open>NetRun\<close> and \<open>NetShutdown\<close> (\<open>pkg/setting.go\<close>) set this up, start it and stop it.

  How it is modelled. A package's variables are a record that extends the record of the package below:
  \<open>net_state\<close> (Net), \<open>ip_state\<close> (Ip), \<open>arp_state\<close> (Arp), \<open>udp_state\<close> (Udp), \<open>tcp_state\<close> (TcpPcb),
  \<open>stack_state\<close> (Setting). A function that changes variables takes the state and returns it; it is
  polymorphic in the extension, so that a lower package's function applies to an upper package's state.
  Pointers to devices, interfaces, sockets and connections are indices in a store of the state. Errors
  are values (\<open>error\<close>: a Go error, a run-time panic, a send that blocks). Machine integers are words
  of the width the code declares, so sums and comparisons wrap around as in Go. A goroutine's endless
  loop is modelled by one turn of it, as a function of what it read; goroutines interleave turn by turn.
  The resolver that IP calls is an argument of IP's functions, as in the code, and is \<open>arp_Resolve\<close>
  from Icmp on.

  The theories, from below:
  Prelude: word types, errors, big-endian reads and writes. GoString: the functions of \<open>strings\<close> and
  \<open>strconv\<close> in use. Codec: the contract of a header's encoder and decoder (locale \<open>header_codec\<close>, interpreted for
  all six headers).
  Utils (\<open>pkg/utils\<close>): byte order and the checksum, equal to that of RFC 1071 up to 65536 bytes.
  Net, Device (\<open>pkg/net\<close>, \<open>pkg/device\<close>): registries, channels, the three devices, Ethernet frames.
  Tap (\<open>pkg/device/raw\<close>): the requests to the tap driver, with the operating system as a parameter: four calls
  on a state of its own. \<open>tap_kernel\<close> is what its documentation says of them.
  IpAddr, IpHeader, Ip (\<open>pkg/ip\<close>): addresses, header, interfaces, routes, dispatch. The locale \<open>resolver\<close> is
  what IP asks of its resolver, \<open>upper_layer\<close> what a protocol above IP may rely on when it sends.
  ArpHeader, Arp (\<open>pkg/arp\<close>): messages, cache, handler, timer. \<open>arp_Resolve\<close> is shown to be a \<open>resolver\<close>;
  the cache is an \<open>address_table\<close>.
  Icmp (\<open>pkg/icmp\<close>). Transport, UdpHeader, Udp (\<open>pkg/udp\<close>): endpoints, the contract \<open>socket_table\<close> of a table
  of sockets, which UDP's and TCP's tables meet, datagrams, sockets.
  TcpHeader, TcpPcb, Tcp, TcpUser (\<open>pkg/tcp\<close>): header; control blocks, retransmission queue and signals
  (\<open>pcb.go\<close>); \<open>segmentArrives\<close>, one definition for each of its steps (\<open>protocol.go\<close>); the user's calls
  and the timer (\<open>pcb.go\<close>, \<open>timer.go\<close>).
  TcpInvariant, TcpStates, TcpRun, TcpStream, TcpConnect, TcpTimer: what holds of TCP. \<open>tcp_to\<close> bounds what a step
  changes; \<open>seg_edge\<close> is the state diagram; \<open>tcp_step\<close> are the steps of TCP; the locale \<open>byte_stream\<close> is the
  contract of a reliable stream: a run simulates the abstract \<open>user_stream\<close>, step by step. \<open>segmentArrives\<close> and
  \<open>RECEIVE\<close> meet it, with requests that wait, repeated segments and user buffers of any size that holds what a
  request is served with.
  TcpBelow, Stack, Setting, Flows, Handshake: the layers together. \<open>below_tcp\<close> carries any condition on the lower layers
  through TCP's operations, \<open>turn_invariant\<close> and \<open>run_invariant\<close> through the turns of all goroutines;
  \<open>stack_step\<close> are the steps of the whole stack after \<open>NetInit\<close> and \<open>NetRun\<close>. Flows follows packets from the
  tap device through the layers and back, Handshake the two frames that open a connection.
  Examples, TcpEcho (\<open>example\<close>): the program that waits to be pinged, the UDP and the TCP echo server.
  Print: the \<open>String\<close> methods of addresses and headers, which the log uses.

  What the theorems show. Encodings: every header reads back what was written, with the exceptions of the code
  (a packet length whose low byte is below 20; ICMP's checksum); checksums detect the change of a word.
  Invariants: the well-formedness of each layer under each of its operations, and of all layers in every run
  of the stack. Functional behaviour: delivery of frames, packets, datagrams and segments to the right
  protocol and socket, answers of ARP and ICMP, routing, resolving, timers. TCP: transitions follow the
  diagram, opening, closing and the data path on in-order segments, acknowledgement and retransmission. Whole
  stack: a ping and a datagram to the echo server are answered, and a TCP connection is opened, through all
  layers; the gateway is resolved and then reached; a frame overwrites what waits on a socket; only one kind
  of segment makes the stack panic; setting up brings up the kernel's interface, with its address. Error
  behaviour: theorems on the branches where the code does not do what it means to do say exactly what happens
  there (PROJECT.json lists them as findings).

  Bounds. Loops are structural recursions on the list they range over. The search for a UDP port, which may
  not end, is a \<open>partial_function (option)\<close>; the three tries of TCP's calls are a counter. The theorems on
  TCP's data path and opening ask that no sequence number wraps around, because the code compares them as
  plain unsigned numbers.

  Not modelled. What happens inside a system call (Tap asks a parameter), the log's output (its texts are in
  Print), and the tests.
  Turns of goroutines and calls of users are atomic, so data races on variables the code reads without a mutex
  (\<open>pcbs\<close> in TCP's and UDP's searches, ARP's and UDP's variables, the routes) do not show. A call of TCP's user
  that sleeps holds TCP's mutex; what the other goroutines do meanwhile is its argument \<open>wait\<close>. TCP sends on its
  users' channels with the mutex held; the model logs what is sent and takes every user to be receiving, so a
  user that is not, on whose channel the code would block, does not show. The zero byte
  that \<open>CheckSum\<close> appends to a slice of odd length is not written behind the slice in its buffer. The
  retransmission queue keeps the bytes of \<open>SEND\<close> as they were, while the code keeps the caller's slice.
  \<open>createISS\<close> is random; its result is an argument. A panic ends the program and a blocked send its goroutine;
  runs go on after them, so that what holds in every run holds in more runs than there are.
\<close>

end
